theory Spec2Isabelle
  imports Main "HOL-Library.Word"
begin

section \<open>Entities and component records\<close>

text \<open>
  \<^verbatim>\<open>using Entity = std::uint32_t; const Entity NULL_ENTITY = 0; const int MAX_ENTITIES = 10000;\<close>
  An entity is a 32-bit unsigned word. \<open>MAX_ENTITIES\<close> is a C++ \<open>int\<close>; the code compares
  it with entities after the usual conversion to \<open>unsigned\<close>, written \<open>word_of_int\<close> here.
\<close>

type_synonym Entity = "32 word"

definition NULL_ENTITY :: Entity where
  "NULL_ENTITY = 0"

definition MAX_ENTITIES :: int where
  "MAX_ENTITIES = 10000"

text \<open>
  The component structs are plain data. The storages never look inside a component: they
  default-construct it (\<open>T{}\<close>) and copy it. A \<open>float\<close> member is kept as its IEEE-754
  single-precision bit pattern, a pointer as a 64-bit address (\<open>nullptr\<close> is 0).
\<close>

type_synonym float = "32 word"
type_synonym pointer = "64 word"

datatype Vec2 = Vec2 float float
  \<comment> \<open>x, y\<close>

datatype Player = Player float float
  \<comment> \<open>health, speed\<close>

datatype Transform = Transform Vec2 float float
  \<comment> \<open>position, rotation, scale\<close>

datatype SDL_Color = SDL_Color "8 word" "8 word" "8 word" "8 word"

datatype Sprite = Sprite pointer SDL_Color "8 word" "8 word"
  \<comment> \<open>texture, color, width, height\<close>

datatype Animation =
  Animation pointer "8 word" "8 word" "8 word" "8 word" float float bool bool
  \<comment> \<open>spriteSheet, frameWidth, frameHeight, currentFrame, totalFrames, frameTime, timer,
     loop, playing\<close>

datatype Physics = Physics Vec2 Vec2 float float float bool
  \<comment> \<open>velocity, acceleration, gravityScale, maxFallSpeed, linearDamping, isKinematic\<close>

datatype Collider = Collider Vec2 Vec2 "16 word" "16 word" bool bool
  \<comment> \<open>size, offset, layer, collidesWith, isTrigger, isStatic\<close>

datatype CollisionState = CollisionState bool bool bool bool Entity Vec2 float float
  \<comment> \<open>isGrounded, isTouchingCeiling, isTouchingWallLeft, isTouchingWallRight, groundEntity,
     groundNormal, timeSinceGrounded, timeSinceWallTouch\<close>

text \<open>
  \<open>T{}\<close>: the default member initialisers of each struct (\<open>0x3F800000\<close> is \<open>1.0f\<close>,
  \<open>0x42C80000\<close> is \<open>100.0f\<close>, \<open>0x43480000\<close> is \<open>200.0f\<close>, \<open>0x44160000\<close> is \<open>600.0f\<close>,
  \<open>0x3DCCCCCD\<close> is \<open>0.1f\<close>, \<open>0xBF800000\<close> is \<open>-1.0f\<close>). For \<open>uint32_t\<close> it is 0.
\<close>

instantiation Vec2 :: default
begin
definition "default = Vec2 0 0"
instance ..
end

instantiation Player :: default
begin
definition "default = Player 0x42C80000 0x43480000"
instance ..
end

instantiation Transform :: default
begin
definition "default = Transform default 0 0x3F800000"
instance ..
end

instantiation Sprite :: default
begin
definition "default = Sprite 0 (SDL_Color 255 255 255 255) 0 0"
instance ..
end

instantiation Animation :: default
begin
definition "default = Animation 0 0 0 0 0 0x3DCCCCCD 0 True True"
instance ..
end

instantiation Physics :: default
begin
definition "default = Physics default default 0x3F800000 0x44160000 0 False"
instance ..
end

instantiation Collider :: default
begin
definition "default = Collider default default 1 0xFFFF False False"
instance ..
end

instantiation CollisionState :: default
begin
definition "default = CollisionState False False False False NULL_ENTITY (Vec2 0 0xBF800000) 0 0"
instance ..
end

instantiation word :: (len) default
begin
definition "default = (0 :: 'a word)"
instance ..
end

section \<open>The array utility\<close>

text \<open>
  \<open>Array<T>\<close> as the storages use it: built with a size, every slot default-constructed,
  and then only indexed. \<open>operator[]\<close> checks nothing in a release build and fails an
  assertion in a debug build when \<open>p_index < 0 || p_index >= m_size\<close>; the model makes
  that access the error \<open>OutOfBounds\<close>. Move assignment deletes the array the target held
  (\<open>delete[] m_array\<close>); a read through a reference into a deleted array is the error
  \<open>UseAfterFree\<close>.
\<close>

datatype error = OutOfBounds | UseAfterFree

definition Array_new :: "int \<Rightarrow> 'a::default list" where
  "Array_new p_size = replicate (nat p_size) default"

definition Array_get :: "'a list \<Rightarrow> int \<Rightarrow> error + 'a" where
  "Array_get m_array p_index =
     (if p_index < 0 \<or> int (length m_array) \<le> p_index then Inl OutOfBounds
      else Inr (m_array ! nat p_index))"

definition Array_set :: "'a list \<Rightarrow> int \<Rightarrow> 'a \<Rightarrow> error + 'a list" where
  "Array_set m_array p_index v =
     (if p_index < 0 \<or> int (length m_array) \<le> p_index then Inl OutOfBounds
      else Inr (m_array[nat p_index := v]))"

section \<open>Sparse-set storage\<close>

text \<open>
  \<^verbatim>\<open>Array<uint32_t> sparse; Array<Entity> dense; Array<T> data; int count; int capacity;\<close>
  \<open>count\<close> and \<open>capacity\<close> are C++ \<open>int\<close>s, modelled as unbounded integers: in every state
  the operations reach, \<open>count\<close> is at most \<open>MAX_ENTITIES\<close> and \<open>capacity\<close> at most twice that
  (both are part of \<open>SparseSet_inv\<close> below). Where the code mixes \<open>int\<close> and \<open>uint32_t\<close>
  the conversions are written out: \<open>word_of_int\<close> from \<open>int\<close> to \<open>uint32_t\<close>, \<open>sint\<close> from
  \<open>uint32_t\<close> to the \<open>int\<close> index parameter of \<open>operator[]\<close>.
\<close>

record 'a SparseSet =
  sparse :: "32 word list"
  dense :: "Entity list"
  data :: "'a list"
  count :: int
  capacity :: int

definition INVALID_INDEX :: "32 word" where
  "INVALID_INDEX = word_of_int (MAX_ENTITIES + 1)"

text \<open>
  The constructor: \<open>sparse(MAX_ENTITIES), dense(0), data(0), count(0), capacity(0)\<close>, then
  the loop that sets \<open>sparse[i]\<close> to \<open>INVALID_INDEX\<close> for \<open>i\<close> from 0 up to
  \<open>MAX_ENTITIES\<close>, the size the array was just built with.
\<close>

definition SparseSet_new :: "('a::default) SparseSet" where
  "SparseSet_new =
     \<lparr>sparse = foldl (\<lambda>sp i. sp[i := INVALID_INDEX]) (Array_new MAX_ENTITIES)
                [0 ..< nat MAX_ENTITIES],
      dense = Array_new 0, data = Array_new 0, count = 0, capacity = 0\<rparr>"

text \<open>\<open>Grow\<close>: new arrays of the doubled capacity (64 the first time), the copy loop, the swap.\<close>

function Grow_copy ::
  "'a SparseSet \<Rightarrow> int \<Rightarrow> Entity list \<Rightarrow> 'a list \<Rightarrow> error + (Entity list \<times> 'a list)" where
  "Grow_copy s i newDense newData =
     (if i < count s then
        (case Array_get (dense s) i of Inl err \<Rightarrow> Inl err | Inr d \<Rightarrow>
        (case Array_set newDense i d of Inl err \<Rightarrow> Inl err | Inr newDense' \<Rightarrow>
        (case Array_get (data s) i of Inl err \<Rightarrow> Inl err | Inr c \<Rightarrow>
        (case Array_set newData i c of Inl err \<Rightarrow> Inl err | Inr newData' \<Rightarrow>
           Grow_copy s (i + 1) newDense' newData'))))
      else Inr (newDense, newData))"
  by pat_completeness auto
termination
  by (relation "measure (\<lambda>(s, i, nd, nv). nat (count s - i))") auto

definition Grow :: "('a::default) SparseSet \<Rightarrow> error + 'a SparseSet" where
  "Grow s =
     (let newCapacity = (if capacity s = 0 then 64 else capacity s * 2) in
      case Grow_copy s 0 (Array_new newCapacity) (Array_new newCapacity) of
        Inl err \<Rightarrow> Inl err
      | Inr (newDense, newData) \<Rightarrow>
          Inr (s\<lparr>dense := newDense, data := newData, capacity := newCapacity\<rparr>))"

text \<open>
  \<^verbatim>\<open>if (entity >= MAX_ENTITIES) return false;
  uint32_t index = sparse[entity]; return index < count && dense[index] == entity;\<close>
\<close>

definition Has :: "'a SparseSet \<Rightarrow> Entity \<Rightarrow> error + bool" where
  "Has s entity =
     (if word_of_int MAX_ENTITIES \<le> entity then Inr False
      else case Array_get (sparse s) (sint entity) of Inl err \<Rightarrow> Inl err | Inr index \<Rightarrow>
        if index < word_of_int (count s)
        then (case Array_get (dense s) (sint index) of
                Inl err \<Rightarrow> Inl err
              | Inr d \<Rightarrow> Inr (d = entity))
        else Inr False)"

text \<open>
  \<open>const T& component\<close> is a reference. It refers to an object of the caller's, outside the
  storage (\<open>Object v\<close>, the object holds \<open>v\<close>), or to an element \<open>data[p]\<close> of the value array
  of the storage the call is made on (\<open>Element p\<close>), as the pointers and references that \<open>Get\<close>
  and \<open>GetData\<close> hand out do. \<open>read_component\<close> is the read through the reference out of the
  array it was taken into; \<open>freed\<close> tells whether \<open>Grow\<close> has run since. \<open>Grow\<close> move-assigns
  the new array to \<open>data\<close>, and the move assignment of \<open>Array\<close> deletes the old one, so a read
  through an \<open>Element\<close> reference after \<open>Grow\<close> is a use after free.
\<close>

datatype 'a cref = Object 'a | Element int

fun read_component :: "'a cref \<Rightarrow> 'a list \<Rightarrow> bool \<Rightarrow> error + 'a" where
  "read_component (Object v) m_array freed = Inr v"
| "read_component (Element p) m_array freed =
     (if freed then Inl UseAfterFree else Array_get m_array p)"

text \<open>
  \<open>Add\<close>. An assignment \<open>data[i] = component\<close> locates the element (\<open>operator[]\<close>), reads the
  component through the reference and stores it.
\<close>

definition Add :: "('a::default) SparseSet \<Rightarrow> Entity \<Rightarrow> 'a cref \<Rightarrow> error + 'a SparseSet" where
  "Add s entity component =
     (if word_of_int MAX_ENTITIES \<le> entity then Inr s
      else case Has s entity of
        Inl err \<Rightarrow> Inl err
      | Inr True \<Rightarrow>
          (case Array_get (sparse s) (sint entity) of Inl err \<Rightarrow> Inl err | Inr index \<Rightarrow>
          (case Array_get (data s) (sint index) of Inl err \<Rightarrow> Inl err | Inr old \<Rightarrow>
          (case read_component component (data s) False of Inl err \<Rightarrow> Inl err | Inr c \<Rightarrow>
          (case Array_set (data s) (sint index) c of
             Inl err \<Rightarrow> Inl err
           | Inr data' \<Rightarrow> Inr (s\<lparr>data := data'\<rparr>)))))
      | Inr False \<Rightarrow>
          (case (if capacity s \<le> count s then Grow s else Inr s) of
             Inl err \<Rightarrow> Inl err
           | Inr g \<Rightarrow>
          (case Array_set (sparse g) (sint entity) (word_of_int (count g)) of
             Inl err \<Rightarrow> Inl err
           | Inr sparse' \<Rightarrow>
          (case Array_set (dense g) (count g) entity of Inl err \<Rightarrow> Inl err | Inr dense' \<Rightarrow>
          (case Array_get (data g) (count g) of Inl err \<Rightarrow> Inl err | Inr old \<Rightarrow>
          (case read_component component (data s) (capacity s \<le> count s) of
             Inl err \<Rightarrow> Inl err
           | Inr c \<Rightarrow>
          (case Array_set (data g) (count g) c of Inl err \<Rightarrow> Inl err | Inr data' \<Rightarrow>
             Inr (g\<lparr>sparse := sparse', dense := dense', data := data',
                     count := count g + 1\<rparr>))))))))"

definition Remove :: "'a SparseSet \<Rightarrow> Entity \<Rightarrow> error + 'a SparseSet" where
  "Remove s entity =
     (case Has s entity of
        Inl err \<Rightarrow> Inl err
      | Inr False \<Rightarrow> Inr s
      | Inr True \<Rightarrow>
          (case Array_get (sparse s) (sint entity) of Inl err \<Rightarrow> Inl err | Inr index \<Rightarrow>
           let lastIndex = (word_of_int (count s - 1) :: 32 word) in
          (case (if index \<noteq> lastIndex then
                   (case Array_get (dense s) (sint lastIndex) of
                      Inl err \<Rightarrow> Inl err
                    | Inr lastEntity \<Rightarrow>
                   (case Array_set (dense s) (sint index) lastEntity of
                      Inl err \<Rightarrow> Inl err
                    | Inr dense' \<Rightarrow>
                   (case Array_get (data s) (sint lastIndex) of
                      Inl err \<Rightarrow> Inl err
                    | Inr c \<Rightarrow>
                   (case Array_set (data s) (sint index) c of
                      Inl err \<Rightarrow> Inl err
                    | Inr data' \<Rightarrow>
                   (case Array_set (sparse s) (sint lastEntity) index of
                      Inl err \<Rightarrow> Inl err
                    | Inr sparse' \<Rightarrow>
                        Inr (s\<lparr>sparse := sparse', dense := dense', data := data'\<rparr>))))))
                 else Inr s) of
             Inl err \<Rightarrow> Inl err
           | Inr m \<Rightarrow>
          (case Array_set (sparse m) (sint entity) INVALID_INDEX of
             Inl err \<Rightarrow> Inl err
           | Inr sparse'' \<Rightarrow> Inr (m\<lparr>sparse := sparse'', count := count m - 1\<rparr>)))))"

text \<open>
  \<open>Get\<close> returns \<open>nullptr\<close> (\<open>None\<close>) or the pointer \<open>&data[sparse[entity]]\<close>. A pointer into
  the value array is its position in that array; \<open>GetData\<close> at that position reads what it
  points to.
\<close>

definition Get :: "'a SparseSet \<Rightarrow> Entity \<Rightarrow> error + int option" where
  "Get s entity =
     (case Has s entity of
        Inl err \<Rightarrow> Inl err
      | Inr False \<Rightarrow> Inr None
      | Inr True \<Rightarrow>
          (case Array_get (sparse s) (sint entity) of Inl err \<Rightarrow> Inl err | Inr index \<Rightarrow>
          (case Array_get (data s) (sint index) of
             Inl err \<Rightarrow> Inl err
           | Inr c \<Rightarrow> Inr (Some (sint index)))))"

definition Count :: "'a SparseSet \<Rightarrow> int" where
  "Count s = count s"

definition GetData :: "'a SparseSet \<Rightarrow> int \<Rightarrow> error + 'a" where
  "GetData s index = Array_get (data s) index"

definition GetEntity :: "'a SparseSet \<Rightarrow> int \<Rightarrow> error + Entity" where
  "GetEntity s index = Array_get (dense s) index"

text \<open>
  \<open>GetData\<close> returns a reference (\<open>T&\<close>) and \<open>Get\<close> a pointer into the value array. An
  assignment through either, at position \<open>index\<close>, is \<open>SetData\<close>.
\<close>

definition SetData :: "'a SparseSet \<Rightarrow> int \<Rightarrow> 'a \<Rightarrow> error + 'a SparseSet" where
  "SetData s index v =
     (case Array_set (data s) index v of
        Inl err \<Rightarrow> Inl err
      | Inr data' \<Rightarrow> Inr (s\<lparr>data := data'\<rparr>))"

function Clear_loop :: "'a SparseSet \<Rightarrow> int \<Rightarrow> 32 word list \<Rightarrow> error + 32 word list" where
  "Clear_loop s i sp =
     (if i < count s then
        (case Array_get (dense s) i of Inl err \<Rightarrow> Inl err | Inr d \<Rightarrow>
        (case Array_set sp (sint d) INVALID_INDEX of Inl err \<Rightarrow> Inl err | Inr sp' \<Rightarrow>
           Clear_loop s (i + 1) sp'))
      else Inr sp)"
  by pat_completeness auto
termination
  by (relation "measure (\<lambda>(s, i, sp). nat (count s - i))") auto

definition Clear :: "'a SparseSet \<Rightarrow> error + 'a SparseSet" where
  "Clear s =
     (case Clear_loop s 0 (sparse s) of
        Inl err \<Rightarrow> Inl err
      | Inr sp \<Rightarrow> Inr (s\<lparr>sparse := sp, count := 0\<rparr>))"

text \<open>
  \<open>Get\<close> followed by the dereference of the pointer it returned: \<open>*Get(entity)\<close>, or \<open>None\<close>
  for \<open>nullptr\<close>.
\<close>

definition Get_value :: "'a SparseSet \<Rightarrow> Entity \<Rightarrow> error + 'a option" where
  "Get_value s entity =
     (case Get s entity of
        Inl err \<Rightarrow> Inl err
      | Inr None \<Rightarrow> Inr None
      | Inr (Some p) \<Rightarrow> (case GetData s p of Inl err \<Rightarrow> Inl err | Inr c \<Rightarrow> Inr (Some c)))"

subsection \<open>Representation invariant and abstraction\<close>

text \<open>
  The representation invariant of a storage: the array sizes the constructor and \<open>Grow\<close>
  establish, the bounds on \<open>count\<close> and \<open>capacity\<close>, and the two-way link between \<open>sparse\<close>
  and the first \<open>count\<close> slots of \<open>dense\<close>.
\<close>

definition SparseSet_inv :: "'a SparseSet \<Rightarrow> bool" where
  "SparseSet_inv s \<longleftrightarrow>
     int (length (sparse s)) = MAX_ENTITIES \<and>
     0 \<le> count s \<and> count s \<le> capacity s \<and> count s \<le> MAX_ENTITIES \<and>
     capacity s \<le> 2 * MAX_ENTITIES \<and>
     int (length (dense s)) = capacity s \<and> int (length (data s)) = capacity s \<and>
     (\<forall>i. 0 \<le> i \<longrightarrow> i < count s \<longrightarrow>
        uint (dense s ! nat i) < MAX_ENTITIES \<and>
        uint (sparse s ! unat (dense s ! nat i)) = i) \<and>
     (\<forall>e. uint e < MAX_ENTITIES \<longrightarrow> sparse s ! unat e \<noteq> INVALID_INDEX \<longrightarrow>
        uint (sparse s ! unat e) < count s \<and> dense s ! unat (sparse s ! unat e) = e)"

text \<open>
  What a storage holds, read off the arrays: an entity is present when it is in range and
  its \<open>sparse\<close> entry is not the sentinel, and then its value is the \<open>data\<close> slot the entry
  names.
\<close>

definition present :: "'a SparseSet \<Rightarrow> Entity \<Rightarrow> bool" where
  "present s e \<longleftrightarrow> uint e < MAX_ENTITIES \<and> sparse s ! unat e \<noteq> INVALID_INDEX"

definition lookup :: "'a SparseSet \<Rightarrow> Entity \<Rightarrow> 'a option" where
  "lookup s e = (if present s e then Some (data s ! unat (sparse s ! unat e)) else None)"

text \<open>
  The component reference of a call \<open>Add(entity, component)\<close> on \<open>s\<close> is valid when it is read,
  and what it refers to holds \<open>v\<close>: it refers to an object outside the storage, or to an
  element of the value array and the call does not reallocate that array (the entity is
  already present, or a slot is free).
\<close>

definition refers_to :: "'a SparseSet \<Rightarrow> Entity \<Rightarrow> 'a cref \<Rightarrow> 'a \<Rightarrow> bool" where
  "refers_to s entity component v =
     (case component of
        Object c \<Rightarrow> c = v
      | Element p \<Rightarrow>
          Array_get (data s) p = Inr v \<and> (Has s entity = Inr True \<or> count s < capacity s))"

text \<open>
  Operation sequences on one storage: the public mutators, applied from left to right, each
  \<open>Add\<close> with a component object of the caller's. An out-of-bounds array access anywhere ends
  the run with the error.
\<close>

datatype 'a SparseSet_op = OpAdd Entity 'a | OpRemove Entity | OpClear

fun SparseSet_apply :: "('a::default) SparseSet \<Rightarrow> 'a SparseSet_op \<Rightarrow> error + 'a SparseSet" where
  "SparseSet_apply s (OpAdd entity component) = Add s entity (Object component)"
| "SparseSet_apply s (OpRemove entity) = Remove s entity"
| "SparseSet_apply s OpClear = Clear s"

fun SparseSet_run :: "('a::default) SparseSet \<Rightarrow> 'a SparseSet_op list \<Rightarrow> error + 'a SparseSet" where
  "SparseSet_run s [] = Inr s"
| "SparseSet_run s (op # ops) =
     (case SparseSet_apply s op of Inl err \<Rightarrow> Inl err | Inr s' \<Rightarrow> SparseSet_run s' ops)"

section \<open>The registry\<close>

record World =
  nextEntity :: Entity
  transforms :: "Transform SparseSet"
  sprites :: "Sprite SparseSet"
  animations :: "Animation SparseSet"
  physics :: "Physics SparseSet"
  colliders :: "Collider SparseSet"
  collisionStates :: "CollisionState SparseSet"
  players :: "Player SparseSet"

definition World_new :: World where
  "World_new =
     \<lparr>nextEntity = 1, transforms = SparseSet_new, sprites = SparseSet_new,
      animations = SparseSet_new, physics = SparseSet_new, colliders = SparseSet_new,
      collisionStates = SparseSet_new, players = SparseSet_new\<rparr>"

text \<open>\<^verbatim>\<open>if (nextEntity >= MAX_ENTITIES) return NULL_ENTITY; return nextEntity++;\<close>\<close>

definition CreateEntity :: "World \<Rightarrow> Entity \<times> World" where
  "CreateEntity w =
     (if word_of_int MAX_ENTITIES \<le> nextEntity w then (NULL_ENTITY, w)
      else (nextEntity w, w\<lparr>nextEntity := nextEntity w + 1\<rparr>))"

text \<open>The per-kind quartets forward to the kind's storage.\<close>

definition AddTransform :: "World \<Rightarrow> Entity \<Rightarrow> Transform cref \<Rightarrow> error + World" where
  "AddTransform w entity transform =
     (case Add (transforms w) entity transform of
        Inl err \<Rightarrow> Inl err
      | Inr s \<Rightarrow> Inr (w\<lparr>transforms := s\<rparr>))"

definition AddSprite :: "World \<Rightarrow> Entity \<Rightarrow> Sprite cref \<Rightarrow> error + World" where
  "AddSprite w entity sprite =
     (case Add (sprites w) entity sprite of
        Inl err \<Rightarrow> Inl err
      | Inr s \<Rightarrow> Inr (w\<lparr>sprites := s\<rparr>))"

definition AddAnimation :: "World \<Rightarrow> Entity \<Rightarrow> Animation cref \<Rightarrow> error + World" where
  "AddAnimation w entity animation =
     (case Add (animations w) entity animation of
        Inl err \<Rightarrow> Inl err
      | Inr s \<Rightarrow> Inr (w\<lparr>animations := s\<rparr>))"

definition AddPhysics :: "World \<Rightarrow> Entity \<Rightarrow> Physics cref \<Rightarrow> error + World" where
  "AddPhysics w entity phys =
     (case Add (physics w) entity phys of
        Inl err \<Rightarrow> Inl err
      | Inr s \<Rightarrow> Inr (w\<lparr>physics := s\<rparr>))"

definition AddCollider :: "World \<Rightarrow> Entity \<Rightarrow> Collider cref \<Rightarrow> error + World" where
  "AddCollider w entity collider =
     (case Add (colliders w) entity collider of
        Inl err \<Rightarrow> Inl err
      | Inr s \<Rightarrow> Inr (w\<lparr>colliders := s\<rparr>))"

definition AddCollisionState :: "World \<Rightarrow> Entity \<Rightarrow> CollisionState cref \<Rightarrow> error + World" where
  "AddCollisionState w entity state =
     (case Add (collisionStates w) entity state of
        Inl err \<Rightarrow> Inl err
      | Inr s \<Rightarrow> Inr (w\<lparr>collisionStates := s\<rparr>))"

definition AddPlayer :: "World \<Rightarrow> Entity \<Rightarrow> Player cref \<Rightarrow> error + World" where
  "AddPlayer w entity player =
     (case Add (players w) entity player of
        Inl err \<Rightarrow> Inl err
      | Inr s \<Rightarrow> Inr (w\<lparr>players := s\<rparr>))"

definition GetTransform :: "World \<Rightarrow> Entity \<Rightarrow> error + int option" where
  "GetTransform w entity = Get (transforms w) entity"

definition GetSprite :: "World \<Rightarrow> Entity \<Rightarrow> error + int option" where
  "GetSprite w entity = Get (sprites w) entity"

definition GetAnimation :: "World \<Rightarrow> Entity \<Rightarrow> error + int option" where
  "GetAnimation w entity = Get (animations w) entity"

definition GetPhysics :: "World \<Rightarrow> Entity \<Rightarrow> error + int option" where
  "GetPhysics w entity = Get (physics w) entity"

definition GetCollider :: "World \<Rightarrow> Entity \<Rightarrow> error + int option" where
  "GetCollider w entity = Get (colliders w) entity"

definition GetCollisionState :: "World \<Rightarrow> Entity \<Rightarrow> error + int option" where
  "GetCollisionState w entity = Get (collisionStates w) entity"

definition GetPlayer :: "World \<Rightarrow> Entity \<Rightarrow> error + int option" where
  "GetPlayer w entity = Get (players w) entity"

definition RemoveTransform :: "World \<Rightarrow> Entity \<Rightarrow> error + World" where
  "RemoveTransform w entity =
     (case Remove (transforms w) entity of
        Inl err \<Rightarrow> Inl err
      | Inr s \<Rightarrow> Inr (w\<lparr>transforms := s\<rparr>))"

definition RemoveSprite :: "World \<Rightarrow> Entity \<Rightarrow> error + World" where
  "RemoveSprite w entity =
     (case Remove (sprites w) entity of
        Inl err \<Rightarrow> Inl err
      | Inr s \<Rightarrow> Inr (w\<lparr>sprites := s\<rparr>))"

definition RemoveAnimation :: "World \<Rightarrow> Entity \<Rightarrow> error + World" where
  "RemoveAnimation w entity =
     (case Remove (animations w) entity of
        Inl err \<Rightarrow> Inl err
      | Inr s \<Rightarrow> Inr (w\<lparr>animations := s\<rparr>))"

definition RemovePhysics :: "World \<Rightarrow> Entity \<Rightarrow> error + World" where
  "RemovePhysics w entity =
     (case Remove (physics w) entity of
        Inl err \<Rightarrow> Inl err
      | Inr s \<Rightarrow> Inr (w\<lparr>physics := s\<rparr>))"

definition RemoveCollider :: "World \<Rightarrow> Entity \<Rightarrow> error + World" where
  "RemoveCollider w entity =
     (case Remove (colliders w) entity of
        Inl err \<Rightarrow> Inl err
      | Inr s \<Rightarrow> Inr (w\<lparr>colliders := s\<rparr>))"

definition RemoveCollisionState :: "World \<Rightarrow> Entity \<Rightarrow> error + World" where
  "RemoveCollisionState w entity =
     (case Remove (collisionStates w) entity of
        Inl err \<Rightarrow> Inl err
      | Inr s \<Rightarrow> Inr (w\<lparr>collisionStates := s\<rparr>))"

definition RemovePlayer :: "World \<Rightarrow> Entity \<Rightarrow> error + World" where
  "RemovePlayer w entity =
     (case Remove (players w) entity of
        Inl err \<Rightarrow> Inl err
      | Inr s \<Rightarrow> Inr (w\<lparr>players := s\<rparr>))"

definition HasTransform :: "World \<Rightarrow> Entity \<Rightarrow> error + bool" where
  "HasTransform w entity = Has (transforms w) entity"

definition HasSprite :: "World \<Rightarrow> Entity \<Rightarrow> error + bool" where
  "HasSprite w entity = Has (sprites w) entity"

definition HasAnimation :: "World \<Rightarrow> Entity \<Rightarrow> error + bool" where
  "HasAnimation w entity = Has (animations w) entity"

definition HasPhysics :: "World \<Rightarrow> Entity \<Rightarrow> error + bool" where
  "HasPhysics w entity = Has (physics w) entity"

definition HasCollider :: "World \<Rightarrow> Entity \<Rightarrow> error + bool" where
  "HasCollider w entity = Has (colliders w) entity"

definition HasCollisionState :: "World \<Rightarrow> Entity \<Rightarrow> error + bool" where
  "HasCollisionState w entity = Has (collisionStates w) entity"

definition HasPlayer :: "World \<Rightarrow> Entity \<Rightarrow> error + bool" where
  "HasPlayer w entity = Has (players w) entity"

text \<open>\<open>DestroyEntity\<close>: \<open>Remove\<close> on the seven storages, in the order of the source.\<close>

definition DestroyEntity :: "World \<Rightarrow> Entity \<Rightarrow> error + World" where
  "DestroyEntity w entity =
     (case Remove (transforms w) entity of Inl err \<Rightarrow> Inl err | Inr s1 \<Rightarrow>
     (case Remove (sprites w) entity of Inl err \<Rightarrow> Inl err | Inr s2 \<Rightarrow>
     (case Remove (animations w) entity of Inl err \<Rightarrow> Inl err | Inr s3 \<Rightarrow>
     (case Remove (physics w) entity of Inl err \<Rightarrow> Inl err | Inr s4 \<Rightarrow>
     (case Remove (colliders w) entity of Inl err \<Rightarrow> Inl err | Inr s5 \<Rightarrow>
     (case Remove (collisionStates w) entity of Inl err \<Rightarrow> Inl err | Inr s6 \<Rightarrow>
     (case Remove (players w) entity of Inl err \<Rightarrow> Inl err | Inr s7 \<Rightarrow>
        Inr (w\<lparr>transforms := s1, sprites := s2, animations := s3, physics := s4,
               colliders := s5, collisionStates := s6, players := s7\<rparr>))))))))"

text \<open>\<open>CreateEntity\<close> called \<open>n\<close> times in a row: the entities returned, in order, and the registry.\<close>

fun CreateEntity_times :: "nat \<Rightarrow> World \<Rightarrow> Entity list \<times> World" where
  "CreateEntity_times 0 w = ([], w)"
| "CreateEntity_times (Suc n) w =
     (case CreateEntity w of (e, w') \<Rightarrow>
        (case CreateEntity_times n w' of (es, w'') \<Rightarrow> (e # es, w'')))"

text \<open>
  Operation sequences on the registry: entity creation, the per-kind \<open>Add\<close> and \<open>Remove\<close>, and
  \<open>DestroyEntity\<close>, applied from left to right, each \<open>Add\<close> with a component object of the caller's (\<open>Get\<close>
  and \<open>Has\<close> change nothing, a query changes component values only).
\<close>

datatype World_op =
    DoCreateEntity
  | DoAddTransform Entity Transform
  | DoAddSprite Entity Sprite
  | DoAddAnimation Entity Animation
  | DoAddPhysics Entity Physics
  | DoAddCollider Entity Collider
  | DoAddCollisionState Entity CollisionState
  | DoAddPlayer Entity Player
  | DoRemoveTransform Entity
  | DoRemoveSprite Entity
  | DoRemoveAnimation Entity
  | DoRemovePhysics Entity
  | DoRemoveCollider Entity
  | DoRemoveCollisionState Entity
  | DoRemovePlayer Entity
  | DoDestroyEntity Entity

fun World_apply :: "World \<Rightarrow> World_op \<Rightarrow> error + World" where
  "World_apply w DoCreateEntity = Inr (snd (CreateEntity w))"
| "World_apply w (DoAddTransform entity c) = AddTransform w entity (Object c)"
| "World_apply w (DoAddSprite entity c) = AddSprite w entity (Object c)"
| "World_apply w (DoAddAnimation entity c) = AddAnimation w entity (Object c)"
| "World_apply w (DoAddPhysics entity c) = AddPhysics w entity (Object c)"
| "World_apply w (DoAddCollider entity c) = AddCollider w entity (Object c)"
| "World_apply w (DoAddCollisionState entity c) = AddCollisionState w entity (Object c)"
| "World_apply w (DoAddPlayer entity c) = AddPlayer w entity (Object c)"
| "World_apply w (DoRemoveTransform entity) = RemoveTransform w entity"
| "World_apply w (DoRemoveSprite entity) = RemoveSprite w entity"
| "World_apply w (DoRemoveAnimation entity) = RemoveAnimation w entity"
| "World_apply w (DoRemovePhysics entity) = RemovePhysics w entity"
| "World_apply w (DoRemoveCollider entity) = RemoveCollider w entity"
| "World_apply w (DoRemoveCollisionState entity) = RemoveCollisionState w entity"
| "World_apply w (DoRemovePlayer entity) = RemovePlayer w entity"
| "World_apply w (DoDestroyEntity entity) = DestroyEntity w entity"

fun World_run :: "World \<Rightarrow> World_op list \<Rightarrow> error + World" where
  "World_run w [] = Inr w"
| "World_run w (op # ops) =
     (case World_apply w op of Inl err \<Rightarrow> Inl err | Inr w' \<Rightarrow> World_run w' ops)"

section \<open>The query engine\<close>

text \<open>
  A query resolves each kind to its storage (\<open>GetSparseSet<T>()\<close>, the registry's field for
  that kind) and runs a loop over a driving storage. The visitor is caller code: it gets the
  entity and a reference to each of the entity's components, and may write through the
  references. In the model a visitor is a function from the entity and the component values
  to the values it leaves in them; the engine reads the values (\<open>GetData(i)\<close>, \<open>*comp\<close>),
  calls the visitor, and stores what it returns at the places the references point to
  (\<open>SetData\<close>). The kinds of a query are distinct, so the storages are distinct objects and
  the references do not alias.

  What the engine does is also recorded as a log, in execution order: \<open>Probe k e\<close> when it
  calls \<open>Get(e)\<close> on the storage of the \<open>k\<close>-th kind, \<open>Visit e cs\<close> when it calls the visitor on
  entity \<open>e\<close>, where \<open>cs\<close> are the component values the references point to at the call.
\<close>

datatype 'v event = Probe nat Entity | Visit Entity 'v

fun visited :: "'v event list \<Rightarrow> Entity list" where
  "visited [] = []"
| "visited (Probe k e # evs) = visited evs"
| "visited (Visit e cs # evs) = e # visited evs"

fun probed :: "'v event list \<Rightarrow> (nat \<times> Entity) list" where
  "probed [] = []"
| "probed (Probe k e # evs) = (k, e) # probed evs"
| "probed (Visit e cs # evs) = probed evs"

text \<open>
  Two kinds: the branch that iterates \<open>set1\<close> and probes \<open>set2\<close>, the branch that iterates
  \<open>set2\<close> and probes \<open>set1\<close>, and the choice \<open>set1->Count() <= set2->Count()\<close> between them.
\<close>

function Query2_first ::
  "(Entity \<Rightarrow> 'a \<Rightarrow> 'b \<Rightarrow> 'a \<times> 'b) \<Rightarrow> 'a SparseSet \<Rightarrow> 'b SparseSet \<Rightarrow> int \<Rightarrow>
     ('a \<times> 'b) event list \<Rightarrow>
     error + ('a SparseSet \<times> 'b SparseSet \<times> ('a \<times> 'b) event list)" where
  "Query2_first func set1 set2 i log =
     (if i < Count set1 then
        (case GetEntity set1 i of Inl err \<Rightarrow> Inl err | Inr entity \<Rightarrow>
        (case Get set2 entity of Inl err \<Rightarrow> Inl err | Inr comp2 \<Rightarrow>
          (if comp2 \<noteq> None then
             (case GetData set1 i of Inl err \<Rightarrow> Inl err | Inr c1 \<Rightarrow>
             (case GetData set2 (the comp2) of Inl err \<Rightarrow> Inl err | Inr c2 \<Rightarrow>
             (case func entity c1 c2 of (c1', c2') \<Rightarrow>
             (case SetData set1 i c1' of Inl err \<Rightarrow> Inl err | Inr set1' \<Rightarrow>
             (case SetData set2 (the comp2) c2' of Inl err \<Rightarrow> Inl err | Inr set2' \<Rightarrow>
                Query2_first func set1' set2' (i + 1)
                  (log @ [Probe 2 entity,
                          Visit entity (c1, c2)]))))))
           else Query2_first func set1 set2 (i + 1)
                  (log @ [Probe 2 entity]))))
      else Inr (set1, set2, log))"
  by pat_completeness auto
termination
  by (relation "measure (\<lambda>(func, set1, set2, i, log). nat (Count set1 - i))")
    (auto simp add: SetData_def Count_def split: sum.splits)

function Query2_second ::
  "(Entity \<Rightarrow> 'a \<Rightarrow> 'b \<Rightarrow> 'a \<times> 'b) \<Rightarrow> 'a SparseSet \<Rightarrow> 'b SparseSet \<Rightarrow> int \<Rightarrow>
     ('a \<times> 'b) event list \<Rightarrow>
     error + ('a SparseSet \<times> 'b SparseSet \<times> ('a \<times> 'b) event list)" where
  "Query2_second func set1 set2 i log =
     (if i < Count set2 then
        (case GetEntity set2 i of Inl err \<Rightarrow> Inl err | Inr entity \<Rightarrow>
        (case Get set1 entity of Inl err \<Rightarrow> Inl err | Inr comp1 \<Rightarrow>
          (if comp1 \<noteq> None then
             (case GetData set1 (the comp1) of Inl err \<Rightarrow> Inl err | Inr c1 \<Rightarrow>
             (case GetData set2 i of Inl err \<Rightarrow> Inl err | Inr c2 \<Rightarrow>
             (case func entity c1 c2 of (c1', c2') \<Rightarrow>
             (case SetData set1 (the comp1) c1' of Inl err \<Rightarrow> Inl err | Inr set1' \<Rightarrow>
             (case SetData set2 i c2' of Inl err \<Rightarrow> Inl err | Inr set2' \<Rightarrow>
                Query2_second func set1' set2' (i + 1)
                  (log @ [Probe 1 entity,
                          Visit entity (c1, c2)]))))))
           else Query2_second func set1 set2 (i + 1)
                  (log @ [Probe 1 entity]))))
      else Inr (set1, set2, log))"
  by pat_completeness auto
termination
  by (relation "measure (\<lambda>(func, set1, set2, i, log). nat (Count set2 - i))")
    (auto simp add: SetData_def Count_def split: sum.splits)

definition Query2 ::
  "(Entity \<Rightarrow> 'a \<Rightarrow> 'b \<Rightarrow> 'a \<times> 'b) \<Rightarrow> 'a SparseSet \<Rightarrow> 'b SparseSet \<Rightarrow>
     error + ('a SparseSet \<times> 'b SparseSet \<times> ('a \<times> 'b) event list)" where
  "Query2 func set1 set2 =
     (if Count set1 \<le> Count set2 then Query2_first func set1 set2 0 []
      else Query2_second func set1 set2 0 [])"

text \<open>
  Three to six kinds: one loop over \<open>set1\<close>; in each round every \<open>Get\<close> is called, in the order
  of the kinds, and then the test \<open>comp2 && ... && compn\<close> decides on the visitor call.
\<close>

function Query3_loop ::
  "(Entity \<Rightarrow> 'a \<Rightarrow> 'b \<Rightarrow> 'c \<Rightarrow> 'a \<times> 'b \<times> 'c) \<Rightarrow> 'a SparseSet \<Rightarrow> 'b SparseSet \<Rightarrow> 'c SparseSet \<Rightarrow> int \<Rightarrow>
     ('a \<times> 'b \<times> 'c) event list \<Rightarrow>
     error + ('a SparseSet \<times> 'b SparseSet \<times> 'c SparseSet \<times> ('a \<times> 'b \<times> 'c) event list)" where
  "Query3_loop func set1 set2 set3 i log =
     (if i < Count set1 then
        (case GetEntity set1 i of Inl err \<Rightarrow> Inl err | Inr entity \<Rightarrow>
        (case Get set2 entity of Inl err \<Rightarrow> Inl err | Inr comp2 \<Rightarrow>
        (case Get set3 entity of Inl err \<Rightarrow> Inl err | Inr comp3 \<Rightarrow>
          (if comp2 \<noteq> None \<and> comp3 \<noteq> None then
             (case GetData set1 i of Inl err \<Rightarrow> Inl err | Inr c1 \<Rightarrow>
             (case GetData set2 (the comp2) of Inl err \<Rightarrow> Inl err | Inr c2 \<Rightarrow>
             (case GetData set3 (the comp3) of Inl err \<Rightarrow> Inl err | Inr c3 \<Rightarrow>
             (case func entity c1 c2 c3 of (c1', c2', c3') \<Rightarrow>
             (case SetData set1 i c1' of Inl err \<Rightarrow> Inl err | Inr set1' \<Rightarrow>
             (case SetData set2 (the comp2) c2' of Inl err \<Rightarrow> Inl err | Inr set2' \<Rightarrow>
             (case SetData set3 (the comp3) c3' of Inl err \<Rightarrow> Inl err | Inr set3' \<Rightarrow>
                Query3_loop func set1' set2' set3' (i + 1)
                  (log @ [Probe 2 entity, Probe 3 entity,
                          Visit entity (c1, c2, c3)]))))))))
           else Query3_loop func set1 set2 set3 (i + 1)
                  (log @ [Probe 2 entity, Probe 3 entity])))))
      else Inr (set1, set2, set3, log))"
  by pat_completeness auto
termination
  by (relation "measure (\<lambda>(func, set1, set2, set3, i, log). nat (Count set1 - i))")
    (auto simp add: SetData_def Count_def split: sum.splits)

definition Query3 ::
  "(Entity \<Rightarrow> 'a \<Rightarrow> 'b \<Rightarrow> 'c \<Rightarrow> 'a \<times> 'b \<times> 'c) \<Rightarrow> 'a SparseSet \<Rightarrow> 'b SparseSet \<Rightarrow> 'c SparseSet \<Rightarrow>
     error + ('a SparseSet \<times> 'b SparseSet \<times> 'c SparseSet \<times> ('a \<times> 'b \<times> 'c) event list)" where
  "Query3 func set1 set2 set3 = Query3_loop func set1 set2 set3 0 []"

function Query4_loop ::
  "(Entity \<Rightarrow> 'a \<Rightarrow> 'b \<Rightarrow> 'c \<Rightarrow> 'd \<Rightarrow> 'a \<times> 'b \<times> 'c \<times> 'd) \<Rightarrow> 'a SparseSet \<Rightarrow> 'b SparseSet \<Rightarrow> 'c SparseSet \<Rightarrow> 'd SparseSet \<Rightarrow> int \<Rightarrow>
     ('a \<times> 'b \<times> 'c \<times> 'd) event list \<Rightarrow>
     error + ('a SparseSet \<times> 'b SparseSet \<times> 'c SparseSet \<times> 'd SparseSet \<times> ('a \<times> 'b \<times> 'c \<times> 'd) event list)" where
  "Query4_loop func set1 set2 set3 set4 i log =
     (if i < Count set1 then
        (case GetEntity set1 i of Inl err \<Rightarrow> Inl err | Inr entity \<Rightarrow>
        (case Get set2 entity of Inl err \<Rightarrow> Inl err | Inr comp2 \<Rightarrow>
        (case Get set3 entity of Inl err \<Rightarrow> Inl err | Inr comp3 \<Rightarrow>
        (case Get set4 entity of Inl err \<Rightarrow> Inl err | Inr comp4 \<Rightarrow>
          (if comp2 \<noteq> None \<and> comp3 \<noteq> None \<and> comp4 \<noteq> None then
             (case GetData set1 i of Inl err \<Rightarrow> Inl err | Inr c1 \<Rightarrow>
             (case GetData set2 (the comp2) of Inl err \<Rightarrow> Inl err | Inr c2 \<Rightarrow>
             (case GetData set3 (the comp3) of Inl err \<Rightarrow> Inl err | Inr c3 \<Rightarrow>
             (case GetData set4 (the comp4) of Inl err \<Rightarrow> Inl err | Inr c4 \<Rightarrow>
             (case func entity c1 c2 c3 c4 of (c1', c2', c3', c4') \<Rightarrow>
             (case SetData set1 i c1' of Inl err \<Rightarrow> Inl err | Inr set1' \<Rightarrow>
             (case SetData set2 (the comp2) c2' of Inl err \<Rightarrow> Inl err | Inr set2' \<Rightarrow>
             (case SetData set3 (the comp3) c3' of Inl err \<Rightarrow> Inl err | Inr set3' \<Rightarrow>
             (case SetData set4 (the comp4) c4' of Inl err \<Rightarrow> Inl err | Inr set4' \<Rightarrow>
                Query4_loop func set1' set2' set3' set4' (i + 1)
                  (log @ [Probe 2 entity, Probe 3 entity, Probe 4 entity,
                          Visit entity (c1, c2, c3, c4)]))))))))))
           else Query4_loop func set1 set2 set3 set4 (i + 1)
                  (log @ [Probe 2 entity, Probe 3 entity, Probe 4 entity]))))))
      else Inr (set1, set2, set3, set4, log))"
  by pat_completeness auto
termination
  by (relation "measure (\<lambda>(func, set1, set2, set3, set4, i, log). nat (Count set1 - i))")
    (auto simp add: SetData_def Count_def split: sum.splits)

definition Query4 ::
  "(Entity \<Rightarrow> 'a \<Rightarrow> 'b \<Rightarrow> 'c \<Rightarrow> 'd \<Rightarrow> 'a \<times> 'b \<times> 'c \<times> 'd) \<Rightarrow> 'a SparseSet \<Rightarrow> 'b SparseSet \<Rightarrow> 'c SparseSet \<Rightarrow> 'd SparseSet \<Rightarrow>
     error + ('a SparseSet \<times> 'b SparseSet \<times> 'c SparseSet \<times> 'd SparseSet \<times> ('a \<times> 'b \<times> 'c \<times> 'd) event list)" where
  "Query4 func set1 set2 set3 set4 = Query4_loop func set1 set2 set3 set4 0 []"

function Query5_loop ::
  "(Entity \<Rightarrow> 'a \<Rightarrow> 'b \<Rightarrow> 'c \<Rightarrow> 'd \<Rightarrow> 'e \<Rightarrow> 'a \<times> 'b \<times> 'c \<times> 'd \<times> 'e) \<Rightarrow> 'a SparseSet \<Rightarrow> 'b SparseSet \<Rightarrow> 'c SparseSet \<Rightarrow> 'd SparseSet \<Rightarrow> 'e SparseSet \<Rightarrow> int \<Rightarrow>
     ('a \<times> 'b \<times> 'c \<times> 'd \<times> 'e) event list \<Rightarrow>
     error + ('a SparseSet \<times> 'b SparseSet \<times> 'c SparseSet \<times> 'd SparseSet \<times> 'e SparseSet \<times> ('a \<times> 'b \<times> 'c \<times> 'd \<times> 'e) event list)" where
  "Query5_loop func set1 set2 set3 set4 set5 i log =
     (if i < Count set1 then
        (case GetEntity set1 i of Inl err \<Rightarrow> Inl err | Inr entity \<Rightarrow>
        (case Get set2 entity of Inl err \<Rightarrow> Inl err | Inr comp2 \<Rightarrow>
        (case Get set3 entity of Inl err \<Rightarrow> Inl err | Inr comp3 \<Rightarrow>
        (case Get set4 entity of Inl err \<Rightarrow> Inl err | Inr comp4 \<Rightarrow>
        (case Get set5 entity of Inl err \<Rightarrow> Inl err | Inr comp5 \<Rightarrow>
          (if comp2 \<noteq> None \<and> comp3 \<noteq> None \<and> comp4 \<noteq> None \<and> comp5 \<noteq> None then
             (case GetData set1 i of Inl err \<Rightarrow> Inl err | Inr c1 \<Rightarrow>
             (case GetData set2 (the comp2) of Inl err \<Rightarrow> Inl err | Inr c2 \<Rightarrow>
             (case GetData set3 (the comp3) of Inl err \<Rightarrow> Inl err | Inr c3 \<Rightarrow>
             (case GetData set4 (the comp4) of Inl err \<Rightarrow> Inl err | Inr c4 \<Rightarrow>
             (case GetData set5 (the comp5) of Inl err \<Rightarrow> Inl err | Inr c5 \<Rightarrow>
             (case func entity c1 c2 c3 c4 c5 of (c1', c2', c3', c4', c5') \<Rightarrow>
             (case SetData set1 i c1' of Inl err \<Rightarrow> Inl err | Inr set1' \<Rightarrow>
             (case SetData set2 (the comp2) c2' of Inl err \<Rightarrow> Inl err | Inr set2' \<Rightarrow>
             (case SetData set3 (the comp3) c3' of Inl err \<Rightarrow> Inl err | Inr set3' \<Rightarrow>
             (case SetData set4 (the comp4) c4' of Inl err \<Rightarrow> Inl err | Inr set4' \<Rightarrow>
             (case SetData set5 (the comp5) c5' of Inl err \<Rightarrow> Inl err | Inr set5' \<Rightarrow>
                Query5_loop func set1' set2' set3' set4' set5' (i + 1)
                  (log @ [Probe 2 entity, Probe 3 entity, Probe 4 entity, Probe 5 entity,
                          Visit entity (c1, c2, c3, c4, c5)]))))))))))))
           else Query5_loop func set1 set2 set3 set4 set5 (i + 1)
                  (log @ [Probe 2 entity, Probe 3 entity, Probe 4 entity, Probe 5 entity])))))))
      else Inr (set1, set2, set3, set4, set5, log))"
  by pat_completeness auto
termination
  by (relation "measure (\<lambda>(func, set1, set2, set3, set4, set5, i, log). nat (Count set1 - i))")
    (auto simp add: SetData_def Count_def split: sum.splits)

definition Query5 ::
  "(Entity \<Rightarrow> 'a \<Rightarrow> 'b \<Rightarrow> 'c \<Rightarrow> 'd \<Rightarrow> 'e \<Rightarrow> 'a \<times> 'b \<times> 'c \<times> 'd \<times> 'e) \<Rightarrow> 'a SparseSet \<Rightarrow> 'b SparseSet \<Rightarrow> 'c SparseSet \<Rightarrow> 'd SparseSet \<Rightarrow> 'e SparseSet \<Rightarrow>
     error + ('a SparseSet \<times> 'b SparseSet \<times> 'c SparseSet \<times> 'd SparseSet \<times> 'e SparseSet \<times> ('a \<times> 'b \<times> 'c \<times> 'd \<times> 'e) event list)" where
  "Query5 func set1 set2 set3 set4 set5 = Query5_loop func set1 set2 set3 set4 set5 0 []"

function Query6_loop ::
  "(Entity \<Rightarrow> 'a \<Rightarrow> 'b \<Rightarrow> 'c \<Rightarrow> 'd \<Rightarrow> 'e \<Rightarrow> 'f \<Rightarrow> 'a \<times> 'b \<times> 'c \<times> 'd \<times> 'e \<times> 'f) \<Rightarrow> 'a SparseSet \<Rightarrow> 'b SparseSet \<Rightarrow> 'c SparseSet \<Rightarrow> 'd SparseSet \<Rightarrow> 'e SparseSet \<Rightarrow> 'f SparseSet \<Rightarrow> int \<Rightarrow>
     ('a \<times> 'b \<times> 'c \<times> 'd \<times> 'e \<times> 'f) event list \<Rightarrow>
     error + ('a SparseSet \<times> 'b SparseSet \<times> 'c SparseSet \<times> 'd SparseSet \<times> 'e SparseSet \<times> 'f SparseSet \<times> ('a \<times> 'b \<times> 'c \<times> 'd \<times> 'e \<times> 'f) event list)" where
  "Query6_loop func set1 set2 set3 set4 set5 set6 i log =
     (if i < Count set1 then
        (case GetEntity set1 i of Inl err \<Rightarrow> Inl err | Inr entity \<Rightarrow>
        (case Get set2 entity of Inl err \<Rightarrow> Inl err | Inr comp2 \<Rightarrow>
        (case Get set3 entity of Inl err \<Rightarrow> Inl err | Inr comp3 \<Rightarrow>
        (case Get set4 entity of Inl err \<Rightarrow> Inl err | Inr comp4 \<Rightarrow>
        (case Get set5 entity of Inl err \<Rightarrow> Inl err | Inr comp5 \<Rightarrow>
        (case Get set6 entity of Inl err \<Rightarrow> Inl err | Inr comp6 \<Rightarrow>
          (if comp2 \<noteq> None \<and> comp3 \<noteq> None \<and> comp4 \<noteq> None \<and> comp5 \<noteq> None \<and> comp6 \<noteq> None then
             (case GetData set1 i of Inl err \<Rightarrow> Inl err | Inr c1 \<Rightarrow>
             (case GetData set2 (the comp2) of Inl err \<Rightarrow> Inl err | Inr c2 \<Rightarrow>
             (case GetData set3 (the comp3) of Inl err \<Rightarrow> Inl err | Inr c3 \<Rightarrow>
             (case GetData set4 (the comp4) of Inl err \<Rightarrow> Inl err | Inr c4 \<Rightarrow>
             (case GetData set5 (the comp5) of Inl err \<Rightarrow> Inl err | Inr c5 \<Rightarrow>
             (case GetData set6 (the comp6) of Inl err \<Rightarrow> Inl err | Inr c6 \<Rightarrow>
             (case func entity c1 c2 c3 c4 c5 c6 of (c1', c2', c3', c4', c5', c6') \<Rightarrow>
             (case SetData set1 i c1' of Inl err \<Rightarrow> Inl err | Inr set1' \<Rightarrow>
             (case SetData set2 (the comp2) c2' of Inl err \<Rightarrow> Inl err | Inr set2' \<Rightarrow>
             (case SetData set3 (the comp3) c3' of Inl err \<Rightarrow> Inl err | Inr set3' \<Rightarrow>
             (case SetData set4 (the comp4) c4' of Inl err \<Rightarrow> Inl err | Inr set4' \<Rightarrow>
             (case SetData set5 (the comp5) c5' of Inl err \<Rightarrow> Inl err | Inr set5' \<Rightarrow>
             (case SetData set6 (the comp6) c6' of Inl err \<Rightarrow> Inl err | Inr set6' \<Rightarrow>
                Query6_loop func set1' set2' set3' set4' set5' set6' (i + 1)
                  (log @ [Probe 2 entity, Probe 3 entity, Probe 4 entity, Probe 5 entity, Probe 6 entity,
                          Visit entity (c1, c2, c3, c4, c5, c6)]))))))))))))))
           else Query6_loop func set1 set2 set3 set4 set5 set6 (i + 1)
                  (log @ [Probe 2 entity, Probe 3 entity, Probe 4 entity, Probe 5 entity, Probe 6 entity]))))))))
      else Inr (set1, set2, set3, set4, set5, set6, log))"
  by pat_completeness auto
termination
  by (relation "measure (\<lambda>(func, set1, set2, set3, set4, set5, set6, i, log). nat (Count set1 - i))")
    (auto simp add: SetData_def Count_def split: sum.splits)

definition Query6 ::
  "(Entity \<Rightarrow> 'a \<Rightarrow> 'b \<Rightarrow> 'c \<Rightarrow> 'd \<Rightarrow> 'e \<Rightarrow> 'f \<Rightarrow> 'a \<times> 'b \<times> 'c \<times> 'd \<times> 'e \<times> 'f) \<Rightarrow> 'a SparseSet \<Rightarrow> 'b SparseSet \<Rightarrow> 'c SparseSet \<Rightarrow> 'd SparseSet \<Rightarrow> 'e SparseSet \<Rightarrow> 'f SparseSet \<Rightarrow>
     error + ('a SparseSet \<times> 'b SparseSet \<times> 'c SparseSet \<times> 'd SparseSet \<times> 'e SparseSet \<times> 'f SparseSet \<times> ('a \<times> 'b \<times> 'c \<times> 'd \<times> 'e \<times> 'f) event list)" where
  "Query6 func set1 set2 set3 set4 set5 set6 = Query6_loop func set1 set2 set3 set4 set5 set6 0 []"

text \<open>
  Visitors used as examples. A visitor gets references and writes through them; these are
  \<^verbatim>\<open>t.rotation = p.health; p.health = p.speed;\<close> for two kinds, the same with
  \<^verbatim>\<open>s.width = s.height;\<close> for three, and visitors of four, five and six kinds that assign fixed
  values to all their references.
\<close>

fun copy_fields2 :: "Entity \<Rightarrow> Transform \<Rightarrow> Player \<Rightarrow> Transform \<times> Player" where
  "copy_fields2 entity (Transform position rotation scale) (Player health speed) =
     (Transform position health scale, Player speed speed)"

fun copy_fields3 ::
  "Entity \<Rightarrow> Transform \<Rightarrow> Player \<Rightarrow> Sprite \<Rightarrow> Transform \<times> Player \<times> Sprite" where
  "copy_fields3 entity (Transform position rotation scale) (Player health speed)
       (Sprite texture color width height) =
     (Transform position health scale, Player speed speed, Sprite texture color height height)"

definition assign4 :: "'a \<Rightarrow> 'b \<Rightarrow> 'c \<Rightarrow> 'd \<Rightarrow> Entity \<Rightarrow> 'a \<Rightarrow> 'b \<Rightarrow> 'c \<Rightarrow> 'd \<Rightarrow> 'a \<times> 'b \<times> 'c \<times> 'd" where
  "assign4 v1 v2 v3 v4 entity c1 c2 c3 c4 = (v1, v2, v3, v4)"

definition assign5 :: "'a \<Rightarrow> 'b \<Rightarrow> 'c \<Rightarrow> 'd \<Rightarrow> 'e \<Rightarrow> Entity \<Rightarrow> 'a \<Rightarrow> 'b \<Rightarrow> 'c \<Rightarrow> 'd \<Rightarrow> 'e \<Rightarrow> 'a \<times> 'b \<times> 'c \<times> 'd \<times> 'e" where
  "assign5 v1 v2 v3 v4 v5 entity c1 c2 c3 c4 c5 = (v1, v2, v3, v4, v5)"

definition assign6 :: "'a \<Rightarrow> 'b \<Rightarrow> 'c \<Rightarrow> 'd \<Rightarrow> 'e \<Rightarrow> 'f \<Rightarrow> Entity \<Rightarrow> 'a \<Rightarrow> 'b \<Rightarrow> 'c \<Rightarrow> 'd \<Rightarrow> 'e \<Rightarrow> 'f \<Rightarrow> 'a \<times> 'b \<times> 'c \<times> 'd \<times> 'e \<times> 'f" where
  "assign6 v1 v2 v3 v4 v5 v6 entity c1 c2 c3 c4 c5 c6 = (v1, v2, v3, v4, v5, v6)"

text \<open>The registry's storages all satisfy the representation invariant.\<close>

definition World_inv :: "World \<Rightarrow> bool" where
  "World_inv w \<longleftrightarrow>
     SparseSet_inv (transforms w) \<and> SparseSet_inv (sprites w) \<and>
     SparseSet_inv (animations w) \<and> SparseSet_inv (physics w) \<and>
     SparseSet_inv (colliders w) \<and> SparseSet_inv (collisionStates w) \<and>
     SparseSet_inv (players w)"

subsection \<open>Notions used to describe a query's log\<close>

text \<open>The pointer \<open>Get\<close> returns, read off the arrays: the position \<open>sparse[e]\<close>, or \<open>nullptr\<close>.\<close>

definition ptr :: "'a SparseSet \<Rightarrow> Entity \<Rightarrow> int option" where
  "ptr s e = (if present s e then Some (uint (sparse s ! unat e)) else None)"

text \<open>
  Two states of a storage that differ in component values only: the same members at the
  same positions, the same sizes.
\<close>

definition same_members :: "'a SparseSet \<Rightarrow> 'a SparseSet \<Rightarrow> bool" where
  "same_members s s' \<longleftrightarrow>
     sparse s' = sparse s \<and> dense s' = dense s \<and> count s' = count s \<and>
     capacity s' = capacity s \<and> length (data s') = length (data s)"

text \<open>
  \<open>s'\<close> is \<open>s\<close> after visits of the entities of \<open>es\<close> that satisfy \<open>P\<close>, where the visit of \<open>e\<close>
  leaves \<open>new e\<close> in the component of \<open>e\<close>: the same members, \<open>new e\<close> for the visited
  entities, the old value for every other one.
\<close>

definition written ::
  "Entity list \<Rightarrow> (Entity \<Rightarrow> bool) \<Rightarrow> (Entity \<Rightarrow> 'a) \<Rightarrow> 'a SparseSet \<Rightarrow> 'a SparseSet \<Rightarrow> bool" where
  "written es P new s s' \<longleftrightarrow>
     same_members s s' \<and>
     (\<forall>e. lookup s' e = (if e \<in> set es \<and> P e then Some (new e) else lookup s e))"

text \<open>
  One round of a loop on entity \<open>e\<close>: the probes of the kinds \<open>ks\<close>, in order, and then the
  visitor call when \<open>P e\<close> holds.
\<close>

definition round_events :: "nat list \<Rightarrow> (Entity \<Rightarrow> bool) \<Rightarrow> (Entity \<Rightarrow> 'v) \<Rightarrow> Entity \<Rightarrow> 'v event list" where
  "round_events ks P val e = map (\<lambda>k. Probe k e) ks @ (if P e then [Visit e (val e)] else [])"

abbreviation round2_first :: "'a SparseSet \<Rightarrow> 'b SparseSet \<Rightarrow> Entity \<Rightarrow> ('a \<times> 'b) event list" where
  "round2_first s1 s2 \<equiv>
     round_events [2] (present s2) (\<lambda>e. (the (lookup s1 e), the (lookup s2 e)))"

abbreviation round2_second :: "'a SparseSet \<Rightarrow> 'b SparseSet \<Rightarrow> Entity \<Rightarrow> ('a \<times> 'b) event list" where
  "round2_second s1 s2 \<equiv>
     round_events [1] (present s1) (\<lambda>e. (the (lookup s1 e), the (lookup s2 e)))"

section \<open>Conversions and array accesses\<close>

lemma sint_uint32: "uint w < 65536 \<Longrightarrow> sint (w :: 32 word) = uint w"
proof -
  assume u: "uint w < 65536"
  have "uint w < 2 ^ 31" using u by simp
  moreover have "- (2 ^ 31) \<le> uint w" by (rule order_trans[of _ 0]) simp_all
  ultimately have "signed_take_bit 31 (uint w) = uint w"
    by (rule signed_take_bit_int_eq_self[rotated])
  then show ?thesis by (simp add: sint_uint)
qed

lemma uint_word_of_int32: "0 \<le> c \<Longrightarrow> c < 65536 \<Longrightarrow> uint (word_of_int c :: 32 word) = c"
  by (simp add: uint_word_of_int take_bit_int_eq_self)

lemma unat_less_uint: "unat (w::32 word) < n \<longleftrightarrow> uint w < int n" 
  using of_nat_less_iff[of "unat w" n, where 'a=int] by simp

lemma uint_INVALID_INDEX: "uint INVALID_INDEX = 10001"
  by (simp add: INVALID_INDEX_def MAX_ENTITIES_def)

lemma Array_get_ok: "0 \<le> i \<Longrightarrow> i < int (length xs) \<Longrightarrow> Array_get xs i = Inr (xs ! nat i)"
  by (simp add: Array_get_def)

lemma Array_set_ok: "0 \<le> i \<Longrightarrow> i < int (length xs) \<Longrightarrow> Array_set xs i v = Inr (xs[nat i := v])"
  by (simp add: Array_set_def)

lemma Has_invalid: "word_of_int MAX_ENTITIES \<le> e \<Longrightarrow> Has s e = Inr False"
  by (simp add: Has_def)

lemma entity_range: "(word_of_int MAX_ENTITIES \<le> (e::Entity)) \<longleftrightarrow> \<not> uint e < MAX_ENTITIES"
  by (auto simp add: word_le_def MAX_ENTITIES_def)

lemma sparse_read:
  assumes "SparseSet_inv s" "uint (e::Entity) < MAX_ENTITIES"
  shows "Array_get (sparse s) (sint e) = Inr (sparse s ! unat e)"
proof -
  have "uint e < 65536" using assms(2) by (simp add: MAX_ENTITIES_def)
  then have "sint e = uint e" by (rule sint_uint32)
  moreover have "uint e < int (length (sparse s))" using assms by (simp add: SparseSet_inv_def)
  ultimately show ?thesis by (simp add: Array_get_ok)
qed

lemma Has_inv:
  assumes inv: "SparseSet_inv s"
  shows "Has s e = Inr (present s e)"
proof (cases "uint e < MAX_ENTITIES")
  case False
  then show ?thesis by (simp add: Has_def entity_range present_def)
next
  case True
  let ?ix = "sparse s ! unat e"
  have cnt: "0 \<le> count s" "count s \<le> 10000" "int (length (dense s)) = capacity s" "count s \<le> capacity s"
    using inv by (simp_all add: SparseSet_inv_def MAX_ENTITIES_def)
  have wc: "uint (word_of_int (count s) :: 32 word) = count s"
    by (rule uint_word_of_int32) (use cnt in simp_all)
  show ?thesis
  proof (cases "?ix = INVALID_INDEX")
    case True
    have "\<not> ?ix < word_of_int (count s)"
      using True cnt wc by (simp add: word_less_def uint_INVALID_INDEX)
    then show ?thesis
      using \<open>uint e < MAX_ENTITIES\<close> True
      by (simp add: Has_def entity_range present_def sparse_read[OF inv])
  next
    case False
    have a: "uint ?ix < count s" "dense s ! unat ?ix = e"
      using inv True False by (simp_all add: SparseSet_inv_def)
    have lt: "?ix < word_of_int (count s)" using a wc by (simp add: word_less_def)
    have "uint ?ix < 65536" using a cnt by simp
    then have "sint ?ix = uint ?ix" by (rule sint_uint32)
    then have "Array_get (dense s) (sint ?ix) = Inr e"
      using a cnt by (simp add: Array_get_ok)
    then show ?thesis
      using \<open>uint e < MAX_ENTITIES\<close> False lt
      by (simp add: Has_def entity_range present_def sparse_read[OF inv])
  qed
qed


lemma fill_foldl:
  "n \<le> length xs \<Longrightarrow> foldl (\<lambda>sp i. sp[i := v]) xs [0 ..< n] = replicate n v @ drop n xs"
proof (induction n)
  case 0
  then show ?case by simp
next
  case (Suc n)
  then have n: "n < length xs" by simp
  have "(replicate n v @ drop n xs)[n := v] = replicate n v @ (drop n xs)[0 := v]"
    by (simp add: list_update_append)
  also have "(drop n xs)[0 := v] = v # drop (Suc n) xs"
    using n by (simp add: Cons_nth_drop_Suc[symmetric])
  finally show ?case using Suc n by (simp add: replicate_append_same)
qed

lemma SparseSet_new_eq:
  "SparseSet_new = \<lparr>sparse = replicate 10000 INVALID_INDEX, dense = [], data = [],
                     count = 0, capacity = 0\<rparr>"
  by (simp add: SparseSet_new_def Array_new_def MAX_ENTITIES_def fill_foldl)

lemma SparseSet_inv_new: "SparseSet_inv SparseSet_new"
proof -
  have "unat e < 10000" if "uint e < 10000" for e :: Entity
    using that by (simp add: unat_less_uint)
  then show ?thesis
    by (simp add: SparseSet_new_eq SparseSet_inv_def MAX_ENTITIES_def)
qed

lemma present_new: "\<not> present SparseSet_new e"
proof -
  have "unat e < 10000" if "uint e < 10000"
    using that by (simp add: unat_less_uint)
  then show ?thesis
    by (auto simp add: SparseSet_new_eq present_def MAX_ENTITIES_def)
qed

lemma slot_bounds:
  assumes "SparseSet_inv s" "present s e"
  shows "0 \<le> uint (sparse s ! unat e)" "uint (sparse s ! unat e) < count s"
    "uint (sparse s ! unat e) < capacity s"
    "sint (sparse s ! unat e) = uint (sparse s ! unat e)"
    "dense s ! unat (sparse s ! unat e) = e"
    "unat (sparse s ! unat e) < length (data s)"
    "unat (sparse s ! unat e) < length (dense s)"
proof -
  let ?ix = "sparse s ! unat e"
  have a: "uint ?ix < count s" "dense s ! unat ?ix = e"
    using assms by (simp_all add: SparseSet_inv_def present_def)
  have c: "count s \<le> capacity s" "count s \<le> 10000" "int (length (data s)) = capacity s"
    "int (length (dense s)) = capacity s"
    using assms by (simp_all add: SparseSet_inv_def MAX_ENTITIES_def)
  show "0 \<le> uint ?ix" by simp
  show "uint ?ix < count s" by (rule a)
  show "uint ?ix < capacity s" using a c by simp
  have "uint ?ix < 65536" using a c by simp
  then show "sint ?ix = uint ?ix" by (rule sint_uint32)
  show "dense s ! unat ?ix = e" by (rule a)
  show "unat ?ix < length (data s)" using a c by (simp add: unat_less_uint)
  show "unat ?ix < length (dense s)" using a c by (simp add: unat_less_uint)
qed

lemma Get_inv:
  assumes inv: "SparseSet_inv s"
  shows "Get s e = Inr (if present s e then Some (uint (sparse s ! unat e)) else None)"
proof (cases "present s e")
  case False
  then show ?thesis by (simp add: Get_def Has_inv[OF inv])
next
  case True
  note b = slot_bounds[OF inv True]
  have r: "uint e < MAX_ENTITIES" using True by (simp add: present_def)
  have "int (length (data s)) = capacity s" using inv by (simp add: SparseSet_inv_def)
  then have "Array_get (data s) (uint (sparse s ! unat e)) = Inr (data s ! unat (sparse s ! unat e))"
    using b by (simp add: Array_get_ok)
  then show ?thesis
    using True b by (simp add: Get_def Has_inv[OF inv] sparse_read[OF inv r])
qed

lemma Get_value_inv:
  assumes inv: "SparseSet_inv s"
  shows "Get_value s e = Inr (lookup s e)"
proof (cases "present s e")
  case False
  then show ?thesis by (simp add: Get_value_def Get_inv[OF inv] lookup_def)
next
  case True
  note b = slot_bounds[OF inv True]
  have "int (length (data s)) = capacity s" using inv by (simp add: SparseSet_inv_def)
  then have "Array_get (data s) (uint (sparse s ! unat e)) = Inr (data s ! unat (sparse s ! unat e))"
    using b by (simp add: Array_get_ok)
  then show ?thesis
    using True by (simp add: Get_value_def Get_inv[OF inv] lookup_def GetData_def)
qed

lemma Has_lookup: "SparseSet_inv s \<Longrightarrow> Has s e = Inr (lookup s e \<noteq> None)"
  by (simp add: Has_inv lookup_def)

section \<open>The representation invariant is preserved\<close>

subsection \<open>Basic consequences, growth\<close>

declare Grow_copy.simps [simp del] Clear_loop.simps [simp del]

lemma slot_inj:
  assumes "SparseSet_inv s" "present s e1" "present s e2"
    "sparse s ! unat e1 = sparse s ! unat e2"
  shows "e1 = e2"
  by (metis slot_bounds(5)[OF assms(1,2)] slot_bounds(5)[OF assms(1,3)] assms(4))

lemma dense_present:
  assumes inv: "SparseSet_inv s" and i: "0 \<le> i" "i < count s"
  shows "present s (dense s ! nat i)" "uint (sparse s ! unat (dense s ! nat i)) = i"
proof -
  have a: "uint (dense s ! nat i) < MAX_ENTITIES" "uint (sparse s ! unat (dense s ! nat i)) = i"
    and c: "count s \<le> 10000"
    using inv i by (simp_all add: SparseSet_inv_def MAX_ENTITIES_def)
  show "uint (sparse s ! unat (dense s ! nat i)) = i" by (rule a)
  have "uint (sparse s ! unat (dense s ! nat i)) \<noteq> uint INVALID_INDEX"
    using a i c by (simp add: uint_INVALID_INDEX)
  then have "sparse s ! unat (dense s ! nat i) \<noteq> INVALID_INDEX" by auto
  then show "present s (dense s ! nat i)" using a by (simp add: present_def)
qed

lemma count_less:
  assumes inv: "SparseSet_inv s" and r: "uint e < MAX_ENTITIES" and np: "\<not> present s e"
  shows "count s < MAX_ENTITIES"
proof -
  let ?n = "nat (count s)"
  let ?f = "\<lambda>i. unat (dense s ! i)"
  have c0: "0 \<le> count s" using inv by (simp add: SparseSet_inv_def)
  have inj: "inj_on ?f {..<?n}"
  proof (rule inj_onI)
    fix i j assume ij: "i \<in> {..<?n}" "j \<in> {..<?n}" and eq: "?f i = ?f j"
    have h: "uint (sparse s ! ?f i) = int i" "uint (sparse s ! ?f j) = int j"
      using dense_present(2)[OF inv, of "int i"] dense_present(2)[OF inv, of "int j"] ij
      by simp_all
    show "i = j" by (metis h eq of_nat_eq_iff)
  qed
  have sub: "?f ` {..<?n} \<subseteq> {..<10000} - {unat e}"
  proof
    fix k assume "k \<in> ?f ` {..<?n}"
    then obtain i where i: "i < ?n" "k = ?f i" by auto
    have p: "present s (dense s ! i)"
      using dense_present(1)[OF inv, of "int i"] i by simp
    then have "uint (dense s ! i) < 10000" by (simp add: present_def MAX_ENTITIES_def)
    then have "k < 10000" using i by (simp add: unat_less_uint)
    moreover have "k \<noteq> unat e"
    proof
      assume "k = unat e"
      then have "dense s ! i = e" using i by (simp add: word_unat_eq_iff)
      then show False using p np by simp
    qed
    ultimately show "k \<in> {..<10000} - {unat e}" by simp
  qed
  have "unat e < 10000" using r by (simp add: unat_less_uint MAX_ENTITIES_def)
  then have "card ({..<10000::nat} - {unat e}) = 9999" by simp
  moreover have "card (?f ` {..<?n}) = ?n" using inj by (simp add: card_image)
  moreover have "card (?f ` {..<?n}) \<le> card ({..<10000::nat} - {unat e})"
    by (rule card_mono[OF _ sub]) simp
  ultimately have "?n \<le> 9999" by simp
  then show ?thesis using c0 by (simp add: MAX_ENTITIES_def)
qed

lemma Grow_copy_ok:
  assumes "0 \<le> i" "count s \<le> int (length (dense s))" "count s \<le> int (length (data s))"
    "count s \<le> int (length nd)" "count s \<le> int (length nv)"
  shows "\<exists>nd' nv'. Grow_copy s i nd nv = Inr (nd', nv') \<and>
           length nd' = length nd \<and> length nv' = length nv \<and>
           (\<forall>j. nd' ! j = (if nat i \<le> j \<and> j < nat (count s) then dense s ! j else nd ! j)) \<and>
           (\<forall>j. nv' ! j = (if nat i \<le> j \<and> j < nat (count s) then data s ! j else nv ! j))"
  using assms
proof (induction s i nd nv rule: Grow_copy.induct)
  case (1 s i nd nv)
  show ?case
  proof (cases "i < count s")
    case False
    then have "\<not> (nat i \<le> j \<and> j < nat (count s))" for j
      using "1.prems"(1) by auto
    then show ?thesis using False by (auto simp add: Grow_copy.simps[of s i])
  next
    case True
    let ?nd = "nd[nat i := dense s ! nat i]" and ?nv = "nv[nat i := data s ! nat i]"
    have g1: "Array_get (dense s) i = Inr (dense s ! nat i)"
      and s1: "Array_set nd i (dense s ! nat i) = Inr ?nd"
      and g2: "Array_get (data s) i = Inr (data s ! nat i)"
      and s2: "Array_set nv i (data s ! nat i) = Inr ?nv"
      using True "1.prems" by (simp_all add: Array_get_ok Array_set_ok)
    have "\<exists>nd' nv'. Grow_copy s (i + 1) ?nd ?nv = Inr (nd', nv') \<and>
           length nd' = length ?nd \<and> length nv' = length ?nv \<and>
           (\<forall>j. nd' ! j = (if nat (i + 1) \<le> j \<and> j < nat (count s) then dense s ! j else ?nd ! j)) \<and>
           (\<forall>j. nv' ! j = (if nat (i + 1) \<le> j \<and> j < nat (count s) then data s ! j else ?nv ! j))"
      using True "1.prems" by (intro "1.IH"[OF True g1 s1 g2 s2]) simp_all
    then obtain nd' nv' where r: "Grow_copy s (i + 1) ?nd ?nv = Inr (nd', nv')"
      "length nd' = length nd" "length nv' = length nv"
      "\<And>j. nd' ! j = (if nat (i + 1) \<le> j \<and> j < nat (count s) then dense s ! j else ?nd ! j)"
      "\<And>j. nv' ! j = (if nat (i + 1) \<le> j \<and> j < nat (count s) then data s ! j else ?nv ! j)"
      by auto
    have e: "Grow_copy s i nd nv = Inr (nd', nv')"
      using True g1 s1 g2 s2 r(1) by (simp add: Grow_copy.simps[of s i])
    have li: "nat i < length nd" "nat i < length nv" using True "1.prems" by simp_all
    have n1: "nd' ! j = (if nat i \<le> j \<and> j < nat (count s) then dense s ! j else nd ! j)" for j
      using r(4)[of j] True "1.prems"(1) li by (cases "j = nat i") (auto simp: nat_add_distrib)
    have n2: "nv' ! j = (if nat i \<le> j \<and> j < nat (count s) then data s ! j else nv ! j)" for j
      using r(5)[of j] True "1.prems"(1) li by (cases "j = nat i") (auto simp: nat_add_distrib)
    show ?thesis using e r(2,3) n1 n2 by simp
  qed
qed

lemma Grow_ok:
  fixes s :: "('a::default) SparseSet"
  assumes inv: "SparseSet_inv s" and lt: "count s < MAX_ENTITIES"
  shows "\<exists>g. Grow s = Inr g \<and> sparse g = sparse s \<and> count g = count s \<and>
           capacity g = (if capacity s = 0 then 64 else capacity s * 2) \<and>
           int (length (dense g)) = capacity g \<and> int (length (data g)) = capacity g \<and>
           (\<forall>j. j < nat (count s) \<longrightarrow> dense g ! j = dense s ! j \<and> data g ! j = data s ! j)"
proof -
  let ?nc = "if capacity s = 0 then 64 else capacity s * 2"
  have c: "0 \<le> count s" "count s \<le> capacity s" "int (length (dense s)) = capacity s"
    "int (length (data s)) = capacity s"
    using inv by (simp_all add: SparseSet_inv_def)
  have nc: "count s \<le> ?nc" "0 \<le> ?nc" using c by auto
  have "\<exists>nd' nv'. Grow_copy s 0 (Array_new ?nc :: Entity list) (Array_new ?nc :: 'a list) = Inr (nd', nv') \<and>
           length nd' = length (Array_new ?nc :: Entity list) \<and> length nv' = length (Array_new ?nc :: 'a list) \<and>
           (\<forall>j. nd' ! j = (if nat 0 \<le> j \<and> j < nat (count s) then dense s ! j else (Array_new ?nc :: Entity list) ! j)) \<and>
           (\<forall>j. nv' ! j = (if nat 0 \<le> j \<and> j < nat (count s) then data s ! j else (Array_new ?nc :: 'a list) ! j))"
    using c nc by (intro Grow_copy_ok) (simp_all add: Array_new_def)
  then obtain nd' nv' where r:
    "Grow_copy s 0 (Array_new ?nc :: Entity list) (Array_new ?nc :: 'a list) = Inr (nd', nv')"
    "length nd' = nat ?nc" "length nv' = nat ?nc"
    "\<And>j. j < nat (count s) \<Longrightarrow> nd' ! j = dense s ! j"
    "\<And>j. j < nat (count s) \<Longrightarrow> nv' ! j = data s ! j"
    by (auto simp: Array_new_def)
  have "Grow s = Inr (s\<lparr>dense := nd', data := nv', capacity := ?nc\<rparr>)"
    using r(1) by (simp add: Grow_def Let_def)
  then show ?thesis using r(2-5) nc by (intro exI[of _ "s\<lparr>dense := nd', data := nv', capacity := ?nc\<rparr>"]) auto
qed

subsection \<open>Insertion\<close>

lemma SparseSet_invI:
  assumes "length (sparse s) = 10000" "0 \<le> count s" "count s \<le> capacity s"
    "count s \<le> 10000" "capacity s \<le> 20000"
    "int (length (dense s)) = capacity s" "int (length (data s)) = capacity s"
    "\<And>i. 0 \<le> i \<Longrightarrow> i < count s \<Longrightarrow> uint (dense s ! nat i) < 10000"
    "\<And>i. 0 \<le> i \<Longrightarrow> i < count s \<Longrightarrow> uint (sparse s ! unat (dense s ! nat i)) = i"
    "\<And>e::Entity. uint e < 10000 \<Longrightarrow> sparse s ! unat e \<noteq> INVALID_INDEX \<Longrightarrow> uint (sparse s ! unat e) < count s"
    "\<And>e::Entity. uint e < 10000 \<Longrightarrow> sparse s ! unat e \<noteq> INVALID_INDEX \<Longrightarrow> dense s ! unat (sparse s ! unat e) = e"
  shows "SparseSet_inv s"
  unfolding SparseSet_inv_def MAX_ENTITIES_def using assms by simp

lemma inv_sizes:
  assumes "SparseSet_inv s"
  shows "length (sparse s) = 10000" "0 \<le> count s" "count s \<le> capacity s"
    "count s \<le> 10000" "capacity s \<le> 20000"
    "int (length (dense s)) = capacity s" "int (length (data s)) = capacity s"
  using assms unfolding SparseSet_inv_def MAX_ENTITIES_def by simp_all

lemma present_range: "present s e \<Longrightarrow> uint e < 10000 \<and> unat e < 10000"
  by (simp add: present_def MAX_ENTITIES_def unat_less_uint)

lemma range_unat: "uint (e::Entity) < MAX_ENTITIES \<Longrightarrow> unat e < 10000"
  by (simp add: MAX_ENTITIES_def unat_less_uint)

lemma inv_data_update:
  "SparseSet_inv s \<Longrightarrow> length d = length (data s) \<Longrightarrow> SparseSet_inv (s\<lparr>data := d\<rparr>)"
  by (simp add: SparseSet_inv_def)

lemma Add_invalid: "word_of_int MAX_ENTITIES \<le> e \<Longrightarrow> Add s e component = Inr s"
  by (simp add: Add_def)

lemma Add_present:
  assumes inv: "SparseSet_inv s" and p: "present s e"
  shows "Add s e (Object v) = Inr (s\<lparr>data := (data s)[unat (sparse s ! unat e) := v]\<rparr>)"
proof -
  note b = slot_bounds[OF inv p]
  have r: "uint e < MAX_ENTITIES" using p by (simp add: present_def)
  have "Array_set (data s) (uint (sparse s ! unat e)) v = Inr ((data s)[unat (sparse s ! unat e) := v])"
    "Array_get (data s) (uint (sparse s ! unat e)) = Inr (data s ! unat (sparse s ! unat e))"
    using b inv_sizes(7)[OF inv] by (simp_all add: Array_set_ok Array_get_ok)
  then show ?thesis
    using p r b(4) by (simp add: Add_def entity_range Has_inv[OF inv] sparse_read[OF inv r])
qed

lemma lookup_Add_present:
  assumes inv: "SparseSet_inv s" and p: "present s e"
  shows "lookup (s\<lparr>data := (data s)[unat (sparse s ! unat e) := v]\<rparr>) = (lookup s)(e \<mapsto> v)"
proof
  fix e'
  let ?s' = "s\<lparr>data := (data s)[unat (sparse s ! unat e) := v]\<rparr>"
  have pe: "present ?s' e' = present s e'" by (simp add: present_def)
  show "lookup ?s' e' = ((lookup s)(e \<mapsto> v)) e'"
  proof (cases "present s e'")
    case False
    then have "e' \<noteq> e" using p by auto
    then show ?thesis using False pe by (simp add: lookup_def)
  next
    case True
    show ?thesis
    proof (cases "e' = e")
      case True
      then show ?thesis using p pe slot_bounds(6)[OF inv p] by (simp add: lookup_def)
    next
      case False
      then have "sparse s ! unat e' \<noteq> sparse s ! unat e"
        using slot_inj[OF inv True p] by auto
      then have "unat (sparse s ! unat e') \<noteq> unat (sparse s ! unat e)"
        by (simp add: word_unat_eq_iff)
      then show ?thesis using False True pe by (simp add: lookup_def)
    qed
  qed
qed

lemma Add_tail:
  fixes g :: "'a SparseSet" and v :: 'a and e :: Entity
  assumes inv: "SparseSet_inv g" and r: "uint e < MAX_ENTITIES" and np: "\<not> present g e"
    and room: "count g < capacity g"
  defines "s' \<equiv> g\<lparr>sparse := (sparse g)[unat e := word_of_int (count g)],
                  dense := (dense g)[nat (count g) := e],
                  data := (data g)[nat (count g) := v], count := count g + 1\<rparr>"
  shows "SparseSet_inv s'" "lookup s' = (lookup g)(e \<mapsto> v)"
proof -
  note z = inv_sizes[OF inv]
  have lt: "count g < 10000" using count_less[OF inv r np] by (simp add: MAX_ENTITIES_def)
  have ue: "unat e < 10000" "uint e < 10000" using r by (simp_all add: range_unat MAX_ENTITIES_def)
  have wc: "uint (word_of_int (count g) :: 32 word) = count g"
    by (rule uint_word_of_int32) (use z lt in simp_all)
  then have uwc: "unat (word_of_int (count g) :: 32 word) = nat (count g)"
    by (metis nat_uint_eq)
  have wcI: "(word_of_int (count g) :: 32 word) \<noteq> INVALID_INDEX"
  proof
    assume "(word_of_int (count g) :: 32 word) = INVALID_INDEX"
    then have "uint (word_of_int (count g) :: 32 word) = uint INVALID_INDEX" by (rule arg_cong)
    then show False using wc lt by (simp add: uint_INVALID_INDEX)
  qed
  have spe: "sparse g ! unat e = INVALID_INDEX" using np r by (simp add: present_def)
  have cl: "nat (count g) < length (dense g)" "nat (count g) < length (data g)"
    using z room by simp_all
  have S: "sparse s' = (sparse g)[unat e := word_of_int (count g)]"
    "dense s' = (dense g)[nat (count g) := e]"
    "data s' = (data g)[nat (count g) := v]" "count s' = count g + 1" "capacity s' = capacity g"
    by (simp_all add: s'_def)
  have other: "sparse s' ! unat e' = sparse g ! unat e'" if "e' \<noteq> e" for e' :: Entity
  proof -
    have "unat e' \<noteq> unat e" using that by (simp add: word_unat_eq_iff)
    then show ?thesis by (simp add: S)
  qed
  have self: "sparse s' ! unat e = word_of_int (count g)"
    using ue z by (simp add: S)
  have below: "dense s' ! unat ix = dense g ! unat ix" "data s' ! unat ix = data g ! unat ix"
    if "uint ix < count g" for ix :: "32 word"
  proof -
    have "unat ix < nat (count g)" using that z(2) by (simp add: unat_less_uint)
    then show "dense s' ! unat ix = dense g ! unat ix" "data s' ! unat ix = data g ! unat ix"
      by (simp_all add: S)
  qed
  have top: "dense s' ! nat (count g) = e" "data s' ! nat (count g) = v"
    using cl by (simp_all add: S)
  have pres: "present s' e' \<longleftrightarrow> e' = e \<or> present g e'" for e'
  proof (cases "e' = e")
    case True
    then show ?thesis using self wcI r by (simp add: present_def)
  next
    case False
    then show ?thesis using other[OF False] by (simp add: present_def)
  qed
  show "SparseSet_inv s'"
  proof (rule SparseSet_invI)
    show "length (sparse s') = 10000" using z by (simp add: S)
    show "0 \<le> count s'" using z by (simp add: S)
    show "count s' \<le> capacity s'" using room by (simp add: S)
    show "count s' \<le> 10000" using lt by (simp add: S)
    show "capacity s' \<le> 20000" using z by (simp add: S)
    show "int (length (dense s')) = capacity s'" using z by (simp add: S)
    show "int (length (data s')) = capacity s'" using z by (simp add: S)
  next
    fix i assume i: "0 \<le> i" "i < count s'"
    show "uint (dense s' ! nat i) < 10000"
    proof (cases "i = count g")
      case True
      then show ?thesis using top ue by simp
    next
      case False
      then have ig: "i < count g" using i by (simp add: S)
      then have "nat i \<noteq> nat (count g)" using i by simp
      then have "dense s' ! nat i = dense g ! nat i" by (simp add: S)
      then show ?thesis using dense_present(1)[OF inv i(1) ig] present_range by metis
    qed
    show "uint (sparse s' ! unat (dense s' ! nat i)) = i"
    proof (cases "i = count g")
      case True
      then show ?thesis using top self wc by simp
    next
      case False
      then have ig: "i < count g" using i by (simp add: S)
      then have "nat i \<noteq> nat (count g)" using i by simp
      then have d: "dense s' ! nat i = dense g ! nat i" by (simp add: S)
      have "present g (dense g ! nat i)" by (rule dense_present(1)[OF inv i(1) ig])
      then have "dense g ! nat i \<noteq> e" using np by auto
      then show ?thesis using other d dense_present(2)[OF inv i(1) ig] by metis
    qed
  next
    fix e' :: Entity
    assume a: "uint e' < 10000" "sparse s' ! unat e' \<noteq> INVALID_INDEX"
    show "uint (sparse s' ! unat e') < count s'"
    proof (cases "e' = e")
      case True
      then show ?thesis using self wc by (simp add: S)
    next
      case False
      then have "present g e'" using a other[OF False] by (simp add: present_def MAX_ENTITIES_def)
      then have "uint (sparse g ! unat e') < count g" by (rule slot_bounds(2)[OF inv])
      then show ?thesis using other[OF False] by (simp add: S(4))
    qed
    show "dense s' ! unat (sparse s' ! unat e') = e'"
    proof (cases "e' = e")
      case True
      then show ?thesis using self uwc top by simp
    next
      case False
      then have p: "present g e'" using a other[OF False] by (simp add: present_def MAX_ENTITIES_def)
      have "dense s' ! unat (sparse g ! unat e') = dense g ! unat (sparse g ! unat e')"
        by (rule below) (rule slot_bounds(2)[OF inv p])
      then show ?thesis using slot_bounds(5)[OF inv p] other[OF False] by simp
    qed
  qed
  show "lookup s' = (lookup g)(e \<mapsto> v)"
  proof
    fix e'
    show "lookup s' e' = ((lookup g)(e \<mapsto> v)) e'"
    proof (cases "e' = e")
      case True
      then show ?thesis using pres[of e] self uwc top by (simp add: lookup_def)
    next
      case False
      show ?thesis
      proof (cases "present g e'")
        case True
        have "data s' ! unat (sparse g ! unat e') = data g ! unat (sparse g ! unat e')"
          by (rule below) (rule slot_bounds(2)[OF inv True])
        then show ?thesis using False True pres[of e'] other[OF False] by (simp add: lookup_def)
      next
        case np': False
        then show ?thesis using False pres[of e'] by (simp add: lookup_def)
      qed
    qed
  qed
qed

lemma Grow_inv:
  fixes s :: "('a::default) SparseSet"
  assumes inv: "SparseSet_inv s" and full: "capacity s \<le> count s" and lt: "count s < MAX_ENTITIES"
  shows "\<exists>g. Grow s = Inr g \<and> SparseSet_inv g \<and> lookup g = lookup s \<and>
           (\<forall>e. present g e = present s e) \<and> count g = count s \<and> count g < capacity g \<and>
           sparse g = sparse s"
proof -
  note z = inv_sizes[OF inv]
  obtain g where g: "Grow s = Inr g" "sparse g = sparse s" "count g = count s"
    "capacity g = (if capacity s = 0 then 64 else capacity s * 2)"
    "int (length (dense g)) = capacity g" "int (length (data g)) = capacity g"
    "\<And>j. j < nat (count s) \<Longrightarrow> dense g ! j = dense s ! j"
    "\<And>j. j < nat (count s) \<Longrightarrow> data g ! j = data s ! j"
    using Grow_ok[OF inv lt] by blast
  have ceq: "capacity s = count s" using z full by simp
  have room: "count g < capacity g" using g(3,4) ceq z by auto
  have cap: "capacity g \<le> 20000" using g(4) ceq lt by (auto simp: MAX_ENTITIES_def)
  have pres: "present g e = present s e" for e by (simp add: present_def g(2))
  have sl: "unat (sparse s ! unat e) < nat (count s)" if "present s e" for e
    using slot_bounds(2)[OF inv that] z(2) by (simp add: unat_less_uint)
  have ginv: "SparseSet_inv g"
  proof (rule SparseSet_invI)
    show "length (sparse g) = 10000" using z g by simp
    show "0 \<le> count g" using z g by simp
    show "count g \<le> capacity g" using room by simp
    show "count g \<le> 10000" using z g by simp
    show "capacity g \<le> 20000" by (rule cap)
    show "int (length (dense g)) = capacity g" by (rule g)
    show "int (length (data g)) = capacity g" by (rule g)
  next
    fix i assume i: "0 \<le> i" "i < count g"
    then have ic: "i < count s" "nat i < nat (count s)" using g(3) by simp_all
    have d: "dense g ! nat i = dense s ! nat i" by (rule g(7)[OF ic(2)])
    show "uint (dense g ! nat i) < 10000"
      using dense_present(1)[OF inv i(1) ic(1)] d present_range by metis
    show "uint (sparse g ! unat (dense g ! nat i)) = i"
      using dense_present(2)[OF inv i(1) ic(1)] d g(2) by metis
  next
    fix e :: Entity
    assume a: "uint e < 10000" "sparse g ! unat e \<noteq> INVALID_INDEX"
    then have p: "present s e" by (simp add: present_def g(2) MAX_ENTITIES_def)
    show "uint (sparse g ! unat e) < count g"
      using slot_bounds(2)[OF inv p] g(2,3) by simp
    show "dense g ! unat (sparse g ! unat e) = e"
      using slot_bounds(5)[OF inv p] g(7)[OF sl[OF p]] g(2) by simp
  qed
  have "lookup g e = lookup s e" for e
    using g(8)[OF sl[of e]] pres[of e] by (simp add: lookup_def g(2))
  then have "lookup g = lookup s" by (rule ext)
  then show ?thesis using g(1,2,3) ginv pres room by blast
qed

lemma Add_absent:
  fixes s :: "('a::default) SparseSet"
  assumes inv: "SparseSet_inv s" and r: "uint e < MAX_ENTITIES" and np: "\<not> present s e"
  shows "\<exists>s'. Add s e (Object v) = Inr s' \<and> SparseSet_inv s' \<and> lookup s' = (lookup s)(e \<mapsto> v) \<and>
           count s' = count s + 1"
proof -
  have lt: "count s < MAX_ENTITIES" by (rule count_less[OF inv r np])
  have "\<exists>g. (if capacity s \<le> count s then Grow s else Inr s) = Inr g \<and> SparseSet_inv g \<and>
          lookup g = lookup s \<and> (\<forall>e. present g e = present s e) \<and> count g = count s \<and>
          count g < capacity g"
  proof (cases "capacity s \<le> count s")
    case True
    then show ?thesis using Grow_inv[OF inv True lt] by auto
  next
    case False
    then show ?thesis using inv by auto
  qed
  then obtain g where g: "(if capacity s \<le> count s then Grow s else Inr s) = Inr g"
    "SparseSet_inv g" "lookup g = lookup s" "\<And>e. present g e = present s e"
    "count g = count s" "count g < capacity g"
    by blast
  note z = inv_sizes[OF g(2)]
  let ?s' = "g\<lparr>sparse := (sparse g)[unat e := word_of_int (count g)],
                  dense := (dense g)[nat (count g) := e],
                  data := (data g)[nat (count g) := v], count := count g + 1\<rparr>"
  have npg: "\<not> present g e" using np g(4) by simp
  have "uint e < 65536" using r by (simp add: MAX_ENTITIES_def)
  then have se: "sint e = uint e" by (rule sint_uint32)
  have a1: "Array_set (sparse g) (uint e) (word_of_int (count g)) =
              Inr ((sparse g)[unat e := word_of_int (count g)])"
    using r z by (simp add: Array_set_ok MAX_ENTITIES_def)
  have a2: "Array_set (dense g) (count g) e = Inr ((dense g)[nat (count g) := e])"
    using z g(6) by (simp add: Array_set_ok)
  have a3: "Array_set (data g) (count g) v = Inr ((data g)[nat (count g) := v])"
    using z g(6) by (simp add: Array_set_ok)
  have a4: "Array_get (data g) (count g) = Inr (data g ! nat (count g))"
    using z g(6) by (simp add: Array_get_ok)
  have "Add s e (Object v) = Inr ?s'"
    using r np g(1) a1 a2 a3 a4 se
    by (simp add: Add_def entity_range Has_inv[OF inv])
  moreover have "SparseSet_inv ?s'" by (rule Add_tail(1)[OF g(2) r npg g(6)])
  moreover have "lookup ?s' = (lookup s)(e \<mapsto> v)"
    using Add_tail(2)[OF g(2) r npg g(6), of v] g(3) by simp
  moreover have "count ?s' = count s + 1" using g(5) by simp
  ultimately show ?thesis by blast
qed

lemma Add_ok:
  fixes s :: "('a::default) SparseSet"
  assumes inv: "SparseSet_inv s" and r: "uint e < MAX_ENTITIES"
  shows "\<exists>s'. Add s e (Object v) = Inr s' \<and> SparseSet_inv s' \<and> lookup s' = (lookup s)(e \<mapsto> v)"
proof (cases "present s e")
  case True
  have "length ((data s)[unat (sparse s ! unat e) := v]) = length (data s)" by simp
  then have "SparseSet_inv (s\<lparr>data := (data s)[unat (sparse s ! unat e) := v]\<rparr>)"
    by (rule inv_data_update[OF inv])
  then show ?thesis using Add_present[OF inv True, of v] lookup_Add_present[OF inv True, of v] by simp
next
  case False
  then show ?thesis using Add_absent[OF inv r False, of v] by blast
qed

lemma Add_inv:
  fixes s :: "('a::default) SparseSet"
  assumes inv: "SparseSet_inv s"
  shows "\<exists>s'. Add s e (Object v) = Inr s' \<and> SparseSet_inv s'"
proof (cases "uint e < MAX_ENTITIES")
  case True
  then show ?thesis using Add_ok[OF inv True, of v] by blast
next
  case False
  then show ?thesis using inv by (simp add: Add_def entity_range)
qed

subsection \<open>The component reference\<close>

lemma Add_refers_to:
  fixes s :: "('a::default) SparseSet"
  assumes inv: "SparseSet_inv s" and rt: "refers_to s e component v"
  shows "Add s e component = Add s e (Object v)"
proof (cases component)
  case (Object c)
  then show ?thesis using rt by (simp add: refers_to_def)
next
  case (Element p)
  then have g: "Array_get (data s) p = Inr v"
    and h: "present s e \<or> count s < capacity s"
    using rt by (simp_all add: refers_to_def Has_inv[OF inv])
  note z = inv_sizes[OF inv]
  show ?thesis
  proof (cases "present s e")
    case True
    note b = slot_bounds[OF inv True]
    have r: "uint e < MAX_ENTITIES" using True by (simp add: present_def)
    have ag: "Array_get (data s) (uint (sparse s ! unat e)) = Inr (data s ! unat (sparse s ! unat e))"
      using b z(7) by (simp add: Array_get_ok)
    show ?thesis
      using True r b(4)
      by (simp add: Add_def Element Has_inv[OF inv] g entity_range sparse_read[OF inv r] ag)
  next
    case False
    show ?thesis
    proof (cases "uint e < MAX_ENTITIES")
      case r: True
      have room: "count s < capacity s" using h False by simp
      have "uint e < 65536" using r by (simp add: MAX_ENTITIES_def)
      then have se: "sint e = uint e" by (rule sint_uint32)
      have a1: "Array_set (sparse s) (uint e) (word_of_int (count s)) =
                  Inr ((sparse s)[unat e := word_of_int (count s)])"
        using r z by (simp add: Array_set_ok MAX_ENTITIES_def)
      have a2: "Array_set (dense s) (count s) e = Inr ((dense s)[nat (count s) := e])"
        using z room by (simp add: Array_set_ok)
      have a4: "Array_get (data s) (count s) = Inr (data s ! nat (count s))"
        using z room by (simp add: Array_get_ok)
      show ?thesis
        using r False room a1 a2 a4 se
        by (simp add: Add_def Element Has_inv[OF inv] g entity_range)
    next
      case False
      then show ?thesis by (simp add: Add_def entity_range)
    qed
  qed
qed

lemma Add_dangling:
  fixes s :: "('a::default) SparseSet"
  assumes inv: "SparseSet_inv s" and r: "uint e < MAX_ENTITIES" and np: "\<not> present s e"
    and full: "capacity s \<le> count s"
  shows "Add s e (Element p) = Inl UseAfterFree"
proof -
  have lt: "count s < MAX_ENTITIES" by (rule count_less[OF inv r np])
  obtain g where g: "Grow s = Inr g" "SparseSet_inv g" "count g = count s" "count g < capacity g"
    using Grow_inv[OF inv full lt] by auto
  note z = inv_sizes[OF g(2)]
  have "uint e < 65536" using r by (simp add: MAX_ENTITIES_def)
  then have se: "sint e = uint e" by (rule sint_uint32)
  have a1: "Array_set (sparse g) (uint e) (word_of_int (count g)) =
              Inr ((sparse g)[unat e := word_of_int (count g)])"
    using r z by (simp add: Array_set_ok MAX_ENTITIES_def)
  have a2: "Array_set (dense g) (count g) e = Inr ((dense g)[nat (count g) := e])"
    using z g(4) by (simp add: Array_set_ok)
  have a4: "Array_get (data g) (count g) = Inr (data g ! nat (count g))"
    using z g(4) by (simp add: Array_get_ok)
  show ?thesis
    using r np full g(1) a1 a2 a4 se
    by (simp add: Add_def entity_range Has_inv[OF inv])
qed

subsection \<open>Removal\<close>

lemma Remove_absent:
  "SparseSet_inv s \<Longrightarrow> \<not> present s e \<Longrightarrow> Remove s e = Inr s"
  by (simp add: Remove_def Has_inv)

lemma unat_neq: "(e' :: Entity) \<noteq> e \<Longrightarrow> unat e' \<noteq> unat e"
  by (simp add: word_unat_eq_iff)

lemma slot_neq:
  assumes "SparseSet_inv s" "present s e1" "present s e2" "e1 \<noteq> e2"
  shows "sparse s ! unat e1 \<noteq> sparse s ! unat e2"
    "uint (sparse s ! unat e1) \<noteq> uint (sparse s ! unat e2)"
    "unat (sparse s ! unat e1) \<noteq> unat (sparse s ! unat e2)"
proof -
  show a: "sparse s ! unat e1 \<noteq> sparse s ! unat e2"
    using slot_inj[OF assms(1,2,3)] assms(4) by blast
  show "uint (sparse s ! unat e1) \<noteq> uint (sparse s ! unat e2)"
    using a by (simp add: word_uint_eq_iff)
  show "unat (sparse s ! unat e1) \<noteq> unat (sparse s ! unat e2)"
    using a by (simp add: word_unat_eq_iff)
qed

lemma Remove_last:
  fixes s :: "'a SparseSet" and e :: Entity
  assumes inv: "SparseSet_inv s" and p: "present s e"
    and last: "uint (sparse s ! unat e) = count s - 1"
  defines "s' \<equiv> s\<lparr>sparse := (sparse s)[unat e := INVALID_INDEX], count := count s - 1\<rparr>"
  shows "Remove s e = Inr s'" "SparseSet_inv s'" "lookup s' = (lookup s)(e := None)"
proof -
  note z = inv_sizes[OF inv] and b = slot_bounds[OF inv p]
  have r: "uint e < MAX_ENTITIES" "unat e < 10000" "uint e < 10000"
    using p present_range[OF p] by (simp_all add: present_def)
  have "0 \<le> uint (sparse s ! unat e)" by simp
  with b(2) have c0: "0 < count s" by linarith
  have c1: "0 \<le> count s - 1" "count s - 1 < 65536" using c0 z by simp_all
  have wl: "uint (word_of_int (count s - 1) :: 32 word) = count s - 1"
    by (rule uint_word_of_int32) (rule c1)+
  have same: "sparse s ! unat e = word_of_int (count s - 1)"
    using wl last by (simp add: word_uint_eq_iff)
  have "uint e < 65536" using r by simp
  then have se: "sint e = uint e" by (rule sint_uint32)
  have w: "Array_set (sparse s) (sint e) INVALID_INDEX = Inr ((sparse s)[unat e := INVALID_INDEX])"
    using r z by (simp add: Array_set_ok se)
  show "Remove s e = Inr s'"
    using p same w
    by (simp add: Remove_def Has_inv[OF inv] sparse_read[OF inv r(1)] s'_def Let_def)
  have S: "sparse s' = (sparse s)[unat e := INVALID_INDEX]" "dense s' = dense s"
    "data s' = data s" "count s' = count s - 1" "capacity s' = capacity s"
    by (simp_all add: s'_def)
  have other: "sparse s' ! unat e' = sparse s ! unat e'" if "e' \<noteq> e" for e' :: Entity
    using unat_neq[OF that] by (simp add: S)
  have self: "sparse s' ! unat e = INVALID_INDEX" using r z by (simp add: S)
  have pres: "present s' e' \<longleftrightarrow> e' \<noteq> e \<and> present s e'" for e'
  proof (cases "e' = e")
    case True
    then show ?thesis using self by (simp add: present_def)
  next
    case False
    then show ?thesis using other[OF False] by (simp add: present_def)
  qed
  show "SparseSet_inv s'"
  proof (rule SparseSet_invI)
    show "length (sparse s') = 10000" using z by (simp add: S)
    show "0 \<le> count s'" using c1 by (simp add: S)
    show "count s' \<le> capacity s'" using z by (simp add: S)
    show "count s' \<le> 10000" using z by (simp add: S)
    show "capacity s' \<le> 20000" using z by (simp add: S)
    show "int (length (dense s')) = capacity s'" using z by (simp add: S)
    show "int (length (data s')) = capacity s'" using z by (simp add: S)
  next
    fix i assume i: "0 \<le> i" "i < count s'"
    then have ic: "i < count s" by (simp add: S)
    have pd: "present s (dense s ! nat i)" by (rule dense_present(1)[OF inv i(1) ic])
    have sd: "uint (sparse s ! unat (dense s ! nat i)) = i" by (rule dense_present(2)[OF inv i(1) ic])
    show "uint (dense s' ! nat i) < 10000" using present_range[OF pd] by (simp add: S)
    have "dense s ! nat i \<noteq> e" using sd last i by (auto simp: S)
    then show "uint (sparse s' ! unat (dense s' ! nat i)) = i" using other sd by (simp add: S(2))
  next
    fix e' :: Entity
    assume a: "uint e' < 10000" "sparse s' ! unat e' \<noteq> INVALID_INDEX"
    then have ne: "e' \<noteq> e" using self by auto
    then have p': "present s e'" using a other[OF ne] by (simp add: present_def MAX_ENTITIES_def)
    have "uint (sparse s ! unat e') \<noteq> uint (sparse s ! unat e)" by (rule slot_neq(2)[OF inv p' p ne])
    then have "uint (sparse s ! unat e') < count s - 1"
      using slot_bounds(2)[OF inv p'] last by simp
    then show "uint (sparse s' ! unat e') < count s'" using other[OF ne] by (simp add: S(4))
    show "dense s' ! unat (sparse s' ! unat e') = e'"
      using slot_bounds(5)[OF inv p'] other[OF ne] by (simp add: S(2))
  qed
  show "lookup s' = (lookup s)(e := None)"
  proof
    fix e'
    show "lookup s' e' = ((lookup s)(e := None)) e'"
    proof (cases "e' = e")
      case True
      then show ?thesis using pres[of e] by (simp add: lookup_def)
    next
      case False
      then show ?thesis using pres[of e'] other[OF False] by (simp add: lookup_def S(3))
    qed
  qed
qed


lemma Remove_swap:
  fixes s :: "'a SparseSet" and e :: Entity
  assumes inv: "SparseSet_inv s" and p: "present s e"
    and notlast: "uint (sparse s ! unat e) \<noteq> count s - 1"
  defines "s' \<equiv> s\<lparr>sparse := (sparse s)[unat (dense s ! nat (count s - 1)) := sparse s ! unat e,
                                    unat e := INVALID_INDEX],
                  dense := (dense s)[unat (sparse s ! unat e) := dense s ! nat (count s - 1)],
                  data := (data s)[unat (sparse s ! unat e) := data s ! nat (count s - 1)],
                  count := count s - 1\<rparr>"
  shows "Remove s e = Inr s'" "SparseSet_inv s'" "lookup s' = (lookup s)(e := None)"
proof -
  let ?ix = "sparse s ! unat e" and ?li = "count s - 1"
  let ?lw = "word_of_int (count s - 1) :: 32 word"
  let ?le = "dense s ! nat (count s - 1)"
  note z = inv_sizes[OF inv] and b = slot_bounds[OF inv p]
  have r: "uint e < MAX_ENTITIES" "unat e < 10000" "uint e < 10000"
    using p present_range[OF p] by (simp_all add: present_def)
  have "0 \<le> uint ?ix" by simp
  with b(2) have c0: "0 < count s" by linarith
  have c1: "0 \<le> ?li" "?li < 65536" "?li < count s" using c0 z by simp_all
  have wl: "uint ?lw = ?li" by (rule uint_word_of_int32) (rule c1)+
  have "uint ?lw < 65536" using wl c1 by simp
  then have sl: "sint ?lw = ?li" using wl sint_uint32 by metis
  have ne: "?ix \<noteq> ?lw" using wl notlast by auto
  have ple: "present s ?le" by (rule dense_present(1)[OF inv c1(1) c1(3)])
  have sle: "uint (sparse s ! unat ?le) = ?li" by (rule dense_present(2)[OF inv c1(1) c1(3)])
  have rle: "uint ?le < 10000" "unat ?le < 10000" using present_range[OF ple] by simp_all
  then have "uint ?le < 65536" by simp
  then have sle': "sint ?le = uint ?le" by (rule sint_uint32)
  have lene: "?le \<noteq> e" using sle notlast by auto
  have ixlt: "uint ?ix < ?li" using b(2) notlast by simp
  have "uint e < 65536" using r by simp
  then have se: "sint e = uint e" by (rule sint_uint32)
  have g1: "Array_get (dense s) (sint ?lw) = Inr ?le"
    using c1 z by (simp only: sl) (simp add: Array_get_ok)
  have w1: "Array_set (dense s) (sint ?ix) ?le = Inr ((dense s)[unat ?ix := ?le])"
    using b z by (simp only: b(4)) (simp add: Array_set_ok)
  have g2: "Array_get (data s) (sint ?lw) = Inr (data s ! nat ?li)"
    using c1 z by (simp only: sl) (simp add: Array_get_ok)
  have w2: "Array_set (data s) (sint ?ix) (data s ! nat ?li) = Inr ((data s)[unat ?ix := data s ! nat ?li])"
    using b z by (simp only: b(4)) (simp add: Array_set_ok)
  have w3: "Array_set (sparse s) (sint ?le) ?ix = Inr ((sparse s)[unat ?le := ?ix])"
    using rle z by (simp only: sle') (simp add: Array_set_ok)
  have w4: "Array_set ((sparse s)[unat ?le := ?ix]) (sint e) INVALID_INDEX =
              Inr ((sparse s)[unat ?le := ?ix, unat e := INVALID_INDEX])"
    using r z by (simp only: se) (simp add: Array_set_ok)
  have rd: "Array_get (sparse s) (sint e) = Inr ?ix" by (rule sparse_read[OF inv r(1)])
  have hs: "Has s e = Inr True" using p by (simp add: Has_inv[OF inv])
  show "Remove s e = Inr s'"
    unfolding Remove_def Let_def s'_def
    by (simp only: hs rd ne g1 w1 g2 w2 w3 sum.case bool.case if_True not_False_eq_True
          simp_thms) (simp add: w4)
  have S: "sparse s' = (sparse s)[unat ?le := ?ix, unat e := INVALID_INDEX]"
    "dense s' = (dense s)[unat ?ix := ?le]"
    "data s' = (data s)[unat ?ix := data s ! nat ?li]"
    "count s' = count s - 1" "capacity s' = capacity s"
    by (simp_all add: s'_def)
  have self: "sparse s' ! unat e = INVALID_INDEX" using r z by (simp add: S)
  have mv: "sparse s' ! unat ?le = ?ix"
    using unat_neq[OF lene] rle z by (simp add: S)
  have other: "sparse s' ! unat e' = sparse s ! unat e'" if "e' \<noteq> e" "e' \<noteq> ?le" for e' :: Entity
    using unat_neq[OF that(1)] unat_neq[OF that(2)] by (simp add: S)
  have ixI: "?ix \<noteq> INVALID_INDEX" using p by (simp add: present_def)
  have pres: "present s' e' \<longleftrightarrow> e' \<noteq> e \<and> present s e'" for e'
  proof (cases "e' = e")
    case True
    then show ?thesis using self by (simp add: present_def)
  next
    case False
    show ?thesis
    proof (cases "e' = ?le")
      case True
      then show ?thesis using mv ixI ple False by (simp add: present_def)
    next
      case f: False
      then show ?thesis using other[OF False f] False by (simp add: present_def)
    qed
  qed
  have ux: "unat ?ix < length (dense s)" "unat ?ix < length (data s)" using b by simp_all
  have at_ix: "dense s' ! unat ?ix = ?le" "data s' ! unat ?ix = data s ! nat ?li"
    using ux by (simp_all add: S)
  have off_ix: "dense s' ! unat w = dense s ! unat w" "data s' ! unat w = data s ! unat w"
    if "w \<noteq> ?ix" for w :: "32 word"
  proof -
    have "unat w \<noteq> unat ?ix" using that by (simp add: word_unat_eq_iff)
    then show "dense s' ! unat w = dense s ! unat w" "data s' ! unat w = data s ! unat w"
      by (simp_all add: S)
  qed
  have li_slot: "nat ?li = unat (sparse s ! unat ?le)" using sle by (metis nat_uint_eq)
  show "SparseSet_inv s'"
  proof (rule SparseSet_invI)
    show "length (sparse s') = 10000" using z by (simp add: S)
    show "0 \<le> count s'" using c1 by (simp add: S)
    show "count s' \<le> capacity s'" using z by (simp add: S)
    show "count s' \<le> 10000" using z by (simp add: S)
    show "capacity s' \<le> 20000" using z by (simp add: S)
    show "int (length (dense s')) = capacity s'" using z by (simp add: S)
    show "int (length (data s')) = capacity s'" using z by (simp add: S)
  next
    fix i assume i: "0 \<le> i" "i < count s'"
    then have ic: "i < count s" "i < ?li" by (simp_all add: S)
    have pd: "present s (dense s ! nat i)" by (rule dense_present(1)[OF inv i(1) ic(1)])
    have sd: "uint (sparse s ! unat (dense s ! nat i)) = i" by (rule dense_present(2)[OF inv i(1) ic(1)])
    have "uint (dense s' ! nat i) < 10000 \<and> uint (sparse s' ! unat (dense s' ! nat i)) = i"
    proof (cases "i = uint ?ix")
      case True
      then have "nat i = unat ?ix" by (metis nat_uint_eq)
      then have "dense s' ! nat i = ?le" using at_ix by simp
      then show ?thesis using rle mv True by simp
    next
      case False
      then have "nat i \<noteq> unat ?ix" using i(1) by (metis int_nat_eq uint_nat)
      then have d: "dense s' ! nat i = dense s ! nat i" by (simp add: S)
      have d1: "dense s ! nat i \<noteq> e" using sd False by auto
      have d2: "dense s ! nat i \<noteq> ?le" using sd sle ic by auto
      show ?thesis using d other[OF d1 d2] sd present_range[OF pd] by simp
    qed
    then show "uint (dense s' ! nat i) < 10000" "uint (sparse s' ! unat (dense s' ! nat i)) = i"
      by simp_all
  next
    fix e' :: Entity
    assume a: "uint e' < 10000" "sparse s' ! unat e' \<noteq> INVALID_INDEX"
    then have ne': "e' \<noteq> e" using self by auto
    have "present s' e'" using a by (simp add: present_def MAX_ENTITIES_def)
    then have p': "present s e'" using pres by simp
    have "uint (sparse s' ! unat e') < count s' \<and> dense s' ! unat (sparse s' ! unat e') = e'"
    proof (cases "e' = ?le")
      case True
      then show ?thesis using mv ixlt at_ix by (simp add: S(4))
    next
      case False
      have o: "sparse s' ! unat e' = sparse s ! unat e'" by (rule other[OF ne' False])
      have "uint (sparse s ! unat e') \<noteq> uint (sparse s ! unat ?le)"
        by (rule slot_neq(2)[OF inv p' ple False])
      then have lt: "uint (sparse s ! unat e') < ?li"
        using slot_bounds(2)[OF inv p'] sle by simp
      have "sparse s ! unat e' \<noteq> ?ix" by (rule slot_neq(1)[OF inv p' p ne'])
      then have "dense s' ! unat (sparse s ! unat e') = dense s ! unat (sparse s ! unat e')"
        by (rule off_ix)
      then show ?thesis using o lt slot_bounds(5)[OF inv p'] by (simp add: S(4))
    qed
    then show "uint (sparse s' ! unat e') < count s'" "dense s' ! unat (sparse s' ! unat e') = e'"
      by simp_all
  qed
  show "lookup s' = (lookup s)(e := None)"
  proof
    fix e'
    show "lookup s' e' = ((lookup s)(e := None)) e'"
    proof (cases "e' = e")
      case True
      then show ?thesis using pres[of e] by (simp add: lookup_def)
    next
      case False
      show ?thesis
      proof (cases "present s e'")
        case np: False
        then show ?thesis using False pres[of e'] by (simp add: lookup_def)
      next
        case True
        show ?thesis
        proof (cases "e' = ?le")
          case le: True
          have "data s' ! unat (sparse s' ! unat ?le) = data s ! unat (sparse s ! unat ?le)"
            using mv at_ix(2) li_slot by simp
          then show ?thesis using False True pres[of e'] le by (simp add: lookup_def)
        next
          case nle: False
          have o: "sparse s' ! unat e' = sparse s ! unat e'" by (rule other[OF False nle])
          have "sparse s ! unat e' \<noteq> ?ix" by (rule slot_neq(1)[OF inv True p False])
          then have "data s' ! unat (sparse s ! unat e') = data s ! unat (sparse s ! unat e')"
            by (rule off_ix)
          then show ?thesis using False True pres[of e'] o by (simp add: lookup_def)
        qed
      qed
    qed
  qed
qed

lemma Remove_ok:
  assumes inv: "SparseSet_inv s"
  shows "\<exists>s'. Remove s e = Inr s' \<and> SparseSet_inv s' \<and> lookup s' = (lookup s)(e := None)"
proof (cases "present s e")
  case False
  then have "lookup s e = None" by (simp add: lookup_def)
  then have "(lookup s)(e := None) = lookup s" by (simp add: fun_upd_idem)
  then show ?thesis using Remove_absent[OF inv False] inv by simp
next
  case True
  show ?thesis
  proof (cases "uint (sparse s ! unat e) = count s - 1")
    case l: True
    show ?thesis using Remove_last[OF inv True l] by blast
  next
    case False
    show ?thesis using Remove_swap[OF inv True False] by blast
  qed
qed

subsection \<open>Clearing\<close>

lemma if_merge:
  "X = (A \<or> B) \<Longrightarrow> (if B then x else if A then x else y) = (if X then x else y)"
  by auto

lemma Clear_loop_ok:
  assumes "SparseSet_inv s" "length sp = 10000" "0 \<le> i"
  shows "\<exists>sp'. Clear_loop s i sp = Inr sp' \<and> length sp' = length sp \<and>
           (\<forall>k. sp' ! k = (if \<exists>j. i \<le> j \<and> j < count s \<and> unat (dense s ! nat j) = k
                           then INVALID_INDEX else sp ! k))"
  using assms
proof (induction s i sp rule: Clear_loop.induct)
  case (1 s i sp)
  note inv = "1.prems"(1)
  note z = inv_sizes[OF inv]
  show ?case
  proof (cases "i < count s")
    case False
    then have "\<not> (\<exists>j. i \<le> j \<and> j < count s \<and> unat (dense s ! nat j) = k)" for k by auto
    then have "(if \<exists>j. i \<le> j \<and> j < count s \<and> unat (dense s ! nat j) = k
                then INVALID_INDEX else sp ! k) = sp ! k" for k
      by (simp only: if_False)
    then show ?thesis using False by (simp only: Clear_loop.simps[of s i]) simp
  next
    case True
    let ?d = "dense s ! nat i"
    let ?sp = "sp[unat ?d := INVALID_INDEX]"
    have pd: "present s ?d" by (rule dense_present(1)[OF inv "1.prems"(3) True])
    have rd: "uint ?d < 10000" "unat ?d < 10000" using present_range[OF pd] by simp_all
    then have "uint ?d < 65536" by simp
    then have sd: "sint ?d = uint ?d" by (rule sint_uint32)
    have g: "Array_get (dense s) i = Inr ?d"
      using True "1.prems"(3) z by (simp add: Array_get_ok)
    have w: "Array_set sp (sint ?d) INVALID_INDEX = Inr ?sp"
      using rd "1.prems"(2) by (simp only: sd) (simp add: Array_set_ok)
    have "\<exists>sp'. Clear_loop s (i + 1) ?sp = Inr sp' \<and> length sp' = length ?sp \<and>
           (\<forall>k. sp' ! k = (if \<exists>j. i + 1 \<le> j \<and> j < count s \<and> unat (dense s ! nat j) = k
                           then INVALID_INDEX else ?sp ! k))"
      using "1.prems" by (intro "1.IH"[OF True g w]) simp_all
    then obtain sp' where r: "Clear_loop s (i + 1) ?sp = Inr sp'" "length sp' = length sp"
      "\<And>k. sp' ! k = (if \<exists>j. i + 1 \<le> j \<and> j < count s \<and> unat (dense s ! nat j) = k
                           then INVALID_INDEX else ?sp ! k)"
      by auto
    have e: "Clear_loop s i sp = Inr sp'"
      using True g w r(1) by (simp add: Clear_loop.simps[of s i])
    have split: "(\<exists>j. i \<le> j \<and> j < count s \<and> unat (dense s ! nat j) = k) \<longleftrightarrow>
                 unat ?d = k \<or> (\<exists>j. i + 1 \<le> j \<and> j < count s \<and> unat (dense s ! nat j) = k)" for k
    proof
      assume "\<exists>j. i \<le> j \<and> j < count s \<and> unat (dense s ! nat j) = k"
      then obtain j where j: "i \<le> j" "j < count s" "unat (dense s ! nat j) = k" by blast
      show "unat ?d = k \<or> (\<exists>j. i + 1 \<le> j \<and> j < count s \<and> unat (dense s ! nat j) = k)"
      proof (cases "j = i")
        case True
        then show ?thesis using j by simp
      next
        case False
        then have "i + 1 \<le> j" using j by simp
        then show ?thesis using j by blast
      qed
    next
      assume "unat ?d = k \<or> (\<exists>j. i + 1 \<le> j \<and> j < count s \<and> unat (dense s ! nat j) = k)"
      then show "\<exists>j. i \<le> j \<and> j < count s \<and> unat (dense s ! nat j) = k"
      proof
        assume "unat ?d = k"
        then show ?thesis using True by (intro exI[of _ i]) simp
      next
        assume "\<exists>j. i + 1 \<le> j \<and> j < count s \<and> unat (dense s ! nat j) = k"
        then obtain j where "i + 1 \<le> j" "j < count s" "unat (dense s ! nat j) = k" by blast
        then show ?thesis by (intro exI[of _ j]) simp
      qed
    qed
    have upd: "?sp ! k = (if unat ?d = k then INVALID_INDEX else sp ! k)" for k
      using rd "1.prems"(2) by (cases "unat ?d = k") simp_all
    have "sp' ! k = (if \<exists>j. i \<le> j \<and> j < count s \<and> unat (dense s ! nat j) = k
                           then INVALID_INDEX else sp ! k)" for k
      by (simp only: r(3)[of k] upd[of k] if_merge[OF split[of k]])
    then show ?thesis using e r(2) by simp
  qed
qed

lemma Clear_ok:
  assumes inv: "SparseSet_inv s"
  shows "\<exists>s'. Clear s = Inr s' \<and> SparseSet_inv s' \<and> lookup s' = Map.empty \<and>
           count s' = 0 \<and> capacity s' = capacity s \<and> dense s' = dense s \<and> data s' = data s"
proof -
  note z = inv_sizes[OF inv]
  obtain sp' where r: "Clear_loop s 0 (sparse s) = Inr sp'" "length sp' = length (sparse s)"
      "\<And>k. sp' ! k = (if \<exists>j. 0 \<le> j \<and> j < count s \<and> unat (dense s ! nat j) = k
                           then INVALID_INDEX else sparse s ! k)"
    using Clear_loop_ok[OF inv z(1), of 0] by auto
  let ?s' = "s\<lparr>sparse := sp', count := 0\<rparr>"
  have c: "Clear s = Inr ?s'" using r(1) by (simp add: Clear_def)
  have all: "sp' ! unat e = INVALID_INDEX" if e: "uint e < 10000" for e :: Entity
  proof (cases "sparse s ! unat e = INVALID_INDEX")
    case True
    then show ?thesis using r(3)[of "unat e"] by simp
  next
    case False
    then have p: "present s e" using e by (simp add: present_def MAX_ENTITIES_def)
    note b = slot_bounds[OF inv p]
    have "nat (uint (sparse s ! unat e)) = unat (sparse s ! unat e)" by simp
    then have "unat (dense s ! nat (uint (sparse s ! unat e))) = unat e" using b(5) by simp
    then have "\<exists>j. 0 \<le> j \<and> j < count s \<and> unat (dense s ! nat j) = unat e"
      using b(1,2) by blast
    then show ?thesis using r(3)[of "unat e"] by simp
  qed
  have np: "\<not> present ?s' e" for e
    using all[of e] by (auto simp: present_def MAX_ENTITIES_def)
  have "SparseSet_inv ?s'"
  proof (rule SparseSet_invI)
    show "length (sparse ?s') = 10000" using z r(2) by simp
    show "0 \<le> count ?s'" by simp
    show "count ?s' \<le> capacity ?s'" using z by simp
    show "count ?s' \<le> 10000" by simp
    show "capacity ?s' \<le> 20000" using z by simp
    show "int (length (dense ?s')) = capacity ?s'" using z by simp
    show "int (length (data ?s')) = capacity ?s'" using z by simp
  next
    fix i :: int assume "0 \<le> i" "i < count ?s'"
    then have False by simp
    then show "uint (dense ?s' ! nat i) < 10000" "uint (sparse ?s' ! unat (dense ?s' ! nat i)) = i"
      by simp_all
  next
    fix e :: Entity assume "uint e < 10000" "sparse ?s' ! unat e \<noteq> INVALID_INDEX"
    then have False using all[of e] by simp
    then show "uint (sparse ?s' ! unat e) < count ?s'" "dense ?s' ! unat (sparse ?s' ! unat e) = e"
      by simp_all
  qed
  moreover have "lookup ?s' = Map.empty" using np by (auto simp: lookup_def)
  ultimately show ?thesis using c by simp
qed

subsection \<open>Operation sequences\<close>

lemma SparseSet_apply_inv:
  fixes s :: "('a::default) SparseSet"
  assumes "SparseSet_inv s"
  shows "\<exists>s'. SparseSet_apply s op = Inr s' \<and> SparseSet_inv s'"
proof (cases op)
  case (OpAdd e v)
  then show ?thesis using Add_inv[OF assms, of e v] by simp
next
  case (OpRemove e)
  then show ?thesis using Remove_ok[OF assms, of e] by auto
next
  case OpClear
  then show ?thesis using Clear_ok[OF assms] by auto
qed

lemma SparseSet_run_inv:
  fixes s :: "('a::default) SparseSet"
  assumes "SparseSet_inv s"
  shows "\<exists>s'. SparseSet_run s ops = Inr s' \<and> SparseSet_inv s'"
  using assms
proof (induction ops arbitrary: s)
  case Nil
  then show ?case by simp
next
  case (Cons op ops)
  obtain s1 where s1: "SparseSet_apply s op = Inr s1" "SparseSet_inv s1"
    using SparseSet_apply_inv[OF Cons.prems] by blast
  show ?case using Cons.IH[OF s1(2)] s1(1) by simp
qed

section \<open>Properties of one storage\<close>

lemma sint_nonneg32:
  assumes "0 \<le> sint (e::32 word)"
  shows "sint e = uint e"
proof -
  have nb: "\<not> bit (uint e) 31" using assms by (simp add: sint_uint)
  then have s: "sint e = take_bit 31 (uint e)"
    by (simp add: sint_uint signed_take_bit_eq_if_positive)
  have "take_bit (Suc 31) (uint e) = 2 ^ 31 * of_bool (bit (uint e) 31) + take_bit 31 (uint e)"
    by (rule take_bit_Suc_from_most)
  moreover have "take_bit (Suc 31) (uint e) = uint e"
    using uint_lt2p[of e] by (simp add: take_bit_int_eq_self_iff)
  ultimately have "uint e = take_bit 31 (uint e)" using nb by simp
  then show ?thesis using s by simp
qed

lemma Array_get_Inr:
  "Array_get xs i = Inr x \<Longrightarrow> 0 \<le> i \<and> i < int (length xs) \<and> x = xs ! nat i"
  by (auto simp: Array_get_def split: if_splits)

lemma inv_sparse_to_dense:
  assumes inv: "SparseSet_inv s"
    and rd: "Array_get (sparse s) (sint e) = Inr index" and ni: "index \<noteq> INVALID_INDEX"
  shows "index < word_of_int (count s)" "Array_get (dense s) (sint index) = Inr e"
proof -
  note z = inv_sizes[OF inv]
  have a: "0 \<le> sint e" "sint e < 10000" "index = sparse s ! nat (sint e)"
    using Array_get_Inr[OF rd] z by simp_all
  have su: "sint e = uint e" by (rule sint_nonneg32[OF a(1)])
  have ix: "index = sparse s ! unat e" using a(3) by (simp only: su nat_uint_eq)
  have p: "present s e" using a(2) ni ix by (simp add: su present_def MAX_ENTITIES_def)
  note b = slot_bounds[OF inv p]
  have wc: "uint (word_of_int (count s) :: 32 word) = count s"
    by (rule uint_word_of_int32) (use z in simp_all)
  show "index < word_of_int (count s)" using b(2) wc by (simp add: ix word_less_def)
  have "Array_get (dense s) (uint (sparse s ! unat e)) = Inr (dense s ! unat (sparse s ! unat e))"
    using b z by (simp add: Array_get_ok)
  then show "Array_get (dense s) (sint index) = Inr e" by (simp only: ix b(4) b(5))
qed

lemma inv_dense_to_sparse:
  assumes inv: "SparseSet_inv s" and i: "0 \<le> i" "i < count s"
  shows "Array_get (dense s) i = Inr (dense s ! nat i)"
    "Array_get (sparse s) (sint (dense s ! nat i)) = Inr (word_of_int i)"
proof -
  note z = inv_sizes[OF inv]
  show "Array_get (dense s) i = Inr (dense s ! nat i)" using i z by (simp add: Array_get_ok)
  have p: "present s (dense s ! nat i)" by (rule dense_present(1)[OF inv i])
  have u: "uint (sparse s ! unat (dense s ! nat i)) = i" by (rule dense_present(2)[OF inv i])
  have "uint (word_of_int i :: 32 word) = i" by (rule uint_word_of_int32) (use i z in simp_all)
  then have "sparse s ! unat (dense s ! nat i) = word_of_int i"
    using u by (simp only: word_uint_eq_iff)
  moreover have "uint (dense s ! nat i) < MAX_ENTITIES" using p by (simp add: present_def)
  ultimately show "Array_get (sparse s) (sint (dense s ! nat i)) = Inr (word_of_int i)"
    using sparse_read[OF inv] by simp
qed

text \<open>
  Claim C2. Whatever sequence of \<open>Add\<close>, \<open>Remove\<close> and \<open>Clear\<close> is applied to a new storage,
  every operation returns (no array access is out of bounds) and in the storage reached:
  every entity \<open>e\<close> whose \<open>sparse[e]\<close> is not the sentinel has \<open>sparse[e] < count\<close> and
  \<open>dense[sparse[e]] == e\<close>; every index \<open>i < count\<close> has \<open>sparse[dense[i]] == i\<close>; and
  \<open>count <= capacity\<close>. The array reads are the code's own \<open>operator[]\<close>, so each of them is
  in bounds.
\<close>

theorem SparseSet_invariant_holds:
  fixes ops :: "('a::default) SparseSet_op list"
  shows "\<exists>s. SparseSet_run SparseSet_new ops = Inr s \<and>
           (\<forall>e index. Array_get (sparse s) (sint e) = Inr index \<longrightarrow> index \<noteq> INVALID_INDEX \<longrightarrow>
              index < word_of_int (count s) \<and> Array_get (dense s) (sint index) = Inr e) \<and>
           (\<forall>i. 0 \<le> i \<longrightarrow> i < count s \<longrightarrow>
              (\<exists>d. Array_get (dense s) i = Inr d \<and>
                   Array_get (sparse s) (sint d) = Inr (word_of_int i))) \<and>
           count s \<le> capacity s"
proof -
  obtain s where s: "SparseSet_run SparseSet_new ops = Inr s" "SparseSet_inv s"
    using SparseSet_run_inv[OF SparseSet_inv_new, of ops] by blast
  have "count s \<le> capacity s" by (rule inv_sizes(3)[OF s(2)])
  then show ?thesis
    using s(1) inv_sparse_to_dense[OF s(2)] inv_dense_to_sparse[OF s(2)] by blast
qed

lemma entity_one [simp]: "\<not> (10000 :: 32 word) \<le> 1"
  by (simp add: word_le_def)

lemmas eval_defs = Add_def Remove_def Has_def Get_def Array_get_def Array_set_def Grow_def
  Grow_copy.simps Array_new_def MAX_ENTITIES_def INVALID_INDEX_def default_word_def Let_def
  GetData_def GetEntity_def Count_def Get_value_def

lemma example_adds:
  "SparseSet_run SparseSet_new [OpAdd 5 (Player 1 2), OpAdd 3 (Player 3 4), OpAdd 9 (Player 5 6)] =
     Inr \<lparr>sparse = (replicate 10000 INVALID_INDEX)[5 := 0, 3 := 1, 9 := 2],
          dense = (replicate 64 0)[0 := 5, 1 := 3, 2 := 9],
          data = (replicate 64 default)[0 := Player 1 2, 1 := Player 3 4, 2 := Player 5 6],
          count = 3, capacity = 64\<rparr>"
  by (simp add: SparseSet_new_eq eval_defs)

lemma example_remove:
  "Remove \<lparr>sparse = (replicate 10000 INVALID_INDEX)[5 := 0, 3 := 1, 9 := 2],
          dense = (replicate 64 0)[0 := 5, 1 := 3, 2 := 9],
          data = (replicate 64 default)[0 := Player 1 2, 1 := Player 3 4, 2 := Player 5 6],
          count = 3, capacity = 64\<rparr> 3 =
     Inr \<lparr>sparse = (replicate 10000 INVALID_INDEX)[5 := 0, 3 := 1, 9 := 2, 9 := 1, 3 := INVALID_INDEX],
          dense = (replicate 64 0)[0 := 5, 1 := 3, 2 := 9, 1 := 9],
          data = (replicate 64 default)[0 := Player 1 2, 1 := Player 3 4, 2 := Player 5 6,
                   1 := Player 5 6],
          count = 2, capacity = 64\<rparr>"
  by (simp add: eval_defs)


lemma example_swap_remove:
  "SparseSet_run SparseSet_new
     [OpAdd 5 (Player 1 2), OpAdd 3 (Player 3 4), OpAdd 9 (Player 5 6), OpRemove 3] =
     Inr \<lparr>sparse = (replicate 10000 INVALID_INDEX)[5 := 0, 3 := 1, 9 := 2, 9 := 1, 3 := INVALID_INDEX],
          dense = (replicate 64 0)[0 := 5, 1 := 3, 2 := 9, 1 := 9],
          data = (replicate 64 default)[0 := Player 1 2, 1 := Player 3 4, 2 := Player 5 6,
                   1 := Player 5 6],
          count = 2, capacity = 64\<rparr>"
  by (simp add: SparseSet_new_eq eval_defs)

theorem SparseSet_invariant_holds_witness:
  "\<exists>s. SparseSet_run SparseSet_new
          [OpAdd 5 (Player 1 2), OpAdd 3 (Player 3 4), OpAdd 9 (Player 5 6), OpRemove 3] = Inr s \<and>
        Array_get (sparse s) (sint (9 :: Entity)) = Inr 1 \<and> (1 :: 32 word) \<noteq> INVALID_INDEX \<and>
        (1 :: 32 word) < word_of_int (count s) \<and>
        Array_get (dense s) (sint (1 :: 32 word)) = Inr 9 \<and>
        (0 :: int) \<le> 1 \<and> 1 < count s \<and> Array_get (dense s) 1 = Inr 9 \<and>
        Array_get (sparse s) (sint (9 :: Entity)) = Inr (word_of_int 1) \<and>
        count s \<le> capacity s"
proof -
  let ?ops = "[OpAdd 5 (Player 1 2), OpAdd 3 (Player 3 4), OpAdd 9 (Player 5 6), OpRemove 3]"
  let ?S = "\<lparr>sparse = (replicate 10000 INVALID_INDEX)[5 := 0, 3 := 1, 9 := 2, 9 := 1, 3 := INVALID_INDEX],
          dense = (replicate 64 0)[0 := 5, 1 := 3, 2 := 9, 1 := 9],
          data = (replicate 64 default)[0 := Player 1 2, 1 := Player 3 4, 2 := Player 5 6,
                   1 := Player 5 6],
          count = 2, capacity = 64\<rparr>"
  obtain s where s: "SparseSet_run SparseSet_new ?ops = Inr s"
    and fwd: "\<And>e index. Array_get (sparse s) (sint e) = Inr index \<Longrightarrow> index \<noteq> INVALID_INDEX \<Longrightarrow>
              index < word_of_int (count s) \<and> Array_get (dense s) (sint index) = Inr e"
    and bwd: "\<And>i. 0 \<le> i \<Longrightarrow> i < count s \<Longrightarrow>
              (\<exists>d. Array_get (dense s) i = Inr d \<and>
                   Array_get (sparse s) (sint d) = Inr (word_of_int i))"
    and cc: "count s \<le> capacity s"
    using SparseSet_invariant_holds[of ?ops] by blast
  from s[unfolded example_swap_remove] have eq: "s = ?S" by simp
  have h1: "Array_get (sparse s) (sint (9 :: Entity)) = Inr 1"
    and h2: "(1 :: 32 word) \<noteq> INVALID_INDEX"
    and h3: "1 < count s" and h4: "Array_get (dense s) 1 = Inr 9"
    by (simp_all add: eq Array_get_def INVALID_INDEX_def MAX_ENTITIES_def)
  show ?thesis using s fwd[OF h1 h2] bwd[of 1] h1 h2 h3 h4 cc by auto
qed

text \<open>
  Claim C3 as stated fails for an id at or beyond \<open>MAX_ENTITIES\<close>: \<open>Add\<close> returns at its first
  guard, so on a new storage \<open>Add(10000, v)\<close> changes nothing, \<open>Has(10000)\<close> is false and
  \<open>Get(10000)\<close> is \<open>nullptr\<close>.
\<close>

theorem Add_round_trip_counterexample:
  "Add (SparseSet_new :: Player SparseSet) 10000 (Object (Player 1 2)) = Inr SparseSet_new \<and>
   Has (SparseSet_new :: Player SparseSet) 10000 = Inr False \<and>
   Get (SparseSet_new :: Player SparseSet) 10000 = Inr None"
  by (simp add: Add_def Has_def Get_def MAX_ENTITIES_def)

text \<open>
  Claim C3, amended. Round trip: on a storage satisfying the representation invariant (by
  \<open>SparseSet_run_inv\<close>, every storage reached from a new one does), for an entity \<open>e\<close> below
  \<open>MAX_ENTITIES\<close> and a component reference that is valid when \<open>Add\<close> reads it and refers to
  the value \<open>v\<close> (a reference to an object outside the storage, or to an element of the
  storage's own value array when the call does not grow the storage: \<open>refers_to\<close>),
  \<open>Add(e, component)\<close> returns, and immediately afterwards \<open>Has(e)\<close> is true and \<open>Get(e)\<close> is a
  pointer whose target is \<open>v\<close>. The remaining case, a reference to an element of the
  storage's own array passed to a call that grows the storage, is left out here: there the
  code reads the component out of the array \<open>Grow\<close> has just deleted (\<open>Add_dangling\<close>).
\<close>

theorem Add_round_trip:
  fixes s :: "('a::default) SparseSet"
  assumes "SparseSet_inv s" and "e < word_of_int MAX_ENTITIES"
    and "refers_to s e component v"
  shows "\<exists>s' p. Add s e component = Inr s' \<and> Has s' e = Inr True \<and>
           Get s' e = Inr (Some p) \<and> GetData s' p = Inr v"
proof -
  have r: "uint e < MAX_ENTITIES" using assms(2) by (simp add: word_less_def MAX_ENTITIES_def)
  obtain s' where s': "Add s e (Object v) = Inr s'" "SparseSet_inv s'"
    "lookup s' = (lookup s)(e \<mapsto> v)"
    using Add_ok[OF assms(1) r, of v] by blast
  have a: "Add s e component = Inr s'" using Add_refers_to[OF assms(1,3)] s'(1) by simp
  have l: "lookup s' e = Some v" by (simp add: s'(3))
  then have p: "present s' e" by (simp add: lookup_def split: if_splits)
  have h: "Has s' e = Inr True" using p by (simp add: Has_inv[OF s'(2)])
  have g: "Get s' e = Inr (Some (uint (sparse s' ! unat e)))" using p by (simp add: Get_inv[OF s'(2)])
  have "Get_value s' e = Inr (Some v)" using l by (simp add: Get_value_inv[OF s'(2)])
  then have "GetData s' (uint (sparse s' ! unat e)) = Inr v"
    by (simp add: Get_value_def g split: sum.splits)
  then show ?thesis using a h g by blast
qed

theorem Add_round_trip_witness:
  "SparseSet_inv (SparseSet_new :: Player SparseSet) \<and> (5 :: Entity) < word_of_int MAX_ENTITIES \<and>
   refers_to (SparseSet_new :: Player SparseSet) 5 (Object (Player 1 2)) (Player 1 2) \<and>
   (\<exists>s' p. Add SparseSet_new 5 (Object (Player 1 2)) = Inr s' \<and> Has s' 5 = Inr True \<and>
      Get s' 5 = Inr (Some p) \<and> GetData s' p = Inr (Player 1 2)) \<and>
   (\<exists>s. SparseSet_run SparseSet_new
          [OpAdd 5 (Player 1 2), OpAdd 3 (Player 3 4), OpAdd 9 (Player 5 6)] = Inr s \<and>
        SparseSet_inv s \<and> (7 :: Entity) < word_of_int MAX_ENTITIES \<and>
        refers_to s 7 (Element 1) (Player 3 4) \<and>
        (\<exists>s' p. Add s 7 (Element 1) = Inr s' \<and> Has s' 7 = Inr True \<and>
           Get s' 7 = Inr (Some p) \<and> GetData s' p = Inr (Player 3 4)))"
proof -
  let ?S = "\<lparr>sparse = (replicate 10000 INVALID_INDEX)[5 := 0, 3 := 1, 9 := 2],
          dense = (replicate 64 0)[0 := 5, 1 := 3, 2 := 9],
          data = (replicate 64 default)[0 := Player 1 2, 1 := Player 3 4, 2 := Player 5 6],
          count = 3, capacity = 64\<rparr>"
  have a: "SparseSet_inv (SparseSet_new :: Player SparseSet)" by (rule SparseSet_inv_new)
  have b: "(5 :: Entity) < word_of_int MAX_ENTITIES" "(7 :: Entity) < word_of_int MAX_ENTITIES"
    by (simp_all add: MAX_ENTITIES_def)
  have c: "refers_to (SparseSet_new :: Player SparseSet) 5 (Object (Player 1 2)) (Player 1 2)"
    by (simp add: refers_to_def)
  have i: "SparseSet_inv ?S"
    using SparseSet_run_inv[OF SparseSet_inv_new,
        of "[OpAdd 5 (Player 1 2), OpAdd 3 (Player 3 4), OpAdd 9 (Player 5 6)]"]
    unfolding example_adds by simp
  have d: "refers_to ?S 7 (Element 1) (Player 3 4)"
    by (simp add: refers_to_def Array_get_def)
  note w1 = Add_round_trip[OF a b(1) c]
  note w2 = Add_round_trip[OF i b(2) d]
  have p2: "\<exists>s. SparseSet_run SparseSet_new
          [OpAdd 5 (Player 1 2), OpAdd 3 (Player 3 4), OpAdd 9 (Player 5 6)] = Inr s \<and>
        SparseSet_inv s \<and> (7 :: Entity) < word_of_int MAX_ENTITIES \<and>
        refers_to s 7 (Element 1) (Player 3 4) \<and>
        (\<exists>s' p. Add s 7 (Element 1) = Inr s' \<and> Has s' 7 = Inr True \<and>
           Get s' 7 = Inr (Some p) \<and> GetData s' p = Inr (Player 3 4))"
    by (rule exI[of _ ?S], intro conjI) (rule example_adds i b d w2)+
  show ?thesis
    by (intro conjI) (rule a b c w1 p2)+
qed

text \<open>
  The case claim C3 leaves out, on a reachable storage: after 64 insertions the storage is
  full (\<open>count == capacity == 64\<close>). \<open>Add(64, *Get(0))\<close> passes a reference to the element of
  entity 0; the insertion grows the storage, \<open>Grow\<close> deletes the array the reference points
  into, and \<open>data[count] = component\<close> reads it afterwards. The same call with a component
  object of the caller's returns and stores the component.
\<close>

lemma example_full:
  "SparseSet_run SparseSet_new
     [OpAdd 0 (Player 1 2), OpAdd 1 (Player 1 2), OpAdd 2 (Player 1 2), OpAdd 3 (Player 1 2),
      OpAdd 4 (Player 1 2), OpAdd 5 (Player 1 2), OpAdd 6 (Player 1 2), OpAdd 7 (Player 1 2),
      OpAdd 8 (Player 1 2), OpAdd 9 (Player 1 2), OpAdd 10 (Player 1 2), OpAdd 11 (Player 1 2),
      OpAdd 12 (Player 1 2), OpAdd 13 (Player 1 2), OpAdd 14 (Player 1 2), OpAdd 15 (Player 1 2),
      OpAdd 16 (Player 1 2), OpAdd 17 (Player 1 2), OpAdd 18 (Player 1 2), OpAdd 19 (Player 1 2),
      OpAdd 20 (Player 1 2), OpAdd 21 (Player 1 2), OpAdd 22 (Player 1 2), OpAdd 23 (Player 1 2),
      OpAdd 24 (Player 1 2), OpAdd 25 (Player 1 2), OpAdd 26 (Player 1 2), OpAdd 27 (Player 1 2),
      OpAdd 28 (Player 1 2), OpAdd 29 (Player 1 2), OpAdd 30 (Player 1 2), OpAdd 31 (Player 1 2),
      OpAdd 32 (Player 1 2), OpAdd 33 (Player 1 2), OpAdd 34 (Player 1 2), OpAdd 35 (Player 1 2),
      OpAdd 36 (Player 1 2), OpAdd 37 (Player 1 2), OpAdd 38 (Player 1 2), OpAdd 39 (Player 1 2),
      OpAdd 40 (Player 1 2), OpAdd 41 (Player 1 2), OpAdd 42 (Player 1 2), OpAdd 43 (Player 1 2),
      OpAdd 44 (Player 1 2), OpAdd 45 (Player 1 2), OpAdd 46 (Player 1 2), OpAdd 47 (Player 1 2),
      OpAdd 48 (Player 1 2), OpAdd 49 (Player 1 2), OpAdd 50 (Player 1 2), OpAdd 51 (Player 1 2),
      OpAdd 52 (Player 1 2), OpAdd 53 (Player 1 2), OpAdd 54 (Player 1 2), OpAdd 55 (Player 1 2),
      OpAdd 56 (Player 1 2), OpAdd 57 (Player 1 2), OpAdd 58 (Player 1 2), OpAdd 59 (Player 1 2),
      OpAdd 60 (Player 1 2), OpAdd 61 (Player 1 2), OpAdd 62 (Player 1 2), OpAdd 63 (Player 1 2)] =
   Inr \<lparr>sparse = (replicate 10000 INVALID_INDEX)
          [0 := 0, 1 := 1, 2 := 2, 3 := 3, 4 := 4, 5 := 5, 6 := 6, 7 := 7,
           8 := 8, 9 := 9, 10 := 10, 11 := 11, 12 := 12, 13 := 13, 14 := 14, 15 := 15,
           16 := 16, 17 := 17, 18 := 18, 19 := 19, 20 := 20, 21 := 21, 22 := 22, 23 := 23,
           24 := 24, 25 := 25, 26 := 26, 27 := 27, 28 := 28, 29 := 29, 30 := 30, 31 := 31,
           32 := 32, 33 := 33, 34 := 34, 35 := 35, 36 := 36, 37 := 37, 38 := 38, 39 := 39,
           40 := 40, 41 := 41, 42 := 42, 43 := 43, 44 := 44, 45 := 45, 46 := 46, 47 := 47,
           48 := 48, 49 := 49, 50 := 50, 51 := 51, 52 := 52, 53 := 53, 54 := 54, 55 := 55,
           56 := 56, 57 := 57, 58 := 58, 59 := 59, 60 := 60, 61 := 61, 62 := 62, 63 := 63],
        dense = (replicate 64 0)
          [0 := 0, 1 := 1, 2 := 2, 3 := 3, 4 := 4, 5 := 5, 6 := 6, 7 := 7,
           8 := 8, 9 := 9, 10 := 10, 11 := 11, 12 := 12, 13 := 13, 14 := 14, 15 := 15,
           16 := 16, 17 := 17, 18 := 18, 19 := 19, 20 := 20, 21 := 21, 22 := 22, 23 := 23,
           24 := 24, 25 := 25, 26 := 26, 27 := 27, 28 := 28, 29 := 29, 30 := 30, 31 := 31,
           32 := 32, 33 := 33, 34 := 34, 35 := 35, 36 := 36, 37 := 37, 38 := 38, 39 := 39,
           40 := 40, 41 := 41, 42 := 42, 43 := 43, 44 := 44, 45 := 45, 46 := 46, 47 := 47,
           48 := 48, 49 := 49, 50 := 50, 51 := 51, 52 := 52, 53 := 53, 54 := 54, 55 := 55,
           56 := 56, 57 := 57, 58 := 58, 59 := 59, 60 := 60, 61 := 61, 62 := 62, 63 := 63],
        data = (replicate 64 default)
          [0 := Player 1 2, 1 := Player 1 2, 2 := Player 1 2, 3 := Player 1 2, 4 := Player 1 2, 5 := Player 1 2, 6 := Player 1 2, 7 := Player 1 2,
           8 := Player 1 2, 9 := Player 1 2, 10 := Player 1 2, 11 := Player 1 2, 12 := Player 1 2, 13 := Player 1 2, 14 := Player 1 2, 15 := Player 1 2,
           16 := Player 1 2, 17 := Player 1 2, 18 := Player 1 2, 19 := Player 1 2, 20 := Player 1 2, 21 := Player 1 2, 22 := Player 1 2, 23 := Player 1 2,
           24 := Player 1 2, 25 := Player 1 2, 26 := Player 1 2, 27 := Player 1 2, 28 := Player 1 2, 29 := Player 1 2, 30 := Player 1 2, 31 := Player 1 2,
           32 := Player 1 2, 33 := Player 1 2, 34 := Player 1 2, 35 := Player 1 2, 36 := Player 1 2, 37 := Player 1 2, 38 := Player 1 2, 39 := Player 1 2,
           40 := Player 1 2, 41 := Player 1 2, 42 := Player 1 2, 43 := Player 1 2, 44 := Player 1 2, 45 := Player 1 2, 46 := Player 1 2, 47 := Player 1 2,
           48 := Player 1 2, 49 := Player 1 2, 50 := Player 1 2, 51 := Player 1 2, 52 := Player 1 2, 53 := Player 1 2, 54 := Player 1 2, 55 := Player 1 2,
           56 := Player 1 2, 57 := Player 1 2, 58 := Player 1 2, 59 := Player 1 2, 60 := Player 1 2, 61 := Player 1 2, 62 := Player 1 2, 63 := Player 1 2],
        count = 64, capacity = 64\<rparr>"
  by (simp add: SparseSet_new_eq eval_defs)

lemma example_dangling:
  "\<exists>s. SparseSet_run SparseSet_new
     [OpAdd 0 (Player 1 2), OpAdd 1 (Player 1 2), OpAdd 2 (Player 1 2), OpAdd 3 (Player 1 2),
      OpAdd 4 (Player 1 2), OpAdd 5 (Player 1 2), OpAdd 6 (Player 1 2), OpAdd 7 (Player 1 2),
      OpAdd 8 (Player 1 2), OpAdd 9 (Player 1 2), OpAdd 10 (Player 1 2), OpAdd 11 (Player 1 2),
      OpAdd 12 (Player 1 2), OpAdd 13 (Player 1 2), OpAdd 14 (Player 1 2), OpAdd 15 (Player 1 2),
      OpAdd 16 (Player 1 2), OpAdd 17 (Player 1 2), OpAdd 18 (Player 1 2), OpAdd 19 (Player 1 2),
      OpAdd 20 (Player 1 2), OpAdd 21 (Player 1 2), OpAdd 22 (Player 1 2), OpAdd 23 (Player 1 2),
      OpAdd 24 (Player 1 2), OpAdd 25 (Player 1 2), OpAdd 26 (Player 1 2), OpAdd 27 (Player 1 2),
      OpAdd 28 (Player 1 2), OpAdd 29 (Player 1 2), OpAdd 30 (Player 1 2), OpAdd 31 (Player 1 2),
      OpAdd 32 (Player 1 2), OpAdd 33 (Player 1 2), OpAdd 34 (Player 1 2), OpAdd 35 (Player 1 2),
      OpAdd 36 (Player 1 2), OpAdd 37 (Player 1 2), OpAdd 38 (Player 1 2), OpAdd 39 (Player 1 2),
      OpAdd 40 (Player 1 2), OpAdd 41 (Player 1 2), OpAdd 42 (Player 1 2), OpAdd 43 (Player 1 2),
      OpAdd 44 (Player 1 2), OpAdd 45 (Player 1 2), OpAdd 46 (Player 1 2), OpAdd 47 (Player 1 2),
      OpAdd 48 (Player 1 2), OpAdd 49 (Player 1 2), OpAdd 50 (Player 1 2), OpAdd 51 (Player 1 2),
      OpAdd 52 (Player 1 2), OpAdd 53 (Player 1 2), OpAdd 54 (Player 1 2), OpAdd 55 (Player 1 2),
      OpAdd 56 (Player 1 2), OpAdd 57 (Player 1 2), OpAdd 58 (Player 1 2), OpAdd 59 (Player 1 2),
      OpAdd 60 (Player 1 2), OpAdd 61 (Player 1 2), OpAdd 62 (Player 1 2), OpAdd 63 (Player 1 2)] = Inr s \<and>
     Count s = 64 \<and> capacity s = 64 \<and> Get s 0 = Inr (Some 0) \<and>
     GetData s 0 = Inr (Player 1 2) \<and> Has s 64 = Inr False \<and>
     Add s 64 (Element 0) = Inl UseAfterFree \<and>
     (\<exists>s'. Add s 64 (Object (Player 1 2)) = Inr s' \<and> Has s' 64 = Inr True)"
proof -
  let ?ops = "[OpAdd 0 (Player 1 2), OpAdd 1 (Player 1 2), OpAdd 2 (Player 1 2), OpAdd 3 (Player 1 2),
      OpAdd 4 (Player 1 2), OpAdd 5 (Player 1 2), OpAdd 6 (Player 1 2), OpAdd 7 (Player 1 2),
      OpAdd 8 (Player 1 2), OpAdd 9 (Player 1 2), OpAdd 10 (Player 1 2), OpAdd 11 (Player 1 2),
      OpAdd 12 (Player 1 2), OpAdd 13 (Player 1 2), OpAdd 14 (Player 1 2), OpAdd 15 (Player 1 2),
      OpAdd 16 (Player 1 2), OpAdd 17 (Player 1 2), OpAdd 18 (Player 1 2), OpAdd 19 (Player 1 2),
      OpAdd 20 (Player 1 2), OpAdd 21 (Player 1 2), OpAdd 22 (Player 1 2), OpAdd 23 (Player 1 2),
      OpAdd 24 (Player 1 2), OpAdd 25 (Player 1 2), OpAdd 26 (Player 1 2), OpAdd 27 (Player 1 2),
      OpAdd 28 (Player 1 2), OpAdd 29 (Player 1 2), OpAdd 30 (Player 1 2), OpAdd 31 (Player 1 2),
      OpAdd 32 (Player 1 2), OpAdd 33 (Player 1 2), OpAdd 34 (Player 1 2), OpAdd 35 (Player 1 2),
      OpAdd 36 (Player 1 2), OpAdd 37 (Player 1 2), OpAdd 38 (Player 1 2), OpAdd 39 (Player 1 2),
      OpAdd 40 (Player 1 2), OpAdd 41 (Player 1 2), OpAdd 42 (Player 1 2), OpAdd 43 (Player 1 2),
      OpAdd 44 (Player 1 2), OpAdd 45 (Player 1 2), OpAdd 46 (Player 1 2), OpAdd 47 (Player 1 2),
      OpAdd 48 (Player 1 2), OpAdd 49 (Player 1 2), OpAdd 50 (Player 1 2), OpAdd 51 (Player 1 2),
      OpAdd 52 (Player 1 2), OpAdd 53 (Player 1 2), OpAdd 54 (Player 1 2), OpAdd 55 (Player 1 2),
      OpAdd 56 (Player 1 2), OpAdd 57 (Player 1 2), OpAdd 58 (Player 1 2), OpAdd 59 (Player 1 2),
      OpAdd 60 (Player 1 2), OpAdd 61 (Player 1 2), OpAdd 62 (Player 1 2), OpAdd 63 (Player 1 2)]"
  let ?S = "\<lparr>sparse = (replicate 10000 INVALID_INDEX)
          [0 := 0, 1 := 1, 2 := 2, 3 := 3, 4 := 4, 5 := 5, 6 := 6, 7 := 7,
           8 := 8, 9 := 9, 10 := 10, 11 := 11, 12 := 12, 13 := 13, 14 := 14, 15 := 15,
           16 := 16, 17 := 17, 18 := 18, 19 := 19, 20 := 20, 21 := 21, 22 := 22, 23 := 23,
           24 := 24, 25 := 25, 26 := 26, 27 := 27, 28 := 28, 29 := 29, 30 := 30, 31 := 31,
           32 := 32, 33 := 33, 34 := 34, 35 := 35, 36 := 36, 37 := 37, 38 := 38, 39 := 39,
           40 := 40, 41 := 41, 42 := 42, 43 := 43, 44 := 44, 45 := 45, 46 := 46, 47 := 47,
           48 := 48, 49 := 49, 50 := 50, 51 := 51, 52 := 52, 53 := 53, 54 := 54, 55 := 55,
           56 := 56, 57 := 57, 58 := 58, 59 := 59, 60 := 60, 61 := 61, 62 := 62, 63 := 63],
        dense = (replicate 64 0)
          [0 := 0, 1 := 1, 2 := 2, 3 := 3, 4 := 4, 5 := 5, 6 := 6, 7 := 7,
           8 := 8, 9 := 9, 10 := 10, 11 := 11, 12 := 12, 13 := 13, 14 := 14, 15 := 15,
           16 := 16, 17 := 17, 18 := 18, 19 := 19, 20 := 20, 21 := 21, 22 := 22, 23 := 23,
           24 := 24, 25 := 25, 26 := 26, 27 := 27, 28 := 28, 29 := 29, 30 := 30, 31 := 31,
           32 := 32, 33 := 33, 34 := 34, 35 := 35, 36 := 36, 37 := 37, 38 := 38, 39 := 39,
           40 := 40, 41 := 41, 42 := 42, 43 := 43, 44 := 44, 45 := 45, 46 := 46, 47 := 47,
           48 := 48, 49 := 49, 50 := 50, 51 := 51, 52 := 52, 53 := 53, 54 := 54, 55 := 55,
           56 := 56, 57 := 57, 58 := 58, 59 := 59, 60 := 60, 61 := 61, 62 := 62, 63 := 63],
        data = (replicate 64 default)
          [0 := Player 1 2, 1 := Player 1 2, 2 := Player 1 2, 3 := Player 1 2, 4 := Player 1 2, 5 := Player 1 2, 6 := Player 1 2, 7 := Player 1 2,
           8 := Player 1 2, 9 := Player 1 2, 10 := Player 1 2, 11 := Player 1 2, 12 := Player 1 2, 13 := Player 1 2, 14 := Player 1 2, 15 := Player 1 2,
           16 := Player 1 2, 17 := Player 1 2, 18 := Player 1 2, 19 := Player 1 2, 20 := Player 1 2, 21 := Player 1 2, 22 := Player 1 2, 23 := Player 1 2,
           24 := Player 1 2, 25 := Player 1 2, 26 := Player 1 2, 27 := Player 1 2, 28 := Player 1 2, 29 := Player 1 2, 30 := Player 1 2, 31 := Player 1 2,
           32 := Player 1 2, 33 := Player 1 2, 34 := Player 1 2, 35 := Player 1 2, 36 := Player 1 2, 37 := Player 1 2, 38 := Player 1 2, 39 := Player 1 2,
           40 := Player 1 2, 41 := Player 1 2, 42 := Player 1 2, 43 := Player 1 2, 44 := Player 1 2, 45 := Player 1 2, 46 := Player 1 2, 47 := Player 1 2,
           48 := Player 1 2, 49 := Player 1 2, 50 := Player 1 2, 51 := Player 1 2, 52 := Player 1 2, 53 := Player 1 2, 54 := Player 1 2, 55 := Player 1 2,
           56 := Player 1 2, 57 := Player 1 2, 58 := Player 1 2, 59 := Player 1 2, 60 := Player 1 2, 61 := Player 1 2, 62 := Player 1 2, 63 := Player 1 2],
        count = 64, capacity = 64\<rparr>"
  have i: "SparseSet_inv ?S"
    using SparseSet_run_inv[OF SparseSet_inv_new, of ?ops] unfolding example_full by simp
  have r: "uint (64 :: Entity) < MAX_ENTITIES" by (simp add: MAX_ENTITIES_def)
  have h: "Has ?S 64 = Inr False" by (simp add: eval_defs)
  have np: "\<not> present ?S 64" by (simp add: present_def)
  have full: "capacity ?S \<le> count ?S" by simp
  have d: "Add ?S 64 (Element 0) = Inl UseAfterFree" by (rule Add_dangling[OF i r np full])
  have c: "Count ?S = 64" "capacity ?S = 64" by (simp_all add: Count_def)
  have g: "Get ?S 0 = Inr (Some 0)" "GetData ?S 0 = Inr (Player 1 2)" by (simp_all add: eval_defs)
  obtain s' where s': "Add ?S 64 (Object (Player 1 2)) = Inr s'" "SparseSet_inv s'"
    "lookup s' = (lookup ?S)(64 \<mapsto> Player 1 2)"
    using Add_ok[OF i r, of "Player 1 2"] by blast
  have hs: "Has s' 64 = Inr True" by (simp add: Has_lookup[OF s'(2)] s'(3))
  have x: "\<exists>s'. Add ?S 64 (Object (Player 1 2)) = Inr s' \<and> Has s' 64 = Inr True"
    using s'(1) hs by blast
  show ?thesis
    by (rule exI[of _ ?S], intro conjI) (rule example_full c g h d x)+
qed

text \<open>
  Claim C8. Removal isolation: on a storage satisfying the representation invariant (every
  storage reached from a new one does, \<open>SparseSet_run_inv\<close>), \<open>Remove(e)\<close> returns;
  afterwards \<open>Has(e)\<close> is false, and every other entity \<open>e2\<close> that was present before is
  still present and \<open>*Get(e2)\<close> is the value it was before (also for the entity that the
  removal moved into the freed slot).
\<close>

theorem Remove_isolation:
  assumes "SparseSet_inv s"
  shows "\<exists>s'. Remove s e = Inr s' \<and> Has s' e = Inr False \<and>
           (\<forall>e2. e2 \<noteq> e \<longrightarrow> Has s e2 = Inr True \<longrightarrow>
              Has s' e2 = Inr True \<and> Get_value s' e2 = Get_value s e2)"
proof -
  obtain s' where s': "Remove s e = Inr s'" "SparseSet_inv s'" "lookup s' = (lookup s)(e := None)"
    using Remove_ok[OF assms, of e] by blast
  have "Has s' e = Inr False" by (simp add: Has_lookup[OF s'(2)] s'(3))
  moreover have "Has s' e2 = Inr True \<and> Get_value s' e2 = Get_value s e2"
    if "e2 \<noteq> e" "Has s e2 = Inr True" for e2
    using that by (simp add: Has_lookup[OF s'(2)] Has_lookup[OF assms] s'(3)
        Get_value_inv[OF s'(2)] Get_value_inv[OF assms])
  ultimately show ?thesis using s'(1) by blast
qed

lemma example_store_inv:
  "SparseSet_inv \<lparr>sparse = (replicate 10000 INVALID_INDEX)[5 := 0, 3 := 1, 9 := 2],
          dense = (replicate 64 0)[0 := 5, 1 := 3, 2 := 9],
          data = (replicate 64 default)[0 := Player 1 2, 1 := Player 3 4, 2 := Player 5 6],
          count = 3, capacity = 64\<rparr>"
  using SparseSet_run_inv[OF SparseSet_inv_new,
      of "[OpAdd 5 (Player 1 2), OpAdd 3 (Player 3 4), OpAdd 9 (Player 5 6)]"]
  unfolding example_adds by simp

theorem Remove_isolation_witness:
  "\<exists>s s'. SparseSet_run SparseSet_new
             [OpAdd 5 (Player 1 2), OpAdd 3 (Player 3 4), OpAdd 9 (Player 5 6)] = Inr s \<and>
          SparseSet_inv s \<and> Remove s 3 = Inr s' \<and> Has s' 3 = Inr False \<and>
          (9 :: Entity) \<noteq> 3 \<and> Has s 9 = Inr True \<and> Has s' 9 = Inr True \<and>
          Get_value s 9 = Inr (Some (Player 5 6)) \<and> Get_value s' 9 = Inr (Some (Player 5 6))"
proof -
  let ?S = "\<lparr>sparse = (replicate 10000 INVALID_INDEX)[5 := 0, 3 := 1, 9 := 2],
          dense = (replicate 64 0)[0 := 5, 1 := 3, 2 := 9],
          data = (replicate 64 default)[0 := Player 1 2, 1 := Player 3 4, 2 := Player 5 6],
          count = 3, capacity = 64\<rparr>"
  have inv: "SparseSet_inv ?S" by (rule example_store_inv)
  obtain s' where s': "Remove ?S 3 = Inr s'" "Has s' 3 = Inr False"
    and iso: "\<And>e2. e2 \<noteq> 3 \<Longrightarrow> Has ?S e2 = Inr True \<Longrightarrow>
              Has s' e2 = Inr True \<and> Get_value s' e2 = Get_value ?S e2"
    using Remove_isolation[OF inv, of 3] by blast
  have h: "Has ?S 9 = Inr True" by (simp add: eval_defs)
  have g: "Get_value ?S 9 = Inr (Some (Player 5 6))" by (simp add: eval_defs)
  have n: "(9 :: Entity) \<noteq> 3" by simp
  show ?thesis using example_adds inv s' iso[OF n h] h g n by auto
qed

text \<open>
  Claim C10. Overwrite frame: on a storage satisfying the representation invariant (every
  storage reached from a new one does, \<open>SparseSet_run_inv\<close>), \<open>Add(e, component)\<close> for an entity
  \<open>e\<close> that is already present, where the component reference refers to the value \<open>v\<close>
  (\<open>refers_to\<close>: any object outside the storage holding \<open>v\<close>, or an element of the storage's
  own value array holding \<open>v\<close>), returns and changes only the value stored for \<open>e\<close>. \<open>Count()\<close>
  and the capacity are as before, no array is reallocated or resized, \<open>sparse\<close> and \<open>dense\<close>
  are unchanged, so \<open>Has\<close> and the pointer \<open>Get\<close> returns are the same for every entity, \<open>e\<close>
  included; \<open>*Get(e)\<close> is now \<open>v\<close> and \<open>*Get(e2)\<close> is as before for every other entity \<open>e2\<close>.
\<close>

theorem Add_overwrite_frame:
  fixes s :: "('a::default) SparseSet"
  assumes "SparseSet_inv s" and "Has s e = Inr True" and "refers_to s e component v"
  shows "\<exists>s'. Add s e component = Inr s' \<and> Count s' = Count s \<and> capacity s' = capacity s \<and>
           length (dense s') = length (dense s) \<and> length (data s') = length (data s) \<and>
           sparse s' = sparse s \<and> dense s' = dense s \<and>
           (\<forall>e2. Has s' e2 = Has s e2 \<and> Get s' e2 = Get s e2) \<and>
           Get_value s' e = Inr (Some v) \<and>
           (\<forall>e2. e2 \<noteq> e \<longrightarrow> Get_value s' e2 = Get_value s e2)"
proof -
  let ?s' = "s\<lparr>data := (data s)[unat (sparse s ! unat e) := v]\<rparr>"
  have p: "present s e" using assms by (simp add: Has_inv)
  have a: "Add s e component = Inr ?s'"
    using Add_refers_to[OF assms(1,3)] Add_present[OF assms(1) p, of v] by simp
  have "length ((data s)[unat (sparse s ! unat e) := v]) = length (data s)" by simp
  then have inv': "SparseSet_inv ?s'" by (rule inv_data_update[OF assms(1)])
  have l: "lookup ?s' = (lookup s)(e \<mapsto> v)" by (rule lookup_Add_present[OF assms(1) p])
  have pe: "present ?s' e2 = present s e2" for e2 by (simp add: present_def)
  have hg: "Has ?s' e2 = Has s e2 \<and> Get ?s' e2 = Get s e2" for e2
    by (simp add: Has_inv[OF inv'] Has_inv[OF assms(1)] Get_inv[OF inv'] Get_inv[OF assms(1)] pe)
  have v1: "Get_value ?s' e = Inr (Some v)" by (simp add: Get_value_inv[OF inv'] l)
  have v2: "Get_value ?s' e2 = Get_value s e2" if "e2 \<noteq> e" for e2
    using that by (simp add: Get_value_inv[OF inv'] Get_value_inv[OF assms(1)] l)
  show ?thesis using a hg v1 v2 by (intro exI[of _ ?s']) (simp add: Count_def)
qed

theorem Add_overwrite_frame_witness:
  "\<exists>s s'. SparseSet_run SparseSet_new
             [OpAdd 5 (Player 1 2), OpAdd 3 (Player 3 4), OpAdd 9 (Player 5 6)] = Inr s \<and>
          SparseSet_inv s \<and> Has s 3 = Inr True \<and>
          refers_to s 3 (Object (Player 7 8)) (Player 7 8) \<and>
          Add s 3 (Object (Player 7 8)) = Inr s' \<and>
          Count s' = 3 \<and> capacity s' = 64 \<and> dense s' = dense s \<and> sparse s' = sparse s \<and>
          Get s' 3 = Inr (Some 1) \<and> Get s 3 = Inr (Some 1) \<and>
          Get_value s' 3 = Inr (Some (Player 7 8)) \<and> (9 :: Entity) \<noteq> 3 \<and>
          Get_value s' 9 = Inr (Some (Player 5 6)) \<and> Get_value s 9 = Inr (Some (Player 5 6))"
proof -
  let ?S = "\<lparr>sparse = (replicate 10000 INVALID_INDEX)[5 := 0, 3 := 1, 9 := 2],
          dense = (replicate 64 0)[0 := 5, 1 := 3, 2 := 9],
          data = (replicate 64 default)[0 := Player 1 2, 1 := Player 3 4, 2 := Player 5 6],
          count = 3, capacity = 64\<rparr>"
  have inv: "SparseSet_inv ?S" by (rule example_store_inv)
  have h: "Has ?S 3 = Inr True" by (simp add: eval_defs)
  have rt: "refers_to ?S 3 (Object (Player 7 8)) (Player 7 8)" by (simp add: refers_to_def)
  obtain s' where s': "Add ?S 3 (Object (Player 7 8)) = Inr s'" "Count s' = Count ?S"
    "capacity s' = capacity ?S" "sparse s' = sparse ?S" "dense s' = dense ?S"
    "\<And>e2. Has s' e2 = Has ?S e2 \<and> Get s' e2 = Get ?S e2"
    "Get_value s' 3 = Inr (Some (Player 7 8))"
    "\<And>e2. e2 \<noteq> 3 \<Longrightarrow> Get_value s' e2 = Get_value ?S e2"
    using Add_overwrite_frame[OF inv h rt] by blast
  have g: "Get ?S 3 = Inr (Some 1)" by (simp add: eval_defs)
  have gv: "Get_value ?S 9 = Inr (Some (Player 5 6))" by (simp add: eval_defs)
  have n: "(9 :: Entity) \<noteq> 3" by simp
  have c: "Count ?S = 3" "capacity ?S = 64" by (simp_all add: Count_def)
  show ?thesis
    using example_adds inv h rt s'(1-5) s'(6)[of 3] s'(7) s'(8)[OF n] g gv n c
    by (intro exI[of _ ?S] exI[of _ s']) simp
qed

text \<open>
  Claim C7 as stated fails for the positional accessors: they index the dense arrays without
  a check. On a new storage \<open>Count()\<close> is 0 and the arrays are empty, so index 0 is out of
  bounds, and \<open>GetEntity(0)\<close> and \<open>GetData(0)\<close> are out-of-bounds array accesses, not no-ops.
\<close>

theorem positional_accessors_counterexample:
  "GetEntity (SparseSet_new :: Player SparseSet) 0 = Inl OutOfBounds \<and>
   GetData (SparseSet_new :: Player SparseSet) 0 = Inl OutOfBounds"
  by (simp add: SparseSet_new_eq GetEntity_def GetData_def Array_get_def)

text \<open>
  Claim C7, amended. An entity at or beyond \<open>MAX_ENTITIES\<close> passed to \<open>Add\<close>, \<open>Remove\<close>, \<open>Get\<close> or
  \<open>Has\<close> is a defensive no-op on any storage, whatever the component reference: the storage is
  returned unchanged, \<open>Get\<close> returns
  \<open>nullptr\<close>, \<open>Has\<close> returns false, and nothing fails. \<open>GetEntity(index)\<close> and
  \<open>GetData(index)\<close> check nothing: on a storage satisfying the representation invariant they
  return the content of the dense slot for \<open>0 <= index < capacity\<close> (also when
  \<open>index >= Count()\<close>), and for every other index the access is out of bounds.
\<close>

theorem invalid_input_handling:
  fixes s :: "('a::default) SparseSet"
  shows "(word_of_int MAX_ENTITIES \<le> e \<longrightarrow>
            Add s e component = Inr s \<and> Remove s e = Inr s \<and> Get s e = Inr None \<and>
            Has s e = Inr False) \<and>
         (SparseSet_inv s \<longrightarrow> 0 \<le> index \<longrightarrow> index < capacity s \<longrightarrow>
            GetEntity s index = Inr (dense s ! nat index) \<and>
            GetData s index = Inr (data s ! nat index)) \<and>
         (SparseSet_inv s \<longrightarrow> index < 0 \<or> capacity s \<le> index \<longrightarrow>
            GetEntity s index = Inl OutOfBounds \<and> GetData s index = Inl OutOfBounds)"
proof -
  have a: "Add s e component = Inr s \<and> Remove s e = Inr s \<and> Get s e = Inr None \<and>
           Has s e = Inr False"
    if "word_of_int MAX_ENTITIES \<le> e"
    using that by (simp add: Add_def Remove_def Get_def Has_def)
  have b: "GetEntity s index = Inr (dense s ! nat index) \<and>
           GetData s index = Inr (data s ! nat index)"
    if "SparseSet_inv s" "0 \<le> index" "index < capacity s"
    using that inv_sizes(6,7)[OF that(1)] by (simp add: GetEntity_def GetData_def Array_get_ok)
  have c: "GetEntity s index = Inl OutOfBounds \<and> GetData s index = Inl OutOfBounds"
    if "SparseSet_inv s" "index < 0 \<or> capacity s \<le> index"
    using that inv_sizes(6,7)[OF that(1)] by (auto simp add: GetEntity_def GetData_def Array_get_def)
  show ?thesis using a b c by blast
qed

theorem invalid_input_handling_witness:
  "\<exists>s. SparseSet_run SparseSet_new
          [OpAdd 5 (Player 1 2), OpAdd 3 (Player 3 4), OpAdd 9 (Player 5 6)] = Inr s \<and>
        SparseSet_inv s \<and> word_of_int MAX_ENTITIES \<le> (10000 :: Entity) \<and>
        Add s 10000 (Object (Player 7 8)) = Inr s \<and> Add s 10000 (Element 0) = Inr s \<and>
        Remove s 10000 = Inr s \<and>
        Get s 10000 = Inr None \<and> Has s 10000 = Inr False \<and>
        (0 :: int) \<le> 2 \<and> 2 < capacity s \<and> GetEntity s 2 = Inr 9 \<and>
        GetData s 2 = Inr (Player 5 6) \<and>
        capacity s \<le> 64 \<and> GetEntity s 64 = Inl OutOfBounds \<and> GetData s 64 = Inl OutOfBounds"
proof -
  let ?S = "\<lparr>sparse = (replicate 10000 INVALID_INDEX)[5 := 0, 3 := 1, 9 := 2],
          dense = (replicate 64 0)[0 := 5, 1 := 3, 2 := 9],
          data = (replicate 64 default)[0 := Player 1 2, 1 := Player 3 4, 2 := Player 5 6],
          count = 3, capacity = 64\<rparr>"
  have inv: "SparseSet_inv ?S" by (rule example_store_inv)
  have r: "word_of_int MAX_ENTITIES \<le> (10000 :: Entity)" by (simp add: MAX_ENTITIES_def)
  have c: "(0 :: int) \<le> 2" "2 < capacity ?S" "capacity ?S \<le> 64" by simp_all
  have d: "dense ?S ! nat 2 = 9" "data ?S ! nat 2 = Player 5 6" by simp_all
  show ?thesis
    using example_adds inv r c d
      invalid_input_handling[of 10000 ?S "Object (Player 7 8)" 2]
      invalid_input_handling[of 10000 ?S "Element 0" 2]
      invalid_input_handling[of 10000 ?S "Object (Player 7 8)" 64]
    by (intro exI[of _ ?S]) simp
qed

section \<open>Properties of the registry\<close>

lemma World_inv_new: "World_inv World_new"
  by (simp add: World_inv_def World_new_def SparseSet_inv_new)

lemma Add_effect:
  fixes s :: "('a::default) SparseSet"
  assumes inv: "SparseSet_inv s" and r: "e < word_of_int MAX_ENTITIES"
    and rt: "refers_to s e component v"
  shows "\<exists>s'. Add s e component = Inr s' \<and> SparseSet_inv s' \<and> Has s' e = Inr True \<and>
           Get_value s' e = Inr (Some v) \<and>
           (\<forall>e2. e2 \<noteq> e \<longrightarrow> Has s' e2 = Has s e2 \<and> Get_value s' e2 = Get_value s e2)"
proof -
  have r': "uint e < MAX_ENTITIES" using r by (simp add: word_less_def MAX_ENTITIES_def)
  obtain s' where s': "Add s e (Object v) = Inr s'" "SparseSet_inv s'"
    "lookup s' = (lookup s)(e \<mapsto> v)"
    using Add_ok[OF inv r', of v] by blast
  have a: "Add s e component = Inr s'" using Add_refers_to[OF inv rt] s'(1) by simp
  have "Has s' e = Inr True" by (simp add: Has_lookup[OF s'(2)] s'(3))
  moreover have "Get_value s' e = Inr (Some v)" by (simp add: Get_value_inv[OF s'(2)] s'(3))
  moreover have "Has s' e2 = Has s e2 \<and> Get_value s' e2 = Get_value s e2" if "e2 \<noteq> e" for e2
    using that by (simp add: Has_lookup[OF s'(2)] Has_lookup[OF inv] s'(3)
        Get_value_inv[OF s'(2)] Get_value_inv[OF inv])
  ultimately show ?thesis using a s'(2) by blast
qed

lemma refers_to_Object [simp]: "refers_to s e (Object v) v"
  by (simp add: refers_to_def)

lemma NULL_ENTITY_in_range: "NULL_ENTITY < word_of_int MAX_ENTITIES"
  by (simp add: NULL_ENTITY_def MAX_ENTITIES_def)

lemma Has_new: "Has SparseSet_new e = Inr False"
  by (simp add: Has_inv[OF SparseSet_inv_new] present_new)

lemma AddTransform_effect:
  assumes "World_inv w" and "e < word_of_int MAX_ENTITIES"
    and "refers_to (transforms w) e component v"
  shows "\<exists>w'. AddTransform w e component = Inr w' \<and> World_inv w' \<and> w' = w\<lparr>transforms := transforms w'\<rparr> \<and>
           HasTransform w' e = Inr True \<and> Get_value (transforms w') e = Inr (Some v) \<and>
           (\<forall>e2. e2 \<noteq> e \<longrightarrow> HasTransform w' e2 = HasTransform w e2 \<and>
              Get_value (transforms w') e2 = Get_value (transforms w) e2)"
proof -
  have inv: "SparseSet_inv (transforms w)" using assms(1) by (simp add: World_inv_def)
  obtain s' where s': "Add (transforms w) e component = Inr s'" "SparseSet_inv s'" "Has s' e = Inr True"
    "Get_value s' e = Inr (Some v)"
    "\<And>e2. e2 \<noteq> e \<Longrightarrow> Has s' e2 = Has (transforms w) e2 \<and> Get_value s' e2 = Get_value (transforms w) e2"
    using Add_effect[OF inv assms(2,3)] by blast
  have "World_inv (w\<lparr>transforms := s'\<rparr>)" using assms(1) s'(2) by (simp add: World_inv_def)
  then show ?thesis
    using s' by (intro exI[of _ "w\<lparr>transforms := s'\<rparr>"]) (simp add: AddTransform_def HasTransform_def)
qed

lemma AddSprite_effect:
  assumes "World_inv w" and "e < word_of_int MAX_ENTITIES"
    and "refers_to (sprites w) e component v"
  shows "\<exists>w'. AddSprite w e component = Inr w' \<and> World_inv w' \<and> w' = w\<lparr>sprites := sprites w'\<rparr> \<and>
           HasSprite w' e = Inr True \<and> Get_value (sprites w') e = Inr (Some v) \<and>
           (\<forall>e2. e2 \<noteq> e \<longrightarrow> HasSprite w' e2 = HasSprite w e2 \<and>
              Get_value (sprites w') e2 = Get_value (sprites w) e2)"
proof -
  have inv: "SparseSet_inv (sprites w)" using assms(1) by (simp add: World_inv_def)
  obtain s' where s': "Add (sprites w) e component = Inr s'" "SparseSet_inv s'" "Has s' e = Inr True"
    "Get_value s' e = Inr (Some v)"
    "\<And>e2. e2 \<noteq> e \<Longrightarrow> Has s' e2 = Has (sprites w) e2 \<and> Get_value s' e2 = Get_value (sprites w) e2"
    using Add_effect[OF inv assms(2,3)] by blast
  have "World_inv (w\<lparr>sprites := s'\<rparr>)" using assms(1) s'(2) by (simp add: World_inv_def)
  then show ?thesis
    using s' by (intro exI[of _ "w\<lparr>sprites := s'\<rparr>"]) (simp add: AddSprite_def HasSprite_def)
qed

lemma AddAnimation_effect:
  assumes "World_inv w" and "e < word_of_int MAX_ENTITIES"
    and "refers_to (animations w) e component v"
  shows "\<exists>w'. AddAnimation w e component = Inr w' \<and> World_inv w' \<and> w' = w\<lparr>animations := animations w'\<rparr> \<and>
           HasAnimation w' e = Inr True \<and> Get_value (animations w') e = Inr (Some v) \<and>
           (\<forall>e2. e2 \<noteq> e \<longrightarrow> HasAnimation w' e2 = HasAnimation w e2 \<and>
              Get_value (animations w') e2 = Get_value (animations w) e2)"
proof -
  have inv: "SparseSet_inv (animations w)" using assms(1) by (simp add: World_inv_def)
  obtain s' where s': "Add (animations w) e component = Inr s'" "SparseSet_inv s'" "Has s' e = Inr True"
    "Get_value s' e = Inr (Some v)"
    "\<And>e2. e2 \<noteq> e \<Longrightarrow> Has s' e2 = Has (animations w) e2 \<and> Get_value s' e2 = Get_value (animations w) e2"
    using Add_effect[OF inv assms(2,3)] by blast
  have "World_inv (w\<lparr>animations := s'\<rparr>)" using assms(1) s'(2) by (simp add: World_inv_def)
  then show ?thesis
    using s' by (intro exI[of _ "w\<lparr>animations := s'\<rparr>"]) (simp add: AddAnimation_def HasAnimation_def)
qed

lemma AddPhysics_effect:
  assumes "World_inv w" and "e < word_of_int MAX_ENTITIES"
    and "refers_to (physics w) e component v"
  shows "\<exists>w'. AddPhysics w e component = Inr w' \<and> World_inv w' \<and> w' = w\<lparr>physics := physics w'\<rparr> \<and>
           HasPhysics w' e = Inr True \<and> Get_value (physics w') e = Inr (Some v) \<and>
           (\<forall>e2. e2 \<noteq> e \<longrightarrow> HasPhysics w' e2 = HasPhysics w e2 \<and>
              Get_value (physics w') e2 = Get_value (physics w) e2)"
proof -
  have inv: "SparseSet_inv (physics w)" using assms(1) by (simp add: World_inv_def)
  obtain s' where s': "Add (physics w) e component = Inr s'" "SparseSet_inv s'" "Has s' e = Inr True"
    "Get_value s' e = Inr (Some v)"
    "\<And>e2. e2 \<noteq> e \<Longrightarrow> Has s' e2 = Has (physics w) e2 \<and> Get_value s' e2 = Get_value (physics w) e2"
    using Add_effect[OF inv assms(2,3)] by blast
  have "World_inv (w\<lparr>physics := s'\<rparr>)" using assms(1) s'(2) by (simp add: World_inv_def)
  then show ?thesis
    using s' by (intro exI[of _ "w\<lparr>physics := s'\<rparr>"]) (simp add: AddPhysics_def HasPhysics_def)
qed

lemma AddCollider_effect:
  assumes "World_inv w" and "e < word_of_int MAX_ENTITIES"
    and "refers_to (colliders w) e component v"
  shows "\<exists>w'. AddCollider w e component = Inr w' \<and> World_inv w' \<and> w' = w\<lparr>colliders := colliders w'\<rparr> \<and>
           HasCollider w' e = Inr True \<and> Get_value (colliders w') e = Inr (Some v) \<and>
           (\<forall>e2. e2 \<noteq> e \<longrightarrow> HasCollider w' e2 = HasCollider w e2 \<and>
              Get_value (colliders w') e2 = Get_value (colliders w) e2)"
proof -
  have inv: "SparseSet_inv (colliders w)" using assms(1) by (simp add: World_inv_def)
  obtain s' where s': "Add (colliders w) e component = Inr s'" "SparseSet_inv s'" "Has s' e = Inr True"
    "Get_value s' e = Inr (Some v)"
    "\<And>e2. e2 \<noteq> e \<Longrightarrow> Has s' e2 = Has (colliders w) e2 \<and> Get_value s' e2 = Get_value (colliders w) e2"
    using Add_effect[OF inv assms(2,3)] by blast
  have "World_inv (w\<lparr>colliders := s'\<rparr>)" using assms(1) s'(2) by (simp add: World_inv_def)
  then show ?thesis
    using s' by (intro exI[of _ "w\<lparr>colliders := s'\<rparr>"]) (simp add: AddCollider_def HasCollider_def)
qed

lemma AddCollisionState_effect:
  assumes "World_inv w" and "e < word_of_int MAX_ENTITIES"
    and "refers_to (collisionStates w) e component v"
  shows "\<exists>w'. AddCollisionState w e component = Inr w' \<and> World_inv w' \<and> w' = w\<lparr>collisionStates := collisionStates w'\<rparr> \<and>
           HasCollisionState w' e = Inr True \<and> Get_value (collisionStates w') e = Inr (Some v) \<and>
           (\<forall>e2. e2 \<noteq> e \<longrightarrow> HasCollisionState w' e2 = HasCollisionState w e2 \<and>
              Get_value (collisionStates w') e2 = Get_value (collisionStates w) e2)"
proof -
  have inv: "SparseSet_inv (collisionStates w)" using assms(1) by (simp add: World_inv_def)
  obtain s' where s': "Add (collisionStates w) e component = Inr s'" "SparseSet_inv s'" "Has s' e = Inr True"
    "Get_value s' e = Inr (Some v)"
    "\<And>e2. e2 \<noteq> e \<Longrightarrow> Has s' e2 = Has (collisionStates w) e2 \<and> Get_value s' e2 = Get_value (collisionStates w) e2"
    using Add_effect[OF inv assms(2,3)] by blast
  have "World_inv (w\<lparr>collisionStates := s'\<rparr>)" using assms(1) s'(2) by (simp add: World_inv_def)
  then show ?thesis
    using s' by (intro exI[of _ "w\<lparr>collisionStates := s'\<rparr>"]) (simp add: AddCollisionState_def HasCollisionState_def)
qed

lemma AddPlayer_effect:
  assumes "World_inv w" and "e < word_of_int MAX_ENTITIES"
    and "refers_to (players w) e component v"
  shows "\<exists>w'. AddPlayer w e component = Inr w' \<and> World_inv w' \<and> w' = w\<lparr>players := players w'\<rparr> \<and>
           HasPlayer w' e = Inr True \<and> Get_value (players w') e = Inr (Some v) \<and>
           (\<forall>e2. e2 \<noteq> e \<longrightarrow> HasPlayer w' e2 = HasPlayer w e2 \<and>
              Get_value (players w') e2 = Get_value (players w) e2)"
proof -
  have inv: "SparseSet_inv (players w)" using assms(1) by (simp add: World_inv_def)
  obtain s' where s': "Add (players w) e component = Inr s'" "SparseSet_inv s'" "Has s' e = Inr True"
    "Get_value s' e = Inr (Some v)"
    "\<And>e2. e2 \<noteq> e \<Longrightarrow> Has s' e2 = Has (players w) e2 \<and> Get_value s' e2 = Get_value (players w) e2"
    using Add_effect[OF inv assms(2,3)] by blast
  have "World_inv (w\<lparr>players := s'\<rparr>)" using assms(1) s'(2) by (simp add: World_inv_def)
  then show ?thesis
    using s' by (intro exI[of _ "w\<lparr>players := s'\<rparr>"]) (simp add: AddPlayer_def HasPlayer_def)
qed

lemma Remove_effect:
  assumes inv: "SparseSet_inv s"
  shows "\<exists>s'. Remove s e = Inr s' \<and> SparseSet_inv s' \<and> Has s' e = Inr False \<and>
           (Has s e = Inr False \<longrightarrow> s' = s)"
proof -
  obtain s' where s': "Remove s e = Inr s'" "SparseSet_inv s'" "lookup s' = (lookup s)(e := None)"
    using Remove_ok[OF inv, of e] by blast
  have "Has s' e = Inr False" by (simp add: Has_lookup[OF s'(2)] s'(3))
  moreover have "s' = s" if "Has s e = Inr False"
  proof -
    have "\<not> present s e" using that by (simp add: Has_inv[OF inv])
    then show ?thesis using Remove_absent[OF inv] s'(1) by simp
  qed
  ultimately show ?thesis using s'(1,2) by blast
qed

text \<open>
  Claim C9. Destroy-all: on a registry whose storages satisfy the representation invariant
  (every registry reached from a new one is such, \<open>World_reachable_inv\<close> below),
  \<open>DestroyEntity(e)\<close> returns for every entity \<open>e\<close>; each of the seven storages of the result is
  what \<open>Remove(e)\<close> returns on the corresponding storage, whether or not \<open>e\<close> was in it;
  afterwards \<open>HasX(e)\<close> is false for each of the seven kinds; and a storage that did not hold
  \<open>e\<close> is unchanged.
\<close>

theorem DestroyEntity_removes_all:
  assumes "World_inv w"
  shows "\<exists>w'. DestroyEntity w e = Inr w' \<and> World_inv w' \<and> nextEntity w' = nextEntity w \<and>
           Remove (transforms w) e = Inr (transforms w') \<and>
           Remove (sprites w) e = Inr (sprites w') \<and>
           Remove (animations w) e = Inr (animations w') \<and>
           Remove (physics w) e = Inr (physics w') \<and>
           Remove (colliders w) e = Inr (colliders w') \<and>
           Remove (collisionStates w) e = Inr (collisionStates w') \<and>
           Remove (players w) e = Inr (players w') \<and>
           HasTransform w' e = Inr False \<and> HasSprite w' e = Inr False \<and>
           HasAnimation w' e = Inr False \<and> HasPhysics w' e = Inr False \<and>
           HasCollider w' e = Inr False \<and> HasCollisionState w' e = Inr False \<and>
           HasPlayer w' e = Inr False \<and>
           (HasTransform w e = Inr False \<longrightarrow> transforms w' = transforms w) \<and>
           (HasSprite w e = Inr False \<longrightarrow> sprites w' = sprites w) \<and>
           (HasAnimation w e = Inr False \<longrightarrow> animations w' = animations w) \<and>
           (HasPhysics w e = Inr False \<longrightarrow> physics w' = physics w) \<and>
           (HasCollider w e = Inr False \<longrightarrow> colliders w' = colliders w) \<and>
           (HasCollisionState w e = Inr False \<longrightarrow> collisionStates w' = collisionStates w) \<and>
           (HasPlayer w e = Inr False \<longrightarrow> players w' = players w)"
proof -
  have i: "SparseSet_inv (transforms w)" "SparseSet_inv (sprites w)"
    "SparseSet_inv (animations w)" "SparseSet_inv (physics w)" "SparseSet_inv (colliders w)"
    "SparseSet_inv (collisionStates w)" "SparseSet_inv (players w)"
    using assms by (simp_all add: World_inv_def)
  obtain s1 where s1: "Remove (transforms w) e = Inr s1" "SparseSet_inv s1"
    "Has s1 e = Inr False" "Has (transforms w) e = Inr False \<longrightarrow> s1 = transforms w"
    using Remove_effect[OF i(1), of e] by blast
  obtain s2 where s2: "Remove (sprites w) e = Inr s2" "SparseSet_inv s2"
    "Has s2 e = Inr False" "Has (sprites w) e = Inr False \<longrightarrow> s2 = sprites w"
    using Remove_effect[OF i(2), of e] by blast
  obtain s3 where s3: "Remove (animations w) e = Inr s3" "SparseSet_inv s3"
    "Has s3 e = Inr False" "Has (animations w) e = Inr False \<longrightarrow> s3 = animations w"
    using Remove_effect[OF i(3), of e] by blast
  obtain s4 where s4: "Remove (physics w) e = Inr s4" "SparseSet_inv s4"
    "Has s4 e = Inr False" "Has (physics w) e = Inr False \<longrightarrow> s4 = physics w"
    using Remove_effect[OF i(4), of e] by blast
  obtain s5 where s5: "Remove (colliders w) e = Inr s5" "SparseSet_inv s5"
    "Has s5 e = Inr False" "Has (colliders w) e = Inr False \<longrightarrow> s5 = colliders w"
    using Remove_effect[OF i(5), of e] by blast
  obtain s6 where s6: "Remove (collisionStates w) e = Inr s6" "SparseSet_inv s6"
    "Has s6 e = Inr False" "Has (collisionStates w) e = Inr False \<longrightarrow> s6 = collisionStates w"
    using Remove_effect[OF i(6), of e] by blast
  obtain s7 where s7: "Remove (players w) e = Inr s7" "SparseSet_inv s7"
    "Has s7 e = Inr False" "Has (players w) e = Inr False \<longrightarrow> s7 = players w"
    using Remove_effect[OF i(7), of e] by blast
  let ?w' = "w\<lparr>transforms := s1, sprites := s2, animations := s3, physics := s4,
               colliders := s5, collisionStates := s6, players := s7\<rparr>"
  have d: "DestroyEntity w e = Inr ?w'"
    by (simp add: DestroyEntity_def s1(1) s2(1) s3(1) s4(1) s5(1) s6(1) s7(1))
  have wi: "World_inv ?w'"
    by (simp add: World_inv_def s1(2) s2(2) s3(2) s4(2) s5(2) s6(2) s7(2))
  have h: "HasTransform ?w' e = Inr False" "HasSprite ?w' e = Inr False"
    "HasAnimation ?w' e = Inr False" "HasPhysics ?w' e = Inr False"
    "HasCollider ?w' e = Inr False" "HasCollisionState ?w' e = Inr False"
    "HasPlayer ?w' e = Inr False"
    by (simp_all add: HasTransform_def HasSprite_def HasAnimation_def HasPhysics_def
        HasCollider_def HasCollisionState_def HasPlayer_def s1(3) s2(3) s3(3) s4(3) s5(3)
        s6(3) s7(3))
  have k: "HasTransform w e = Inr False \<longrightarrow> transforms ?w' = transforms w"
    "HasSprite w e = Inr False \<longrightarrow> sprites ?w' = sprites w"
    "HasAnimation w e = Inr False \<longrightarrow> animations ?w' = animations w"
    "HasPhysics w e = Inr False \<longrightarrow> physics ?w' = physics w"
    "HasCollider w e = Inr False \<longrightarrow> colliders ?w' = colliders w"
    "HasCollisionState w e = Inr False \<longrightarrow> collisionStates ?w' = collisionStates w"
    "HasPlayer w e = Inr False \<longrightarrow> players ?w' = players w"
    using s1(4) s2(4) s3(4) s4(4) s5(4) s6(4) s7(4)
    by (simp_all add: HasTransform_def HasSprite_def HasAnimation_def HasPhysics_def
        HasCollider_def HasCollisionState_def HasPlayer_def)
  have rm: "Remove (transforms w) e = Inr (transforms ?w')"
    "Remove (sprites w) e = Inr (sprites ?w')"
    "Remove (animations w) e = Inr (animations ?w')"
    "Remove (physics w) e = Inr (physics ?w')"
    "Remove (colliders w) e = Inr (colliders ?w')"
    "Remove (collisionStates w) e = Inr (collisionStates ?w')"
    "Remove (players w) e = Inr (players ?w')"
    by (simp_all add: s1(1) s2(1) s3(1) s4(1) s5(1) s6(1) s7(1))
  have ne: "nextEntity ?w' = nextEntity w" by simp
  show ?thesis
    using d wi ne rm h k by (intro exI[of _ ?w']) blast
qed

theorem DestroyEntity_removes_all_witness:
  "\<exists>w1 w2 w'. AddTransform World_new 1 (Object default) = Inr w1 \<and> AddPhysics w1 1 (Object default) = Inr w2 \<and>
      World_inv w2 \<and> HasTransform w2 1 = Inr True \<and> HasPhysics w2 1 = Inr True \<and>
      HasSprite w2 1 = Inr False \<and>
      DestroyEntity w2 1 = Inr w' \<and> HasTransform w' 1 = Inr False \<and>
      HasPhysics w' 1 = Inr False \<and> HasSprite w' 1 = Inr False \<and> sprites w' = sprites w2"
proof -
  have r: "(1 :: Entity) < word_of_int MAX_ENTITIES" by (simp add: MAX_ENTITIES_def)
  obtain w1 where w1: "AddTransform World_new 1 (Object default) = Inr w1" "World_inv w1"
    "w1 = World_new\<lparr>transforms := transforms w1\<rparr>" "HasTransform w1 1 = Inr True"
    using AddTransform_effect[OF World_inv_new r refers_to_Object, of default] by blast
  obtain w2 where w2: "AddPhysics w1 1 (Object default) = Inr w2" "World_inv w2"
    "w2 = w1\<lparr>physics := physics w2\<rparr>" "HasPhysics w2 1 = Inr True"
    using AddPhysics_effect[OF w1(2) r refers_to_Object, of default] by blast
  have t: "transforms w2 = transforms w1"
    using arg_cong[OF w2(3), of transforms] by simp
  have "sprites w2 = sprites w1" using arg_cong[OF w2(3), of sprites] by simp
  moreover have "sprites w1 = sprites World_new" using arg_cong[OF w1(3), of sprites] by simp
  ultimately have sp: "sprites w2 = SparseSet_new" by (simp add: World_new_def)
  have h1: "HasTransform w2 1 = Inr True" using w1(4) t by (simp add: HasTransform_def)
  have h3: "HasSprite w2 1 = Inr False" by (simp add: HasSprite_def sp Has_new)
  obtain w' where w': "DestroyEntity w2 1 = Inr w'" "HasTransform w' 1 = Inr False"
    "HasPhysics w' 1 = Inr False" "HasSprite w' 1 = Inr False"
    "HasSprite w2 1 = Inr False \<longrightarrow> sprites w' = sprites w2"
    using DestroyEntity_removes_all[OF w2(2), of 1] by blast
  show ?thesis using w1(1) w2(1,2,4) h1 h3 w' by blast
qed

subsection \<open>Every registry reached from a new one satisfies the invariant\<close>

lemma AddTransform_inv:
  assumes "World_inv w"
  shows "\<exists>w'. AddTransform w e (Object v) = Inr w' \<and> World_inv w'"
proof -
  have "SparseSet_inv (transforms w)" using assms by (simp add: World_inv_def)
  then obtain s' where "Add (transforms w) e (Object v) = Inr s'" "SparseSet_inv s'"
    using Add_inv by blast
  then show ?thesis using assms by (simp add: AddTransform_def World_inv_def)
qed

lemma RemoveTransform_inv:
  assumes "World_inv w"
  shows "\<exists>w'. RemoveTransform w e = Inr w' \<and> World_inv w'"
proof -
  have "SparseSet_inv (transforms w)" using assms by (simp add: World_inv_def)
  then obtain s' where "Remove (transforms w) e = Inr s'" "SparseSet_inv s'"
    using Remove_ok by blast
  then show ?thesis using assms by (simp add: RemoveTransform_def World_inv_def)
qed

lemma AddSprite_inv:
  assumes "World_inv w"
  shows "\<exists>w'. AddSprite w e (Object v) = Inr w' \<and> World_inv w'"
proof -
  have "SparseSet_inv (sprites w)" using assms by (simp add: World_inv_def)
  then obtain s' where "Add (sprites w) e (Object v) = Inr s'" "SparseSet_inv s'"
    using Add_inv by blast
  then show ?thesis using assms by (simp add: AddSprite_def World_inv_def)
qed

lemma RemoveSprite_inv:
  assumes "World_inv w"
  shows "\<exists>w'. RemoveSprite w e = Inr w' \<and> World_inv w'"
proof -
  have "SparseSet_inv (sprites w)" using assms by (simp add: World_inv_def)
  then obtain s' where "Remove (sprites w) e = Inr s'" "SparseSet_inv s'"
    using Remove_ok by blast
  then show ?thesis using assms by (simp add: RemoveSprite_def World_inv_def)
qed

lemma AddAnimation_inv:
  assumes "World_inv w"
  shows "\<exists>w'. AddAnimation w e (Object v) = Inr w' \<and> World_inv w'"
proof -
  have "SparseSet_inv (animations w)" using assms by (simp add: World_inv_def)
  then obtain s' where "Add (animations w) e (Object v) = Inr s'" "SparseSet_inv s'"
    using Add_inv by blast
  then show ?thesis using assms by (simp add: AddAnimation_def World_inv_def)
qed

lemma RemoveAnimation_inv:
  assumes "World_inv w"
  shows "\<exists>w'. RemoveAnimation w e = Inr w' \<and> World_inv w'"
proof -
  have "SparseSet_inv (animations w)" using assms by (simp add: World_inv_def)
  then obtain s' where "Remove (animations w) e = Inr s'" "SparseSet_inv s'"
    using Remove_ok by blast
  then show ?thesis using assms by (simp add: RemoveAnimation_def World_inv_def)
qed

lemma AddPhysics_inv:
  assumes "World_inv w"
  shows "\<exists>w'. AddPhysics w e (Object v) = Inr w' \<and> World_inv w'"
proof -
  have "SparseSet_inv (physics w)" using assms by (simp add: World_inv_def)
  then obtain s' where "Add (physics w) e (Object v) = Inr s'" "SparseSet_inv s'"
    using Add_inv by blast
  then show ?thesis using assms by (simp add: AddPhysics_def World_inv_def)
qed

lemma RemovePhysics_inv:
  assumes "World_inv w"
  shows "\<exists>w'. RemovePhysics w e = Inr w' \<and> World_inv w'"
proof -
  have "SparseSet_inv (physics w)" using assms by (simp add: World_inv_def)
  then obtain s' where "Remove (physics w) e = Inr s'" "SparseSet_inv s'"
    using Remove_ok by blast
  then show ?thesis using assms by (simp add: RemovePhysics_def World_inv_def)
qed

lemma AddCollider_inv:
  assumes "World_inv w"
  shows "\<exists>w'. AddCollider w e (Object v) = Inr w' \<and> World_inv w'"
proof -
  have "SparseSet_inv (colliders w)" using assms by (simp add: World_inv_def)
  then obtain s' where "Add (colliders w) e (Object v) = Inr s'" "SparseSet_inv s'"
    using Add_inv by blast
  then show ?thesis using assms by (simp add: AddCollider_def World_inv_def)
qed

lemma RemoveCollider_inv:
  assumes "World_inv w"
  shows "\<exists>w'. RemoveCollider w e = Inr w' \<and> World_inv w'"
proof -
  have "SparseSet_inv (colliders w)" using assms by (simp add: World_inv_def)
  then obtain s' where "Remove (colliders w) e = Inr s'" "SparseSet_inv s'"
    using Remove_ok by blast
  then show ?thesis using assms by (simp add: RemoveCollider_def World_inv_def)
qed

lemma AddCollisionState_inv:
  assumes "World_inv w"
  shows "\<exists>w'. AddCollisionState w e (Object v) = Inr w' \<and> World_inv w'"
proof -
  have "SparseSet_inv (collisionStates w)" using assms by (simp add: World_inv_def)
  then obtain s' where "Add (collisionStates w) e (Object v) = Inr s'" "SparseSet_inv s'"
    using Add_inv by blast
  then show ?thesis using assms by (simp add: AddCollisionState_def World_inv_def)
qed

lemma RemoveCollisionState_inv:
  assumes "World_inv w"
  shows "\<exists>w'. RemoveCollisionState w e = Inr w' \<and> World_inv w'"
proof -
  have "SparseSet_inv (collisionStates w)" using assms by (simp add: World_inv_def)
  then obtain s' where "Remove (collisionStates w) e = Inr s'" "SparseSet_inv s'"
    using Remove_ok by blast
  then show ?thesis using assms by (simp add: RemoveCollisionState_def World_inv_def)
qed

lemma AddPlayer_inv:
  assumes "World_inv w"
  shows "\<exists>w'. AddPlayer w e (Object v) = Inr w' \<and> World_inv w'"
proof -
  have "SparseSet_inv (players w)" using assms by (simp add: World_inv_def)
  then obtain s' where "Add (players w) e (Object v) = Inr s'" "SparseSet_inv s'"
    using Add_inv by blast
  then show ?thesis using assms by (simp add: AddPlayer_def World_inv_def)
qed

lemma RemovePlayer_inv:
  assumes "World_inv w"
  shows "\<exists>w'. RemovePlayer w e = Inr w' \<and> World_inv w'"
proof -
  have "SparseSet_inv (players w)" using assms by (simp add: World_inv_def)
  then obtain s' where "Remove (players w) e = Inr s'" "SparseSet_inv s'"
    using Remove_ok by blast
  then show ?thesis using assms by (simp add: RemovePlayer_def World_inv_def)
qed

lemma CreateEntity_inv: "World_inv w \<Longrightarrow> World_inv (snd (CreateEntity w))"
  by (simp add: CreateEntity_def World_inv_def)

lemma DestroyEntity_inv:
  assumes "World_inv w"
  shows "\<exists>w'. DestroyEntity w e = Inr w' \<and> World_inv w'"
proof -
  have i: "SparseSet_inv (transforms w)" "SparseSet_inv (sprites w)"
    "SparseSet_inv (animations w)" "SparseSet_inv (physics w)" "SparseSet_inv (colliders w)"
    "SparseSet_inv (collisionStates w)" "SparseSet_inv (players w)"
    using assms by (simp_all add: World_inv_def)
  obtain s1 where s1: "Remove (transforms w) e = Inr s1" "SparseSet_inv s1"
    using Remove_ok[OF i(1), of e] by blast
  obtain s2 where s2: "Remove (sprites w) e = Inr s2" "SparseSet_inv s2"
    using Remove_ok[OF i(2), of e] by blast
  obtain s3 where s3: "Remove (animations w) e = Inr s3" "SparseSet_inv s3"
    using Remove_ok[OF i(3), of e] by blast
  obtain s4 where s4: "Remove (physics w) e = Inr s4" "SparseSet_inv s4"
    using Remove_ok[OF i(4), of e] by blast
  obtain s5 where s5: "Remove (colliders w) e = Inr s5" "SparseSet_inv s5"
    using Remove_ok[OF i(5), of e] by blast
  obtain s6 where s6: "Remove (collisionStates w) e = Inr s6" "SparseSet_inv s6"
    using Remove_ok[OF i(6), of e] by blast
  obtain s7 where s7: "Remove (players w) e = Inr s7" "SparseSet_inv s7"
    using Remove_ok[OF i(7), of e] by blast
  show ?thesis
    by (simp add: DestroyEntity_def World_inv_def s1 s2 s3 s4 s5 s6 s7)
qed

lemma World_apply_inv:
  assumes "World_inv w"
  shows "\<exists>w'. World_apply w op = Inr w' \<and> World_inv w'"
proof (cases op)
  case DoCreateEntity
  then show ?thesis using CreateEntity_inv[OF assms] by simp
next
  case (DoAddTransform e c)
  then show ?thesis using AddTransform_inv[OF assms, of e c] by simp
next
  case (DoAddSprite e c)
  then show ?thesis using AddSprite_inv[OF assms, of e c] by simp
next
  case (DoAddAnimation e c)
  then show ?thesis using AddAnimation_inv[OF assms, of e c] by simp
next
  case (DoAddPhysics e c)
  then show ?thesis using AddPhysics_inv[OF assms, of e c] by simp
next
  case (DoAddCollider e c)
  then show ?thesis using AddCollider_inv[OF assms, of e c] by simp
next
  case (DoAddCollisionState e c)
  then show ?thesis using AddCollisionState_inv[OF assms, of e c] by simp
next
  case (DoAddPlayer e c)
  then show ?thesis using AddPlayer_inv[OF assms, of e c] by simp
next
  case (DoRemoveTransform e)
  then show ?thesis using RemoveTransform_inv[OF assms, of e] by simp
next
  case (DoRemoveSprite e)
  then show ?thesis using RemoveSprite_inv[OF assms, of e] by simp
next
  case (DoRemoveAnimation e)
  then show ?thesis using RemoveAnimation_inv[OF assms, of e] by simp
next
  case (DoRemovePhysics e)
  then show ?thesis using RemovePhysics_inv[OF assms, of e] by simp
next
  case (DoRemoveCollider e)
  then show ?thesis using RemoveCollider_inv[OF assms, of e] by simp
next
  case (DoRemoveCollisionState e)
  then show ?thesis using RemoveCollisionState_inv[OF assms, of e] by simp
next
  case (DoRemovePlayer e)
  then show ?thesis using RemovePlayer_inv[OF assms, of e] by simp
next
  case (DoDestroyEntity e)
  then show ?thesis using DestroyEntity_inv[OF assms, of e] by simp
qed

lemma World_run_inv:
  assumes "World_inv w"
  shows "\<exists>w'. World_run w ops = Inr w' \<and> World_inv w'"
  using assms
proof (induction ops arbitrary: w)
  case Nil
  then show ?case by simp
next
  case (Cons op ops)
  obtain w1 where w1: "World_apply w op = Inr w1" "World_inv w1"
    using World_apply_inv[OF Cons.prems] by blast
  show ?case using Cons.IH[OF w1(2)] w1(1) by simp
qed

lemma World_reachable_inv: "\<exists>w. World_run World_new ops = Inr w \<and> World_inv w"
  by (rule World_run_inv[OF World_inv_new])

section \<open>An entity stays absent until a component is added under its id\<close>

lemma Add_keeps_other:
  fixes s :: "('a::default) SparseSet"
  assumes inv: "SparseSet_inv s" and ne: "e2 \<noteq> e"
  shows "\<exists>s'. Add s e2 (Object v) = Inr s' \<and> SparseSet_inv s' \<and> Has s' e = Has s e"
proof (cases "uint e2 < MAX_ENTITIES")
  case True
  obtain s' where s': "Add s e2 (Object v) = Inr s'" "SparseSet_inv s'"
    "lookup s' = (lookup s)(e2 \<mapsto> v)"
    using Add_ok[OF inv True, of v] by blast
  have "Has s' e = Has s e" using ne by (simp add: Has_lookup[OF s'(2)] Has_lookup[OF inv] s'(3))
  then show ?thesis using s'(1,2) by blast
next
  case False
  then show ?thesis using inv by (simp add: Add_def entity_range)
qed

lemma Remove_keeps_absent:
  assumes inv: "SparseSet_inv s"
  shows "\<exists>s'. Remove s e2 = Inr s' \<and> SparseSet_inv s' \<and>
           (Has s e = Inr False \<longrightarrow> Has s' e = Inr False)"
proof -
  obtain s' where s': "Remove s e2 = Inr s'" "SparseSet_inv s'"
    "lookup s' = (lookup s)(e2 := None)"
    using Remove_ok[OF inv, of e2] by blast
  have "Has s' e = Inr False" if "Has s e = Inr False"
    using that by (simp add: Has_lookup[OF s'(2)] Has_lookup[OF inv] s'(3))
  then show ?thesis using s'(1,2) by blast
qed

lemma Clear_keeps_absent:
  assumes inv: "SparseSet_inv s"
  shows "\<exists>s'. Clear s = Inr s' \<and> SparseSet_inv s' \<and> Has s' e = Inr False"
proof -
  obtain s' where s': "Clear s = Inr s'" "SparseSet_inv s'" "lookup s' = Map.empty"
    using Clear_ok[OF inv] by blast
  have "Has s' e = Inr False" by (simp add: Has_lookup[OF s'(2)] s'(3))
  then show ?thesis using s'(1,2) by blast
qed

lemma SparseSet_apply_absent:
  fixes s :: "('a::default) SparseSet"
  assumes inv: "SparseSet_inv s" and no: "\<forall>v. op \<noteq> OpAdd e v" and a: "Has s e = Inr False"
  shows "\<exists>s'. SparseSet_apply s op = Inr s' \<and> SparseSet_inv s' \<and> Has s' e = Inr False"
proof (cases op)
  case (OpAdd e2 v)
  then have "e2 \<noteq> e" using no by blast
  then show ?thesis using Add_keeps_other[OF inv, of e2 e v] a OpAdd by auto
next
  case (OpRemove e2)
  then show ?thesis using Remove_keeps_absent[OF inv, of e2 e] a by auto
next
  case OpClear
  then show ?thesis using Clear_keeps_absent[OF inv, of e] by simp
qed

lemma SparseSet_run_absent:
  fixes s :: "('a::default) SparseSet"
  shows "SparseSet_inv s \<Longrightarrow> \<forall>v. OpAdd e v \<notin> set ops \<Longrightarrow> Has s e = Inr False \<Longrightarrow>
         \<exists>s'. SparseSet_run s ops = Inr s' \<and> SparseSet_inv s' \<and> Has s' e = Inr False"
proof (induction ops arbitrary: s)
  case Nil
  then show ?case by simp
next
  case (Cons op ops)
  have "\<forall>v. op \<noteq> OpAdd e v" using Cons.prems(2) by auto
  then obtain s1 where s1: "SparseSet_apply s op = Inr s1" "SparseSet_inv s1"
    "Has s1 e = Inr False"
    using SparseSet_apply_absent[OF Cons.prems(1) _ Cons.prems(3)] by blast
  have "\<forall>v. OpAdd e v \<notin> set ops" using Cons.prems(2) by auto
  then show ?case using Cons.IH[OF s1(2) _ s1(3)] s1(1) by simp
qed

lemma World_apply_transforms:
  assumes "World_apply w op = Inr w'"
  shows "transforms w' = transforms w \<or>
         (\<exists>e v. op = DoAddTransform e v \<and> Add (transforms w) e (Object v) = Inr (transforms w')) \<or>
         (\<exists>e. Remove (transforms w) e = Inr (transforms w'))"
  using assms
  by (cases op)
    (auto simp add: AddTransform_def RemoveTransform_def AddSprite_def RemoveSprite_def AddAnimation_def RemoveAnimation_def AddPhysics_def RemovePhysics_def AddCollider_def RemoveCollider_def AddCollisionState_def RemoveCollisionState_def AddPlayer_def RemovePlayer_def DestroyEntity_def CreateEntity_def
       split: sum.splits if_splits)

lemma World_apply_absent_transforms:
  assumes inv: "World_inv w" and ap: "World_apply w op = Inr w'"
    and no: "\<forall>v. op \<noteq> DoAddTransform e v" and a: "HasTransform w e = Inr False"
  shows "HasTransform w' e = Inr False"
proof -
  have i: "SparseSet_inv (transforms w)" using inv by (simp add: World_inv_def)
  have h: "Has (transforms w) e = Inr False" using a by (simp add: HasTransform_def)
  consider "transforms w' = transforms w"
    | e2 v where "op = DoAddTransform e2 v" "Add (transforms w) e2 (Object v) = Inr (transforms w')"
    | e2 where "Remove (transforms w) e2 = Inr (transforms w')"
    using World_apply_transforms[OF ap] by blast
  then have "Has (transforms w') e = Inr False"
  proof cases
    case 1
    then show ?thesis using h by simp
  next
    case 2
    then have "e2 \<noteq> e" using no by blast
    then show ?thesis using Add_keeps_other[OF i, of e2 e v] 2(2) h by auto
  next
    case 3
    then show ?thesis using Remove_keeps_absent[OF i, of e2 e] h by auto
  qed
  then show ?thesis by (simp add: HasTransform_def)
qed

lemma World_run_absent_transforms:
  "World_inv w \<Longrightarrow> \<forall>v. DoAddTransform e v \<notin> set ops \<Longrightarrow> HasTransform w e = Inr False \<Longrightarrow>
   World_run w ops = Inr w' \<Longrightarrow> HasTransform w' e = Inr False"
proof (induction ops arbitrary: w)
  case Nil
  then show ?case by simp
next
  case (Cons op ops)
  obtain w1 where w1: "World_apply w op = Inr w1" "World_inv w1"
    using World_apply_inv[OF Cons.prems(1), of op] by blast
  have "\<forall>v. op \<noteq> DoAddTransform e v" using Cons.prems(2) by auto
  then have h1: "HasTransform w1 e = Inr False"
    using World_apply_absent_transforms[OF Cons.prems(1) w1(1) _ Cons.prems(3)] by blast
  have n: "\<forall>v. DoAddTransform e v \<notin> set ops" using Cons.prems(2) by auto
  have r: "World_run w1 ops = Inr w'" using Cons.prems(4) w1(1) by simp
  show ?case by (rule Cons.IH[OF w1(2) n h1 r])
qed

lemma World_apply_sprites:
  assumes "World_apply w op = Inr w'"
  shows "sprites w' = sprites w \<or>
         (\<exists>e v. op = DoAddSprite e v \<and> Add (sprites w) e (Object v) = Inr (sprites w')) \<or>
         (\<exists>e. Remove (sprites w) e = Inr (sprites w'))"
  using assms
  by (cases op)
    (auto simp add: AddTransform_def RemoveTransform_def AddSprite_def RemoveSprite_def AddAnimation_def RemoveAnimation_def AddPhysics_def RemovePhysics_def AddCollider_def RemoveCollider_def AddCollisionState_def RemoveCollisionState_def AddPlayer_def RemovePlayer_def DestroyEntity_def CreateEntity_def
       split: sum.splits if_splits)

lemma World_apply_absent_sprites:
  assumes inv: "World_inv w" and ap: "World_apply w op = Inr w'"
    and no: "\<forall>v. op \<noteq> DoAddSprite e v" and a: "HasSprite w e = Inr False"
  shows "HasSprite w' e = Inr False"
proof -
  have i: "SparseSet_inv (sprites w)" using inv by (simp add: World_inv_def)
  have h: "Has (sprites w) e = Inr False" using a by (simp add: HasSprite_def)
  consider "sprites w' = sprites w"
    | e2 v where "op = DoAddSprite e2 v" "Add (sprites w) e2 (Object v) = Inr (sprites w')"
    | e2 where "Remove (sprites w) e2 = Inr (sprites w')"
    using World_apply_sprites[OF ap] by blast
  then have "Has (sprites w') e = Inr False"
  proof cases
    case 1
    then show ?thesis using h by simp
  next
    case 2
    then have "e2 \<noteq> e" using no by blast
    then show ?thesis using Add_keeps_other[OF i, of e2 e v] 2(2) h by auto
  next
    case 3
    then show ?thesis using Remove_keeps_absent[OF i, of e2 e] h by auto
  qed
  then show ?thesis by (simp add: HasSprite_def)
qed

lemma World_run_absent_sprites:
  "World_inv w \<Longrightarrow> \<forall>v. DoAddSprite e v \<notin> set ops \<Longrightarrow> HasSprite w e = Inr False \<Longrightarrow>
   World_run w ops = Inr w' \<Longrightarrow> HasSprite w' e = Inr False"
proof (induction ops arbitrary: w)
  case Nil
  then show ?case by simp
next
  case (Cons op ops)
  obtain w1 where w1: "World_apply w op = Inr w1" "World_inv w1"
    using World_apply_inv[OF Cons.prems(1), of op] by blast
  have "\<forall>v. op \<noteq> DoAddSprite e v" using Cons.prems(2) by auto
  then have h1: "HasSprite w1 e = Inr False"
    using World_apply_absent_sprites[OF Cons.prems(1) w1(1) _ Cons.prems(3)] by blast
  have n: "\<forall>v. DoAddSprite e v \<notin> set ops" using Cons.prems(2) by auto
  have r: "World_run w1 ops = Inr w'" using Cons.prems(4) w1(1) by simp
  show ?case by (rule Cons.IH[OF w1(2) n h1 r])
qed

lemma World_apply_animations:
  assumes "World_apply w op = Inr w'"
  shows "animations w' = animations w \<or>
         (\<exists>e v. op = DoAddAnimation e v \<and> Add (animations w) e (Object v) = Inr (animations w')) \<or>
         (\<exists>e. Remove (animations w) e = Inr (animations w'))"
  using assms
  by (cases op)
    (auto simp add: AddTransform_def RemoveTransform_def AddSprite_def RemoveSprite_def AddAnimation_def RemoveAnimation_def AddPhysics_def RemovePhysics_def AddCollider_def RemoveCollider_def AddCollisionState_def RemoveCollisionState_def AddPlayer_def RemovePlayer_def DestroyEntity_def CreateEntity_def
       split: sum.splits if_splits)

lemma World_apply_absent_animations:
  assumes inv: "World_inv w" and ap: "World_apply w op = Inr w'"
    and no: "\<forall>v. op \<noteq> DoAddAnimation e v" and a: "HasAnimation w e = Inr False"
  shows "HasAnimation w' e = Inr False"
proof -
  have i: "SparseSet_inv (animations w)" using inv by (simp add: World_inv_def)
  have h: "Has (animations w) e = Inr False" using a by (simp add: HasAnimation_def)
  consider "animations w' = animations w"
    | e2 v where "op = DoAddAnimation e2 v" "Add (animations w) e2 (Object v) = Inr (animations w')"
    | e2 where "Remove (animations w) e2 = Inr (animations w')"
    using World_apply_animations[OF ap] by blast
  then have "Has (animations w') e = Inr False"
  proof cases
    case 1
    then show ?thesis using h by simp
  next
    case 2
    then have "e2 \<noteq> e" using no by blast
    then show ?thesis using Add_keeps_other[OF i, of e2 e v] 2(2) h by auto
  next
    case 3
    then show ?thesis using Remove_keeps_absent[OF i, of e2 e] h by auto
  qed
  then show ?thesis by (simp add: HasAnimation_def)
qed

lemma World_run_absent_animations:
  "World_inv w \<Longrightarrow> \<forall>v. DoAddAnimation e v \<notin> set ops \<Longrightarrow> HasAnimation w e = Inr False \<Longrightarrow>
   World_run w ops = Inr w' \<Longrightarrow> HasAnimation w' e = Inr False"
proof (induction ops arbitrary: w)
  case Nil
  then show ?case by simp
next
  case (Cons op ops)
  obtain w1 where w1: "World_apply w op = Inr w1" "World_inv w1"
    using World_apply_inv[OF Cons.prems(1), of op] by blast
  have "\<forall>v. op \<noteq> DoAddAnimation e v" using Cons.prems(2) by auto
  then have h1: "HasAnimation w1 e = Inr False"
    using World_apply_absent_animations[OF Cons.prems(1) w1(1) _ Cons.prems(3)] by blast
  have n: "\<forall>v. DoAddAnimation e v \<notin> set ops" using Cons.prems(2) by auto
  have r: "World_run w1 ops = Inr w'" using Cons.prems(4) w1(1) by simp
  show ?case by (rule Cons.IH[OF w1(2) n h1 r])
qed

lemma World_apply_physics:
  assumes "World_apply w op = Inr w'"
  shows "physics w' = physics w \<or>
         (\<exists>e v. op = DoAddPhysics e v \<and> Add (physics w) e (Object v) = Inr (physics w')) \<or>
         (\<exists>e. Remove (physics w) e = Inr (physics w'))"
  using assms
  by (cases op)
    (auto simp add: AddTransform_def RemoveTransform_def AddSprite_def RemoveSprite_def AddAnimation_def RemoveAnimation_def AddPhysics_def RemovePhysics_def AddCollider_def RemoveCollider_def AddCollisionState_def RemoveCollisionState_def AddPlayer_def RemovePlayer_def DestroyEntity_def CreateEntity_def
       split: sum.splits if_splits)

lemma World_apply_absent_physics:
  assumes inv: "World_inv w" and ap: "World_apply w op = Inr w'"
    and no: "\<forall>v. op \<noteq> DoAddPhysics e v" and a: "HasPhysics w e = Inr False"
  shows "HasPhysics w' e = Inr False"
proof -
  have i: "SparseSet_inv (physics w)" using inv by (simp add: World_inv_def)
  have h: "Has (physics w) e = Inr False" using a by (simp add: HasPhysics_def)
  consider "physics w' = physics w"
    | e2 v where "op = DoAddPhysics e2 v" "Add (physics w) e2 (Object v) = Inr (physics w')"
    | e2 where "Remove (physics w) e2 = Inr (physics w')"
    using World_apply_physics[OF ap] by blast
  then have "Has (physics w') e = Inr False"
  proof cases
    case 1
    then show ?thesis using h by simp
  next
    case 2
    then have "e2 \<noteq> e" using no by blast
    then show ?thesis using Add_keeps_other[OF i, of e2 e v] 2(2) h by auto
  next
    case 3
    then show ?thesis using Remove_keeps_absent[OF i, of e2 e] h by auto
  qed
  then show ?thesis by (simp add: HasPhysics_def)
qed

lemma World_run_absent_physics:
  "World_inv w \<Longrightarrow> \<forall>v. DoAddPhysics e v \<notin> set ops \<Longrightarrow> HasPhysics w e = Inr False \<Longrightarrow>
   World_run w ops = Inr w' \<Longrightarrow> HasPhysics w' e = Inr False"
proof (induction ops arbitrary: w)
  case Nil
  then show ?case by simp
next
  case (Cons op ops)
  obtain w1 where w1: "World_apply w op = Inr w1" "World_inv w1"
    using World_apply_inv[OF Cons.prems(1), of op] by blast
  have "\<forall>v. op \<noteq> DoAddPhysics e v" using Cons.prems(2) by auto
  then have h1: "HasPhysics w1 e = Inr False"
    using World_apply_absent_physics[OF Cons.prems(1) w1(1) _ Cons.prems(3)] by blast
  have n: "\<forall>v. DoAddPhysics e v \<notin> set ops" using Cons.prems(2) by auto
  have r: "World_run w1 ops = Inr w'" using Cons.prems(4) w1(1) by simp
  show ?case by (rule Cons.IH[OF w1(2) n h1 r])
qed

lemma World_apply_colliders:
  assumes "World_apply w op = Inr w'"
  shows "colliders w' = colliders w \<or>
         (\<exists>e v. op = DoAddCollider e v \<and> Add (colliders w) e (Object v) = Inr (colliders w')) \<or>
         (\<exists>e. Remove (colliders w) e = Inr (colliders w'))"
  using assms
  by (cases op)
    (auto simp add: AddTransform_def RemoveTransform_def AddSprite_def RemoveSprite_def AddAnimation_def RemoveAnimation_def AddPhysics_def RemovePhysics_def AddCollider_def RemoveCollider_def AddCollisionState_def RemoveCollisionState_def AddPlayer_def RemovePlayer_def DestroyEntity_def CreateEntity_def
       split: sum.splits if_splits)

lemma World_apply_absent_colliders:
  assumes inv: "World_inv w" and ap: "World_apply w op = Inr w'"
    and no: "\<forall>v. op \<noteq> DoAddCollider e v" and a: "HasCollider w e = Inr False"
  shows "HasCollider w' e = Inr False"
proof -
  have i: "SparseSet_inv (colliders w)" using inv by (simp add: World_inv_def)
  have h: "Has (colliders w) e = Inr False" using a by (simp add: HasCollider_def)
  consider "colliders w' = colliders w"
    | e2 v where "op = DoAddCollider e2 v" "Add (colliders w) e2 (Object v) = Inr (colliders w')"
    | e2 where "Remove (colliders w) e2 = Inr (colliders w')"
    using World_apply_colliders[OF ap] by blast
  then have "Has (colliders w') e = Inr False"
  proof cases
    case 1
    then show ?thesis using h by simp
  next
    case 2
    then have "e2 \<noteq> e" using no by blast
    then show ?thesis using Add_keeps_other[OF i, of e2 e v] 2(2) h by auto
  next
    case 3
    then show ?thesis using Remove_keeps_absent[OF i, of e2 e] h by auto
  qed
  then show ?thesis by (simp add: HasCollider_def)
qed

lemma World_run_absent_colliders:
  "World_inv w \<Longrightarrow> \<forall>v. DoAddCollider e v \<notin> set ops \<Longrightarrow> HasCollider w e = Inr False \<Longrightarrow>
   World_run w ops = Inr w' \<Longrightarrow> HasCollider w' e = Inr False"
proof (induction ops arbitrary: w)
  case Nil
  then show ?case by simp
next
  case (Cons op ops)
  obtain w1 where w1: "World_apply w op = Inr w1" "World_inv w1"
    using World_apply_inv[OF Cons.prems(1), of op] by blast
  have "\<forall>v. op \<noteq> DoAddCollider e v" using Cons.prems(2) by auto
  then have h1: "HasCollider w1 e = Inr False"
    using World_apply_absent_colliders[OF Cons.prems(1) w1(1) _ Cons.prems(3)] by blast
  have n: "\<forall>v. DoAddCollider e v \<notin> set ops" using Cons.prems(2) by auto
  have r: "World_run w1 ops = Inr w'" using Cons.prems(4) w1(1) by simp
  show ?case by (rule Cons.IH[OF w1(2) n h1 r])
qed

lemma World_apply_collisionStates:
  assumes "World_apply w op = Inr w'"
  shows "collisionStates w' = collisionStates w \<or>
         (\<exists>e v. op = DoAddCollisionState e v \<and> Add (collisionStates w) e (Object v) = Inr (collisionStates w')) \<or>
         (\<exists>e. Remove (collisionStates w) e = Inr (collisionStates w'))"
  using assms
  by (cases op)
    (auto simp add: AddTransform_def RemoveTransform_def AddSprite_def RemoveSprite_def AddAnimation_def RemoveAnimation_def AddPhysics_def RemovePhysics_def AddCollider_def RemoveCollider_def AddCollisionState_def RemoveCollisionState_def AddPlayer_def RemovePlayer_def DestroyEntity_def CreateEntity_def
       split: sum.splits if_splits)

lemma World_apply_absent_collisionStates:
  assumes inv: "World_inv w" and ap: "World_apply w op = Inr w'"
    and no: "\<forall>v. op \<noteq> DoAddCollisionState e v" and a: "HasCollisionState w e = Inr False"
  shows "HasCollisionState w' e = Inr False"
proof -
  have i: "SparseSet_inv (collisionStates w)" using inv by (simp add: World_inv_def)
  have h: "Has (collisionStates w) e = Inr False" using a by (simp add: HasCollisionState_def)
  consider "collisionStates w' = collisionStates w"
    | e2 v where "op = DoAddCollisionState e2 v" "Add (collisionStates w) e2 (Object v) = Inr (collisionStates w')"
    | e2 where "Remove (collisionStates w) e2 = Inr (collisionStates w')"
    using World_apply_collisionStates[OF ap] by blast
  then have "Has (collisionStates w') e = Inr False"
  proof cases
    case 1
    then show ?thesis using h by simp
  next
    case 2
    then have "e2 \<noteq> e" using no by blast
    then show ?thesis using Add_keeps_other[OF i, of e2 e v] 2(2) h by auto
  next
    case 3
    then show ?thesis using Remove_keeps_absent[OF i, of e2 e] h by auto
  qed
  then show ?thesis by (simp add: HasCollisionState_def)
qed

lemma World_run_absent_collisionStates:
  "World_inv w \<Longrightarrow> \<forall>v. DoAddCollisionState e v \<notin> set ops \<Longrightarrow> HasCollisionState w e = Inr False \<Longrightarrow>
   World_run w ops = Inr w' \<Longrightarrow> HasCollisionState w' e = Inr False"
proof (induction ops arbitrary: w)
  case Nil
  then show ?case by simp
next
  case (Cons op ops)
  obtain w1 where w1: "World_apply w op = Inr w1" "World_inv w1"
    using World_apply_inv[OF Cons.prems(1), of op] by blast
  have "\<forall>v. op \<noteq> DoAddCollisionState e v" using Cons.prems(2) by auto
  then have h1: "HasCollisionState w1 e = Inr False"
    using World_apply_absent_collisionStates[OF Cons.prems(1) w1(1) _ Cons.prems(3)] by blast
  have n: "\<forall>v. DoAddCollisionState e v \<notin> set ops" using Cons.prems(2) by auto
  have r: "World_run w1 ops = Inr w'" using Cons.prems(4) w1(1) by simp
  show ?case by (rule Cons.IH[OF w1(2) n h1 r])
qed

lemma World_apply_players:
  assumes "World_apply w op = Inr w'"
  shows "players w' = players w \<or>
         (\<exists>e v. op = DoAddPlayer e v \<and> Add (players w) e (Object v) = Inr (players w')) \<or>
         (\<exists>e. Remove (players w) e = Inr (players w'))"
  using assms
  by (cases op)
    (auto simp add: AddTransform_def RemoveTransform_def AddSprite_def RemoveSprite_def AddAnimation_def RemoveAnimation_def AddPhysics_def RemovePhysics_def AddCollider_def RemoveCollider_def AddCollisionState_def RemoveCollisionState_def AddPlayer_def RemovePlayer_def DestroyEntity_def CreateEntity_def
       split: sum.splits if_splits)

lemma World_apply_absent_players:
  assumes inv: "World_inv w" and ap: "World_apply w op = Inr w'"
    and no: "\<forall>v. op \<noteq> DoAddPlayer e v" and a: "HasPlayer w e = Inr False"
  shows "HasPlayer w' e = Inr False"
proof -
  have i: "SparseSet_inv (players w)" using inv by (simp add: World_inv_def)
  have h: "Has (players w) e = Inr False" using a by (simp add: HasPlayer_def)
  consider "players w' = players w"
    | e2 v where "op = DoAddPlayer e2 v" "Add (players w) e2 (Object v) = Inr (players w')"
    | e2 where "Remove (players w) e2 = Inr (players w')"
    using World_apply_players[OF ap] by blast
  then have "Has (players w') e = Inr False"
  proof cases
    case 1
    then show ?thesis using h by simp
  next
    case 2
    then have "e2 \<noteq> e" using no by blast
    then show ?thesis using Add_keeps_other[OF i, of e2 e v] 2(2) h by auto
  next
    case 3
    then show ?thesis using Remove_keeps_absent[OF i, of e2 e] h by auto
  qed
  then show ?thesis by (simp add: HasPlayer_def)
qed

lemma World_run_absent_players:
  "World_inv w \<Longrightarrow> \<forall>v. DoAddPlayer e v \<notin> set ops \<Longrightarrow> HasPlayer w e = Inr False \<Longrightarrow>
   World_run w ops = Inr w' \<Longrightarrow> HasPlayer w' e = Inr False"
proof (induction ops arbitrary: w)
  case Nil
  then show ?case by simp
next
  case (Cons op ops)
  obtain w1 where w1: "World_apply w op = Inr w1" "World_inv w1"
    using World_apply_inv[OF Cons.prems(1), of op] by blast
  have "\<forall>v. op \<noteq> DoAddPlayer e v" using Cons.prems(2) by auto
  then have h1: "HasPlayer w1 e = Inr False"
    using World_apply_absent_players[OF Cons.prems(1) w1(1) _ Cons.prems(3)] by blast
  have n: "\<forall>v. DoAddPlayer e v \<notin> set ops" using Cons.prems(2) by auto
  have r: "World_run w1 ops = Inr w'" using Cons.prems(4) w1(1) by simp
  show ?case by (rule Cons.IH[OF w1(2) n h1 r])
qed

lemma Has_World_new:
  "HasTransform World_new e = Inr False \<and>
   HasSprite World_new e = Inr False \<and>
   HasAnimation World_new e = Inr False \<and>
   HasPhysics World_new e = Inr False \<and>
   HasCollider World_new e = Inr False \<and>
   HasCollisionState World_new e = Inr False \<and>
   HasPlayer World_new e = Inr False"
  by (simp add: HasTransform_def HasSprite_def HasAnimation_def HasPhysics_def HasCollider_def HasCollisionState_def HasPlayer_def World_new_def Has_new)

text \<open>
  Claim C1 as stated fails: the storages have no check for the null entity, and 0 is below
  \<open>MAX_ENTITIES\<close>. On a new registry, \<open>AddPlayer(NULL_ENTITY, v)\<close> is not dropped: it appends
  \<open>v\<close> to the player storage (which grows to capacity 64), so the registry has changed, and
  \<open>HasPlayer(NULL_ENTITY)\<close> is true afterwards.
\<close>

theorem null_entity_counterexample:
  "AddPlayer World_new NULL_ENTITY (Object (Player 1 2)) =
     Inr (World_new\<lparr>players :=
            \<lparr>sparse = (replicate 10000 INVALID_INDEX)[0 := 0], dense = (replicate 64 0)[0 := 0],
             data = (replicate 64 default)[0 := Player 1 2], count = 1, capacity = 64\<rparr>\<rparr>) \<and>
   HasPlayer (World_new\<lparr>players :=
            \<lparr>sparse = (replicate 10000 INVALID_INDEX)[0 := 0], dense = (replicate 64 0)[0 := 0],
             data = (replicate 64 default)[0 := Player 1 2], count = 1, capacity = 64\<rparr>\<rparr>)
     NULL_ENTITY = Inr True \<and>
   World_new\<lparr>players :=
            \<lparr>sparse = (replicate 10000 INVALID_INDEX)[0 := 0], dense = (replicate 64 0)[0 := 0],
             data = (replicate 64 default)[0 := Player 1 2], count = 1, capacity = 64\<rparr>\<rparr>
     \<noteq> World_new"
proof -
  let ?S = "\<lparr>sparse = (replicate 10000 INVALID_INDEX)[0 := 0], dense = (replicate 64 0)[0 := 0],
             data = (replicate 64 default)[0 := Player 1 2], count = 1, capacity = 64\<rparr>"
  have a: "Add SparseSet_new NULL_ENTITY (Object (Player 1 2)) = Inr ?S"
    by (simp add: SparseSet_new_eq NULL_ENTITY_def eval_defs)
  have b: "Has ?S NULL_ENTITY = Inr True" by (simp add: NULL_ENTITY_def eval_defs)
  have "count (players (World_new\<lparr>players := ?S\<rparr>)) \<noteq> count (players World_new)"
    by (simp add: World_new_def SparseSet_new_eq)
  then have c: "World_new\<lparr>players := ?S\<rparr> \<noteq> World_new" by metis
  have "players World_new = SparseSet_new" by (simp add: World_new_def)
  then show ?thesis using a b c by (simp add: AddPlayer_def HasPlayer_def)
qed

text \<open>
  Claim C1, amended. The storages give the null entity no special treatment: 0 is an in-range
  id. \<open>Has(0)\<close> is false until a component is added under id 0: a storage reached from a new
  one by \<open>Add\<close>, \<open>Remove\<close> and \<open>Clear\<close> calls none of which is an \<open>Add\<close> under id 0 has \<open>Has(0)\<close>
  false, and a registry reached from a new one by operations none of which is an \<open>AddX\<close> under
  id 0 has \<open>HasX(0)\<close> false, for each of the seven kinds \<open>X\<close>. On a registry whose storages
  satisfy the representation invariant (every registry reached from a new one is such,
  \<open>World_reachable_inv\<close>), \<open>AddX(0, component)\<close> is not dropped when the component reference
  is valid when it is read and refers to the value \<open>v\<close> (\<open>refers_to\<close>): it returns a registry
  that differs from the old one in the storage of \<open>X\<close> only, in which \<open>HasX(0)\<close> is true and
  \<open>*GetX(0)\<close> is \<open>v\<close>, and in which \<open>HasX(e)\<close> and \<open>*GetX(e)\<close> are as before for every other
  entity \<open>e\<close>: no other entity's data is altered.
\<close>

theorem null_entity_is_ordinary:
  fixes sops :: "('a::default) SparseSet_op list"
  shows "((\<forall>v. OpAdd NULL_ENTITY v \<notin> set sops) \<longrightarrow>
      (\<exists>s. SparseSet_run SparseSet_new sops = Inr s \<and> Has s NULL_ENTITY = Inr False)) \<and>
   (\<exists>w1. World_run World_new ops = Inr w1 \<and>
      ((\<forall>v. DoAddTransform NULL_ENTITY v \<notin> set ops) \<longrightarrow>
         HasTransform w1 NULL_ENTITY = Inr False) \<and>
      ((\<forall>v. DoAddSprite NULL_ENTITY v \<notin> set ops) \<longrightarrow>
         HasSprite w1 NULL_ENTITY = Inr False) \<and>
      ((\<forall>v. DoAddAnimation NULL_ENTITY v \<notin> set ops) \<longrightarrow>
         HasAnimation w1 NULL_ENTITY = Inr False) \<and>
      ((\<forall>v. DoAddPhysics NULL_ENTITY v \<notin> set ops) \<longrightarrow>
         HasPhysics w1 NULL_ENTITY = Inr False) \<and>
      ((\<forall>v. DoAddCollider NULL_ENTITY v \<notin> set ops) \<longrightarrow>
         HasCollider w1 NULL_ENTITY = Inr False) \<and>
      ((\<forall>v. DoAddCollisionState NULL_ENTITY v \<notin> set ops) \<longrightarrow>
         HasCollisionState w1 NULL_ENTITY = Inr False) \<and>
      ((\<forall>v. DoAddPlayer NULL_ENTITY v \<notin> set ops) \<longrightarrow>
         HasPlayer w1 NULL_ENTITY = Inr False)) \<and>
   (World_inv w \<longrightarrow>
      (refers_to (transforms w) NULL_ENTITY c1 v1 \<longrightarrow>
       (\<exists>w'. AddTransform w NULL_ENTITY c1 = Inr w' \<and> w' = w\<lparr>transforms := transforms w'\<rparr> \<and>
         HasTransform w' NULL_ENTITY = Inr True \<and>
         Get_value (transforms w') NULL_ENTITY = Inr (Some v1) \<and>
         (\<forall>e. e \<noteq> NULL_ENTITY \<longrightarrow> HasTransform w' e = HasTransform w e \<and>
            Get_value (transforms w') e = Get_value (transforms w) e))) \<and>
      (refers_to (sprites w) NULL_ENTITY c2 v2 \<longrightarrow>
       (\<exists>w'. AddSprite w NULL_ENTITY c2 = Inr w' \<and> w' = w\<lparr>sprites := sprites w'\<rparr> \<and>
         HasSprite w' NULL_ENTITY = Inr True \<and>
         Get_value (sprites w') NULL_ENTITY = Inr (Some v2) \<and>
         (\<forall>e. e \<noteq> NULL_ENTITY \<longrightarrow> HasSprite w' e = HasSprite w e \<and>
            Get_value (sprites w') e = Get_value (sprites w) e))) \<and>
      (refers_to (animations w) NULL_ENTITY c3 v3 \<longrightarrow>
       (\<exists>w'. AddAnimation w NULL_ENTITY c3 = Inr w' \<and> w' = w\<lparr>animations := animations w'\<rparr> \<and>
         HasAnimation w' NULL_ENTITY = Inr True \<and>
         Get_value (animations w') NULL_ENTITY = Inr (Some v3) \<and>
         (\<forall>e. e \<noteq> NULL_ENTITY \<longrightarrow> HasAnimation w' e = HasAnimation w e \<and>
            Get_value (animations w') e = Get_value (animations w) e))) \<and>
      (refers_to (physics w) NULL_ENTITY c4 v4 \<longrightarrow>
       (\<exists>w'. AddPhysics w NULL_ENTITY c4 = Inr w' \<and> w' = w\<lparr>physics := physics w'\<rparr> \<and>
         HasPhysics w' NULL_ENTITY = Inr True \<and>
         Get_value (physics w') NULL_ENTITY = Inr (Some v4) \<and>
         (\<forall>e. e \<noteq> NULL_ENTITY \<longrightarrow> HasPhysics w' e = HasPhysics w e \<and>
            Get_value (physics w') e = Get_value (physics w) e))) \<and>
      (refers_to (colliders w) NULL_ENTITY c5 v5 \<longrightarrow>
       (\<exists>w'. AddCollider w NULL_ENTITY c5 = Inr w' \<and> w' = w\<lparr>colliders := colliders w'\<rparr> \<and>
         HasCollider w' NULL_ENTITY = Inr True \<and>
         Get_value (colliders w') NULL_ENTITY = Inr (Some v5) \<and>
         (\<forall>e. e \<noteq> NULL_ENTITY \<longrightarrow> HasCollider w' e = HasCollider w e \<and>
            Get_value (colliders w') e = Get_value (colliders w) e))) \<and>
      (refers_to (collisionStates w) NULL_ENTITY c6 v6 \<longrightarrow>
       (\<exists>w'. AddCollisionState w NULL_ENTITY c6 = Inr w' \<and> w' = w\<lparr>collisionStates := collisionStates w'\<rparr> \<and>
         HasCollisionState w' NULL_ENTITY = Inr True \<and>
         Get_value (collisionStates w') NULL_ENTITY = Inr (Some v6) \<and>
         (\<forall>e. e \<noteq> NULL_ENTITY \<longrightarrow> HasCollisionState w' e = HasCollisionState w e \<and>
            Get_value (collisionStates w') e = Get_value (collisionStates w) e))) \<and>
      (refers_to (players w) NULL_ENTITY c7 v7 \<longrightarrow>
       (\<exists>w'. AddPlayer w NULL_ENTITY c7 = Inr w' \<and> w' = w\<lparr>players := players w'\<rparr> \<and>
         HasPlayer w' NULL_ENTITY = Inr True \<and>
         Get_value (players w') NULL_ENTITY = Inr (Some v7) \<and>
         (\<forall>e. e \<noteq> NULL_ENTITY \<longrightarrow> HasPlayer w' e = HasPlayer w e \<and>
            Get_value (players w') e = Get_value (players w) e))))"
proof (intro conjI)
  show "(\<forall>v. OpAdd NULL_ENTITY v \<notin> set sops) \<longrightarrow>
      (\<exists>s. SparseSet_run SparseSet_new sops = Inr s \<and> Has s NULL_ENTITY = Inr False)"
    using SparseSet_run_absent[OF SparseSet_inv_new _ Has_new, of NULL_ENTITY sops] by blast
next
  obtain w1 where w1: "World_run World_new ops = Inr w1"
    using World_reachable_inv[of ops] by blast
  note n = Has_World_new[of NULL_ENTITY]
  have h1: "(\<forall>v. DoAddTransform NULL_ENTITY v \<notin> set ops) \<longrightarrow> HasTransform w1 NULL_ENTITY = Inr False"
    using World_run_absent_transforms[OF World_inv_new _ _ w1, of NULL_ENTITY] n by blast
  have h2: "(\<forall>v. DoAddSprite NULL_ENTITY v \<notin> set ops) \<longrightarrow> HasSprite w1 NULL_ENTITY = Inr False"
    using World_run_absent_sprites[OF World_inv_new _ _ w1, of NULL_ENTITY] n by blast
  have h3: "(\<forall>v. DoAddAnimation NULL_ENTITY v \<notin> set ops) \<longrightarrow> HasAnimation w1 NULL_ENTITY = Inr False"
    using World_run_absent_animations[OF World_inv_new _ _ w1, of NULL_ENTITY] n by blast
  have h4: "(\<forall>v. DoAddPhysics NULL_ENTITY v \<notin> set ops) \<longrightarrow> HasPhysics w1 NULL_ENTITY = Inr False"
    using World_run_absent_physics[OF World_inv_new _ _ w1, of NULL_ENTITY] n by blast
  have h5: "(\<forall>v. DoAddCollider NULL_ENTITY v \<notin> set ops) \<longrightarrow> HasCollider w1 NULL_ENTITY = Inr False"
    using World_run_absent_colliders[OF World_inv_new _ _ w1, of NULL_ENTITY] n by blast
  have h6: "(\<forall>v. DoAddCollisionState NULL_ENTITY v \<notin> set ops) \<longrightarrow> HasCollisionState w1 NULL_ENTITY = Inr False"
    using World_run_absent_collisionStates[OF World_inv_new _ _ w1, of NULL_ENTITY] n by blast
  have h7: "(\<forall>v. DoAddPlayer NULL_ENTITY v \<notin> set ops) \<longrightarrow> HasPlayer w1 NULL_ENTITY = Inr False"
    using World_run_absent_players[OF World_inv_new _ _ w1, of NULL_ENTITY] n by blast
  show "\<exists>w1. World_run World_new ops = Inr w1 \<and>
      ((\<forall>v. DoAddTransform NULL_ENTITY v \<notin> set ops) \<longrightarrow>
         HasTransform w1 NULL_ENTITY = Inr False) \<and>
      ((\<forall>v. DoAddSprite NULL_ENTITY v \<notin> set ops) \<longrightarrow>
         HasSprite w1 NULL_ENTITY = Inr False) \<and>
      ((\<forall>v. DoAddAnimation NULL_ENTITY v \<notin> set ops) \<longrightarrow>
         HasAnimation w1 NULL_ENTITY = Inr False) \<and>
      ((\<forall>v. DoAddPhysics NULL_ENTITY v \<notin> set ops) \<longrightarrow>
         HasPhysics w1 NULL_ENTITY = Inr False) \<and>
      ((\<forall>v. DoAddCollider NULL_ENTITY v \<notin> set ops) \<longrightarrow>
         HasCollider w1 NULL_ENTITY = Inr False) \<and>
      ((\<forall>v. DoAddCollisionState NULL_ENTITY v \<notin> set ops) \<longrightarrow>
         HasCollisionState w1 NULL_ENTITY = Inr False) \<and>
      ((\<forall>v. DoAddPlayer NULL_ENTITY v \<notin> set ops) \<longrightarrow>
         HasPlayer w1 NULL_ENTITY = Inr False)"
    using w1 h1 h2 h3 h4 h5 h6 h7 by (intro exI[of _ w1]) blast
next
  show "World_inv w \<longrightarrow>
      (refers_to (transforms w) NULL_ENTITY c1 v1 \<longrightarrow>
       (\<exists>w'. AddTransform w NULL_ENTITY c1 = Inr w' \<and> w' = w\<lparr>transforms := transforms w'\<rparr> \<and>
         HasTransform w' NULL_ENTITY = Inr True \<and>
         Get_value (transforms w') NULL_ENTITY = Inr (Some v1) \<and>
         (\<forall>e. e \<noteq> NULL_ENTITY \<longrightarrow> HasTransform w' e = HasTransform w e \<and>
            Get_value (transforms w') e = Get_value (transforms w) e))) \<and>
      (refers_to (sprites w) NULL_ENTITY c2 v2 \<longrightarrow>
       (\<exists>w'. AddSprite w NULL_ENTITY c2 = Inr w' \<and> w' = w\<lparr>sprites := sprites w'\<rparr> \<and>
         HasSprite w' NULL_ENTITY = Inr True \<and>
         Get_value (sprites w') NULL_ENTITY = Inr (Some v2) \<and>
         (\<forall>e. e \<noteq> NULL_ENTITY \<longrightarrow> HasSprite w' e = HasSprite w e \<and>
            Get_value (sprites w') e = Get_value (sprites w) e))) \<and>
      (refers_to (animations w) NULL_ENTITY c3 v3 \<longrightarrow>
       (\<exists>w'. AddAnimation w NULL_ENTITY c3 = Inr w' \<and> w' = w\<lparr>animations := animations w'\<rparr> \<and>
         HasAnimation w' NULL_ENTITY = Inr True \<and>
         Get_value (animations w') NULL_ENTITY = Inr (Some v3) \<and>
         (\<forall>e. e \<noteq> NULL_ENTITY \<longrightarrow> HasAnimation w' e = HasAnimation w e \<and>
            Get_value (animations w') e = Get_value (animations w) e))) \<and>
      (refers_to (physics w) NULL_ENTITY c4 v4 \<longrightarrow>
       (\<exists>w'. AddPhysics w NULL_ENTITY c4 = Inr w' \<and> w' = w\<lparr>physics := physics w'\<rparr> \<and>
         HasPhysics w' NULL_ENTITY = Inr True \<and>
         Get_value (physics w') NULL_ENTITY = Inr (Some v4) \<and>
         (\<forall>e. e \<noteq> NULL_ENTITY \<longrightarrow> HasPhysics w' e = HasPhysics w e \<and>
            Get_value (physics w') e = Get_value (physics w) e))) \<and>
      (refers_to (colliders w) NULL_ENTITY c5 v5 \<longrightarrow>
       (\<exists>w'. AddCollider w NULL_ENTITY c5 = Inr w' \<and> w' = w\<lparr>colliders := colliders w'\<rparr> \<and>
         HasCollider w' NULL_ENTITY = Inr True \<and>
         Get_value (colliders w') NULL_ENTITY = Inr (Some v5) \<and>
         (\<forall>e. e \<noteq> NULL_ENTITY \<longrightarrow> HasCollider w' e = HasCollider w e \<and>
            Get_value (colliders w') e = Get_value (colliders w) e))) \<and>
      (refers_to (collisionStates w) NULL_ENTITY c6 v6 \<longrightarrow>
       (\<exists>w'. AddCollisionState w NULL_ENTITY c6 = Inr w' \<and> w' = w\<lparr>collisionStates := collisionStates w'\<rparr> \<and>
         HasCollisionState w' NULL_ENTITY = Inr True \<and>
         Get_value (collisionStates w') NULL_ENTITY = Inr (Some v6) \<and>
         (\<forall>e. e \<noteq> NULL_ENTITY \<longrightarrow> HasCollisionState w' e = HasCollisionState w e \<and>
            Get_value (collisionStates w') e = Get_value (collisionStates w) e))) \<and>
      (refers_to (players w) NULL_ENTITY c7 v7 \<longrightarrow>
       (\<exists>w'. AddPlayer w NULL_ENTITY c7 = Inr w' \<and> w' = w\<lparr>players := players w'\<rparr> \<and>
         HasPlayer w' NULL_ENTITY = Inr True \<and>
         Get_value (players w') NULL_ENTITY = Inr (Some v7) \<and>
         (\<forall>e. e \<noteq> NULL_ENTITY \<longrightarrow> HasPlayer w' e = HasPlayer w e \<and>
            Get_value (players w') e = Get_value (players w) e)))"
    using
      AddTransform_effect[OF _ NULL_ENTITY_in_range, of w c1 v1]
      AddSprite_effect[OF _ NULL_ENTITY_in_range, of w c2 v2]
      AddAnimation_effect[OF _ NULL_ENTITY_in_range, of w c3 v3]
      AddPhysics_effect[OF _ NULL_ENTITY_in_range, of w c4 v4]
      AddCollider_effect[OF _ NULL_ENTITY_in_range, of w c5 v5]
      AddCollisionState_effect[OF _ NULL_ENTITY_in_range, of w c6 v6]
      AddPlayer_effect[OF _ NULL_ENTITY_in_range, of w c7 v7]
    by blast
qed

theorem null_entity_is_ordinary_witness:
  "(\<forall>v. OpAdd NULL_ENTITY v \<notin> set [OpAdd 1 (Player 1 2), OpRemove NULL_ENTITY, OpClear, OpAdd 2 (Player 3 4)]) \<and>
   (\<exists>s. SparseSet_run SparseSet_new [OpAdd 1 (Player 1 2), OpRemove NULL_ENTITY, OpClear, OpAdd 2 (Player 3 4)] = Inr s \<and>
      Has s NULL_ENTITY = Inr False) \<and>
   (\<forall>v. DoAddPlayer NULL_ENTITY v \<notin> set [DoCreateEntity, DoAddPlayer 1 (Player 1 2), DoAddTransform NULL_ENTITY default,
      DoRemovePlayer 1, DoDestroyEntity 7]) \<and>
   (\<exists>w1. World_run World_new [DoCreateEntity, DoAddPlayer 1 (Player 1 2), DoAddTransform NULL_ENTITY default,
      DoRemovePlayer 1, DoDestroyEntity 7] = Inr w1 \<and>
      HasPlayer w1 NULL_ENTITY = Inr False) \<and>
   World_inv World_new \<and>
   refers_to (players World_new) NULL_ENTITY (Object (Player 1 2)) (Player 1 2) \<and>
   (\<exists>w'. AddPlayer World_new NULL_ENTITY (Object (Player 1 2)) = Inr w' \<and>
      HasPlayer w' NULL_ENTITY = Inr True \<and>
      Get_value (players w') NULL_ENTITY = Inr (Some (Player 1 2)) \<and>
      (1 :: Entity) \<noteq> NULL_ENTITY \<and> HasPlayer w' 1 = HasPlayer World_new 1 \<and>
      transforms w' = transforms World_new)"
proof -
  let ?sops = "[OpAdd 1 (Player 1 2), OpRemove NULL_ENTITY, OpClear, OpAdd 2 (Player 3 4)]"
  let ?ops = "[DoCreateEntity, DoAddPlayer 1 (Player 1 2), DoAddTransform NULL_ENTITY default,
      DoRemovePlayer 1, DoDestroyEntity 7]"
  note t = null_entity_is_ordinary[where sops = ?sops and ops = ?ops and w = World_new
      and ?c1.0 = "Object default" and ?v1.0 = default
      and ?c2.0 = "Object default" and ?v2.0 = default
      and ?c3.0 = "Object default" and ?v3.0 = default
      and ?c4.0 = "Object default" and ?v4.0 = default
      and ?c5.0 = "Object default" and ?v5.0 = default
      and ?c6.0 = "Object default" and ?v6.0 = default
      and ?c7.0 = "Object (Player 1 2)" and ?v7.0 = "Player 1 2"]
  note t1 = t[THEN conjunct1] and t2 = t[THEN conjunct2, THEN conjunct1]
    and t3 = t[THEN conjunct2, THEN conjunct2]
  have n: "(1 :: Entity) \<noteq> NULL_ENTITY" by (simp add: NULL_ENTITY_def)
  have a: "\<forall>v. OpAdd NULL_ENTITY v \<notin> set ?sops" by (simp add: NULL_ENTITY_def)
  have b: "\<forall>v. DoAddPlayer NULL_ENTITY v \<notin> set ?ops" by (simp add: NULL_ENTITY_def)
  have r: "refers_to (players World_new) NULL_ENTITY (Object (Player 1 2)) (Player 1 2)"
    by simp
  have p1: "\<exists>s. SparseSet_run SparseSet_new ?sops = Inr s \<and> Has s NULL_ENTITY = Inr False"
    using t1 a by blast
  have p2: "\<exists>w1. World_run World_new ?ops = Inr w1 \<and> HasPlayer w1 NULL_ENTITY = Inr False"
    using t2 b by blast
  have "\<exists>w'. AddPlayer World_new NULL_ENTITY (Object (Player 1 2)) = Inr w' \<and>
         w' = World_new\<lparr>players := players w'\<rparr> \<and>
         HasPlayer w' NULL_ENTITY = Inr True \<and>
         Get_value (players w') NULL_ENTITY = Inr (Some (Player 1 2)) \<and>
         (\<forall>e. e \<noteq> NULL_ENTITY \<longrightarrow> HasPlayer w' e = HasPlayer World_new e \<and>
            Get_value (players w') e = Get_value (players World_new) e)"
    using World_inv_new r t3 by blast
  then obtain w' where w': "AddPlayer World_new NULL_ENTITY (Object (Player 1 2)) = Inr w'"
    "w' = World_new\<lparr>players := players w'\<rparr>" "HasPlayer w' NULL_ENTITY = Inr True"
    "Get_value (players w') NULL_ENTITY = Inr (Some (Player 1 2))"
    "HasPlayer w' 1 = HasPlayer World_new 1"
    using n by blast
  have "transforms w' = transforms (World_new\<lparr>players := players w'\<rparr>)"
    using w'(2) by simp
  then have tr: "transforms w' = transforms World_new" by simp
  have p3: "\<exists>w'. AddPlayer World_new NULL_ENTITY (Object (Player 1 2)) = Inr w' \<and>
      HasPlayer w' NULL_ENTITY = Inr True \<and>
      Get_value (players w') NULL_ENTITY = Inr (Some (Player 1 2)) \<and>
      (1 :: Entity) \<noteq> NULL_ENTITY \<and> HasPlayer w' 1 = HasPlayer World_new 1 \<and>
      transforms w' = transforms World_new"
    using w'(1,3,4,5) n tr by blast
  show ?thesis
    by (intro conjI) (rule a b r p1 p2 p3 World_inv_new)+
qed

section \<open>Properties of the query engine\<close>

declare Query2_first.simps [simp del] Query2_second.simps [simp del]
  Query3_loop.simps [simp del] Query4_loop.simps [simp del]
  Query5_loop.simps [simp del] Query6_loop.simps [simp del]

subsection \<open>The dense prefix lists the members\<close>

lemma dense_members:
  assumes inv: "SparseSet_inv s"
  shows "distinct (take (nat (count s)) (dense s))"
    "set (take (nat (count s)) (dense s)) = {e. present s e}"
proof -
  note z = inv_sizes[OF inv]
  let ?n = "nat (count s)"
  have len: "length (take ?n (dense s)) = ?n" using z by simp
  have nth: "take ?n (dense s) ! i = dense s ! i" if "i < ?n" for i using that by simp
  show "distinct (take ?n (dense s))"
    unfolding distinct_conv_nth len
  proof (intro allI impI)
    fix i j assume ij: "i < ?n" "j < ?n" "i \<noteq> j"
    have "uint (sparse s ! unat (dense s ! i)) = int i"
      "uint (sparse s ! unat (dense s ! j)) = int j"
      using dense_present(2)[OF inv, of "int i"] dense_present(2)[OF inv, of "int j"] ij
      by simp_all
    then have "dense s ! i \<noteq> dense s ! j" using ij(3) by (metis of_nat_eq_iff)
    then show "take ?n (dense s) ! i \<noteq> take ?n (dense s) ! j" using ij by (simp add: nth)
  qed
  show "set (take ?n (dense s)) = {e. present s e}"
  proof (intro set_eqI iffI)
    fix e assume "e \<in> set (take ?n (dense s))"
    then obtain i where i: "i < ?n" "take ?n (dense s) ! i = e"
      unfolding in_set_conv_nth len by blast
    have "present s (dense s ! nat (int i))"
      by (rule dense_present(1)[OF inv]) (use i in simp_all)
    then show "e \<in> {e. present s e}" using i by (simp add: nth)
  next
    fix e assume "e \<in> {e. present s e}"
    then have p: "present s e" by simp
    note b = slot_bounds[OF inv p]
    have lt: "unat (sparse s ! unat e) < ?n" using b(2) z by (simp add: unat_less_uint)
    then have "take ?n (dense s) ! unat (sparse s ! unat e) = e" using b(5) by (simp add: nth)
    then show "e \<in> set (take ?n (dense s))"
      unfolding in_set_conv_nth len using lt by blast
  qed
qed

lemma drop_take_step:
  "i < n \<Longrightarrow> n \<le> length xs \<Longrightarrow> drop i (take n xs) = xs ! i # drop (Suc i) (take n xs)"
  by (metis Cons_nth_drop_Suc length_take min.absorb2 nth_take)

subsection \<open>What one round of a loop reads\<close>

lemma Get_ptr: "SparseSet_inv s \<Longrightarrow> Get s e = Inr (ptr s e)"
  by (simp add: Get_inv ptr_def)

lemma ptr_None [simp]: "ptr s e \<noteq> None \<longleftrightarrow> present s e" "ptr s e = None \<longleftrightarrow> \<not> present s e"
  by (simp_all add: ptr_def)

lemma GetData_ptr:
  assumes inv: "SparseSet_inv s" and p: "present s e"
  shows "GetData s (the (ptr s e)) = Inr (the (lookup s e))"
proof -
  note b = slot_bounds[OF inv p]
  have "Array_get (data s) (uint (sparse s ! unat e)) = Inr (data s ! unat (sparse s ! unat e))"
    using b inv_sizes(7)[OF inv] by (simp add: Array_get_ok)
  then show ?thesis using p by (simp add: GetData_def ptr_def lookup_def)
qed

lemma round_reads:
  assumes inv: "SparseSet_inv s" and i: "0 \<le> i" "i < count s"
  shows "GetEntity s i = Inr (dense s ! nat i)"
    "GetData s i = Inr (the (lookup s (dense s ! nat i)))"
    "ptr s (dense s ! nat i) = Some i"
proof -
  note z = inv_sizes[OF inv]
  show "GetEntity s i = Inr (dense s ! nat i)"
    using i z by (simp add: GetEntity_def Array_get_ok)
  have p: "present s (dense s ! nat i)" by (rule dense_present(1)[OF inv i])
  have u: "uint (sparse s ! unat (dense s ! nat i)) = i" by (rule dense_present(2)[OF inv i])
  then have "unat (sparse s ! unat (dense s ! nat i)) = nat i" by (metis nat_uint_eq)
  then have "the (lookup s (dense s ! nat i)) = data s ! nat i" using p by (simp add: lookup_def)
  then show "GetData s i = Inr (the (lookup s (dense s ! nat i)))"
    using i z by (simp add: GetData_def Array_get_ok)
  show "ptr s (dense s ! nat i) = Some i" using p u by (simp add: ptr_def)
qed

lemma drop_round:
  assumes inv: "SparseSet_inv s" and i: "0 \<le> i" "i < count s"
  shows "drop (nat i) (take (nat (count s)) (dense s)) =
           dense s ! nat i # drop (nat (i + 1)) (take (nat (count s)) (dense s))"
proof -
  have "nat i < nat (count s)" "nat (count s) \<le> length (dense s)"
    using i inv_sizes[OF inv] by simp_all
  then have "drop (nat i) (take (nat (count s)) (dense s)) =
           dense s ! nat i # drop (Suc (nat i)) (take (nat (count s)) (dense s))"
    by (rule drop_take_step)
  moreover have "Suc (nat i) = nat (i + 1)" using i by simp
  ultimately show ?thesis by simp
qed

lemma round_fresh:
  assumes inv: "SparseSet_inv s" and i: "0 \<le> i" "i < count s"
  shows "dense s ! nat i \<notin> set (drop (nat (i + 1)) (take (nat (count s)) (dense s)))"
proof -
  have "distinct (drop (nat i) (take (nat (count s)) (dense s)))"
    using dense_members(1)[OF inv] by simp
  then show ?thesis unfolding drop_round[OF inv i] by simp
qed

lemma drop_done:
  assumes "\<not> i < count s" "0 \<le> i"
  shows "drop (nat i) (take (nat (count s)) (dense s)) = []"
  using assms by simp

subsection \<open>Writes through the visitor's references\<close>

lemma same_members_refl [simp]: "same_members s s"
  by (simp add: same_members_def)

lemma same_members_trans: "same_members s s' \<Longrightarrow> same_members s' s'' \<Longrightarrow> same_members s s''"
  by (simp add: same_members_def)

lemma same_members_inv: "SparseSet_inv s \<Longrightarrow> same_members s s' \<Longrightarrow> SparseSet_inv s'"
  by (simp add: same_members_def SparseSet_inv_def)

lemma same_members_present: "same_members s s' \<Longrightarrow> present s' e = present s e"
  by (simp add: same_members_def present_def)

lemma same_members_Has:
  assumes "SparseSet_inv s" "same_members s s'"
  shows "Has s' e = Has s e"
  using assms same_members_inv[OF assms] by (simp add: Has_inv same_members_present)

lemma same_members_dense:
  "same_members s s' \<Longrightarrow> take (nat (count s')) (dense s') = take (nat (count s)) (dense s)"
  by (simp add: same_members_def)

lemma SetData_ptr:
  assumes inv: "SparseSet_inv s" and p: "present s e"
  shows "\<exists>s'. SetData s (the (ptr s e)) v = Inr s' \<and> same_members s s' \<and>
           (\<forall>e'. lookup s' e' = (if e' = e then Some v else lookup s e'))"
proof -
  note b = slot_bounds[OF inv p]
  let ?k = "unat (sparse s ! unat e)"
  let ?s' = "s\<lparr>data := (data s)[?k := v]\<rparr>"
  have k: "nat (uint (sparse s ! unat e)) = ?k" by simp
  have "Array_set (data s) (uint (sparse s ! unat e)) v = Inr ((data s)[?k := v])"
    using b inv_sizes(7)[OF inv] by (simp add: Array_set_ok)
  then have w: "SetData s (the (ptr s e)) v = Inr ?s'" using p by (simp add: SetData_def ptr_def)
  have m: "same_members s ?s'" by (simp add: same_members_def)
  have l: "lookup ?s' e' = (if e' = e then Some v else lookup s e')" for e'
  proof (cases "e' = e")
    case True
    then show ?thesis using p b(6) by (simp add: lookup_def present_def)
  next
    case False
    show ?thesis
    proof (cases "present s e'")
      case True
      have "unat (sparse s ! unat e') \<noteq> ?k" by (rule slot_neq(3)[OF inv True p False])
      then show ?thesis using True False by (simp add: lookup_def present_def)
    next
      case False
      then show ?thesis using \<open>e' \<noteq> e\<close> by (simp add: lookup_def present_def)
    qed
  qed
  show ?thesis using w m l by blast
qed

lemma SetData_drive:
  assumes inv: "SparseSet_inv s" and i: "0 \<le> i" "i < count s"
  shows "\<exists>s'. SetData s i v = Inr s' \<and> same_members s s' \<and>
           (\<forall>e'. lookup s' e' = (if e' = dense s ! nat i then Some v else lookup s e'))"
  using SetData_ptr[OF inv dense_present(1)[OF inv i], of v] round_reads(3)[OF inv i] by simp

lemma written_Nil: "written [] P new s s"
  by (simp add: written_def)

lemma written_skip:
  assumes "written rest P new s u" and "\<not> P e"
  shows "written (e # rest) P new s u"
  using assms by (auto simp add: written_def)

lemma written_step:
  assumes sm: "same_members s t"
    and wt: "\<forall>e'. lookup t e' = (if e' = e then Some (new e) else lookup s e')"
    and wr: "written rest P new' t u"
    and ne: "e \<notin> set rest" and pe: "P e"
    and cg: "\<And>e'. e' \<in> set rest \<Longrightarrow> P e' \<Longrightarrow> new' e' = new e'"
  shows "written (e # rest) P new s u"
proof -
  have m: "same_members s u" using sm wr by (auto simp add: written_def intro: same_members_trans)
  have u: "lookup u e' = (if e' \<in> set rest \<and> P e' then Some (new' e') else lookup t e')" for e'
    using wr by (simp add: written_def)
  have "lookup u e' = (if e' \<in> set (e # rest) \<and> P e' then Some (new e') else lookup s e')" for e'
  proof (cases "e' = e")
    case True
    then show ?thesis using u[of e] wt ne pe by simp
  next
    case False
    then show ?thesis using u[of e'] wt cg[of e'] by auto
  qed
  then show ?thesis using m by (simp add: written_def)
qed

lemma written_values:
  assumes inv: "SparseSet_inv s" and w: "written es P new s s'"
  shows "SparseSet_inv s'" "Has s' e = Has s e"
    "Get_value s' e = (if e \<in> set es \<and> P e then Inr (Some (new e)) else Get_value s e)"
proof -
  have m: "same_members s s'" using w by (simp add: written_def)
  show i: "SparseSet_inv s'" by (rule same_members_inv[OF inv m])
  show "Has s' e = Has s e" by (rule same_members_Has[OF inv m])
  show "Get_value s' e = (if e \<in> set es \<and> P e then Inr (Some (new e)) else Get_value s e)"
    using w by (simp add: Get_value_inv[OF i] Get_value_inv[OF inv] written_def)
qed

subsection \<open>Logs made of rounds\<close>

lemma visited_append: "visited (xs @ ys) = visited xs @ visited ys"
  by (induction xs rule: visited.induct) simp_all

lemma probed_append: "probed (xs @ ys) = probed xs @ probed ys"
  by (induction xs rule: probed.induct) simp_all

lemma visited_probes: "visited (map (\<lambda>k. Probe k e) ks) = []"
  by (induction ks) simp_all

lemma probed_probes: "probed (map (\<lambda>k. Probe k e) ks) = map (\<lambda>k. (k, e)) ks"
  by (induction ks) simp_all

lemma visited_rounds: "visited (concat (map (round_events ks P val) es)) = filter P es"
  by (induction es) (simp_all add: visited_append visited_probes round_events_def)

lemma probed_rounds:
  "probed (concat (map (round_events ks P val) es)) = concat (map (\<lambda>e. map (\<lambda>k. (k, e)) ks) es)"
  by (induction es) (simp_all add: probed_append probed_probes round_events_def)

lemma Visit_rounds:
  "Visit e cs \<in> set (concat (map (round_events ks P val) es)) \<longleftrightarrow> e \<in> set es \<and> P e \<and> cs = val e"
  by (induction es) (auto simp add: round_events_def)

lemma rounds_cong:
  assumes "\<And>e. e \<in> set es \<Longrightarrow> P e = P' e" "\<And>e. e \<in> set es \<Longrightarrow> val e = val' e"
  shows "concat (map (round_events ks P val) es) = concat (map (round_events ks P' val') es)"
proof -
  have "map (round_events ks P val) es = map (round_events ks P' val') es"
    by (rule map_cong[OF refl]) (simp add: round_events_def assms)
  then show ?thesis by (rule arg_cong)
qed

subsection \<open>Two kinds\<close>

lemma Query2_first_loop:
  "SparseSet_inv s1 \<Longrightarrow> SparseSet_inv s2 \<Longrightarrow> 0 \<le> i \<Longrightarrow>
   \<exists>s1' s2'. Query2_first func s1 s2 i log =
       Inr (s1', s2', log @ concat (map (round_events [2]
                  (\<lambda>e. present s2 e)
                  (\<lambda>e. (the (lookup s1 e), the (lookup s2 e))))
                  (drop (nat i) (take (nat (count s1)) (dense s1))))) \<and>
     written (drop (nat i) (take (nat (count s1)) (dense s1)))
        (\<lambda>e. present s2 e)
        (\<lambda>e. fst (func e (the (lookup s1 e)) (the (lookup s2 e)))) s1 s1' \<and>
     written (drop (nat i) (take (nat (count s1)) (dense s1)))
        (\<lambda>e. present s2 e)
        (\<lambda>e. snd (func e (the (lookup s1 e)) (the (lookup s2 e)))) s2 s2'"
proof (induction "nat (count s1 - i)" arbitrary: i log s1 s2)
  case 0
  then have "\<not> i < count s1" by simp
  then show ?case using "0.prems"
    by (intro exI[of _ s1] exI[of _ s2])
      (simp add: Query2_first.simps[of func s1 s2 i] Count_def written_Nil)
next
  case (Suc k)
  note inv1 = Suc.prems(1) and inv2 = Suc.prems(2) and i0 = Suc.prems(3)
  have lt: "i < count s1" using Suc.hyps(2) by simp
  let ?e = "dense s1 ! nat i"
  let ?rest = "drop (nat (i + 1)) (take (nat (count s1)) (dense s1))"
  let ?P = "(\<lambda>e. present s2 e)"
  note dr = drop_round[OF inv1 i0 lt]
  note ne = round_fresh[OF inv1 i0 lt]
  note rr = round_reads[OF inv1 i0 lt]
  note gp = Get_ptr[OF inv2]
  have i1: "0 \<le> i + 1" using i0 by simp
  show ?case
  proof (cases "present s2 ?e")
    case True
    then have p: "present s2 ?e" by simp_all
    note gd = GetData_ptr[OF inv2 p(1)]
    let ?r = "func ?e (the (lookup s1 ?e)) (the (lookup s2 ?e))"
    let ?log = "log @ [Probe 2 ?e,
        Visit ?e (the (lookup s1 ?e), the (lookup s2 ?e))]"
    obtain t1 where w1: "SetData s1 i (fst (?r)) = Inr t1" "same_members s1 t1"
      "\<forall>e'. lookup t1 e' = (if e' = ?e then Some (fst (?r)) else lookup s1 e')"
      using SetData_drive[OF inv1 i0 lt] by blast
    obtain t2 where w2: "SetData s2 (the (ptr s2 ?e)) (snd (?r)) = Inr t2" "same_members s2 t2"
      "\<forall>e'. lookup t2 e' = (if e' = ?e then Some (snd (?r)) else lookup s2 e')"
      using SetData_ptr[OF inv2 p(1)] by blast
    have step: "Query2_first func s1 s2 i log = Query2_first func t1 t2 (i + 1) ?log"
      using p lt
      by (simp add: Query2_first.simps[of func s1 s2 i] Count_def rr(1,2) gp gd
          w1(1) w2(1) case_prod_beta)
    have k: "k = nat (count t1 - (i + 1))" using Suc.hyps(2) w1(2) by (simp add: same_members_def)
    have pt: "(\<lambda>e. present t2 e) = ?P"
      by (simp add: same_members_present[OF w2(2)])
    obtain u1 u2 where ih: "Query2_first func t1 t2 (i + 1) ?log =
       Inr (u1, u2, ?log @ concat (map (round_events [2]
                  (\<lambda>e. present t2 e)
                  (\<lambda>e. (the (lookup t1 e), the (lookup t2 e))))
                  ?rest))"
      "written ?rest ?P
        (\<lambda>e. fst (func e (the (lookup t1 e)) (the (lookup t2 e)))) t1 u1"
      "written ?rest ?P
        (\<lambda>e. snd (func e (the (lookup t1 e)) (the (lookup t2 e)))) t2 u2"
      using Suc.hyps(1)[OF k same_members_inv[OF inv1 w1(2)] same_members_inv[OF inv2 w2(2)] i1]
      unfolding same_members_dense[OF w1(2)] pt by blast
    have other: "lookup t1 e' = lookup s1 e' \<and> lookup t2 e' = lookup s2 e'" if "e' \<in> set ?rest" for e'
      using that ne w1(3) w2(3) by auto
    have cg: "concat (map (round_events [2]
                  (\<lambda>e. present t2 e)
                  (\<lambda>e. (the (lookup t1 e), the (lookup t2 e)))) ?rest) =
        concat (map (round_events [2]
                  (\<lambda>e. present s2 e)
                  (\<lambda>e. (the (lookup s1 e), the (lookup s2 e)))) ?rest)"
      unfolding pt by (rule rounds_cong) (simp_all add: other)
    have q: "Query2_first func s1 s2 i log =
       Inr (u1, u2, log @ concat (map (round_events [2]
                  (\<lambda>e. present s2 e)
                  (\<lambda>e. (the (lookup s1 e), the (lookup s2 e))))
                  (drop (nat i) (take (nat (count s1)) (dense s1)))))"
      unfolding step ih(1) cg dr using p
      by (simp add: round_events_def)
    have f1: "written (drop (nat i) (take (nat (count s1)) (dense s1)))
        (\<lambda>e. present s2 e)
        (\<lambda>e. fst (func e (the (lookup s1 e)) (the (lookup s2 e)))) s1 u1"
      unfolding dr
    proof (rule written_step[where t = t1 and new' = "(\<lambda>e. fst (func e (the (lookup t1 e)) (the (lookup t2 e))))"])
      show "same_members s1 t1" by (rule w1(2))
      show "\<forall>e'. lookup t1 e' = (if e' = ?e then Some ((\<lambda>e. fst (func e (the (lookup s1 e)) (the (lookup s2 e)))) ?e) else lookup s1 e')"
        using w1(3) by simp
      show "written ?rest ?P
        (\<lambda>e. fst (func e (the (lookup t1 e)) (the (lookup t2 e)))) t1 u1" by (rule ih(2))
      show "?e \<notin> set ?rest" by (rule ne)
      show "?P ?e" using p by simp
      show "(\<lambda>e. fst (func e (the (lookup t1 e)) (the (lookup t2 e)))) e' = (\<lambda>e. fst (func e (the (lookup s1 e)) (the (lookup s2 e)))) e'" if "e' \<in> set ?rest" "?P e'" for e'
        using other[OF that(1)] by simp
    qed
    have f2: "written (drop (nat i) (take (nat (count s1)) (dense s1)))
        (\<lambda>e. present s2 e)
        (\<lambda>e. snd (func e (the (lookup s1 e)) (the (lookup s2 e)))) s2 u2"
      unfolding dr
    proof (rule written_step[where t = t2 and new' = "(\<lambda>e. snd (func e (the (lookup t1 e)) (the (lookup t2 e))))"])
      show "same_members s2 t2" by (rule w2(2))
      show "\<forall>e'. lookup t2 e' = (if e' = ?e then Some ((\<lambda>e. snd (func e (the (lookup s1 e)) (the (lookup s2 e)))) ?e) else lookup s2 e')"
        using w2(3) by simp
      show "written ?rest ?P
        (\<lambda>e. snd (func e (the (lookup t1 e)) (the (lookup t2 e)))) t2 u2" by (rule ih(3))
      show "?e \<notin> set ?rest" by (rule ne)
      show "?P ?e" using p by simp
      show "(\<lambda>e. snd (func e (the (lookup t1 e)) (the (lookup t2 e)))) e' = (\<lambda>e. snd (func e (the (lookup s1 e)) (the (lookup s2 e)))) e'" if "e' \<in> set ?rest" "?P e'" for e'
        using other[OF that(1)] by simp
    qed
    show ?thesis
      using q f1 f2 by blast
  next
    case False
    then have nf: "(present s2 ?e) = False" by simp
    let ?log = "log @ [Probe 2 ?e]"
    have step: "Query2_first func s1 s2 i log = Query2_first func s1 s2 (i + 1) ?log"
      using lt
      by (simp add: Query2_first.simps[of func s1 s2 i] Count_def rr(1) gp nf)
    have k: "k = nat (count s1 - (i + 1))" using Suc.hyps(2) by simp
    obtain u1 u2 where ih: "Query2_first func s1 s2 (i + 1) ?log =
       Inr (u1, u2, ?log @ concat (map (round_events [2]
                  (\<lambda>e. present s2 e)
                  (\<lambda>e. (the (lookup s1 e), the (lookup s2 e))))
                  ?rest))"
      "written ?rest ?P
        (\<lambda>e. fst (func e (the (lookup s1 e)) (the (lookup s2 e)))) s1 u1"
      "written ?rest ?P
        (\<lambda>e. snd (func e (the (lookup s1 e)) (the (lookup s2 e)))) s2 u2"
      using Suc.hyps(1)[OF k inv1 inv2 i1] by blast
    have q: "Query2_first func s1 s2 i log =
       Inr (u1, u2, log @ concat (map (round_events [2]
                  (\<lambda>e. present s2 e)
                  (\<lambda>e. (the (lookup s1 e), the (lookup s2 e))))
                  (drop (nat i) (take (nat (count s1)) (dense s1)))))"
      unfolding step ih(1) dr using nf by (simp add: round_events_def)
    have np: "\<not> ?P ?e" using nf by simp
    have f1: "written (drop (nat i) (take (nat (count s1)) (dense s1)))
        (\<lambda>e. present s2 e)
        (\<lambda>e. fst (func e (the (lookup s1 e)) (the (lookup s2 e)))) s1 u1"
      unfolding dr by (rule written_skip[OF ih(2) np])
    have f2: "written (drop (nat i) (take (nat (count s1)) (dense s1)))
        (\<lambda>e. present s2 e)
        (\<lambda>e. snd (func e (the (lookup s1 e)) (the (lookup s2 e)))) s2 u2"
      unfolding dr by (rule written_skip[OF ih(3) np])
    show ?thesis
      using q f1 f2 by blast
  qed
qed

lemma Query2_second_loop:
  "SparseSet_inv s1 \<Longrightarrow> SparseSet_inv s2 \<Longrightarrow> 0 \<le> i \<Longrightarrow>
   \<exists>s1' s2'. Query2_second func s1 s2 i log =
       Inr (s1', s2', log @ concat (map (round_events [1]
                  (\<lambda>e. present s1 e)
                  (\<lambda>e. (the (lookup s1 e), the (lookup s2 e))))
                  (drop (nat i) (take (nat (count s2)) (dense s2))))) \<and>
     written (drop (nat i) (take (nat (count s2)) (dense s2)))
        (\<lambda>e. present s1 e)
        (\<lambda>e. fst (func e (the (lookup s1 e)) (the (lookup s2 e)))) s1 s1' \<and>
     written (drop (nat i) (take (nat (count s2)) (dense s2)))
        (\<lambda>e. present s1 e)
        (\<lambda>e. snd (func e (the (lookup s1 e)) (the (lookup s2 e)))) s2 s2'"
proof (induction "nat (count s2 - i)" arbitrary: i log s1 s2)
  case 0
  then have "\<not> i < count s2" by simp
  then show ?case using "0.prems"
    by (intro exI[of _ s1] exI[of _ s2])
      (simp add: Query2_second.simps[of func s1 s2 i] Count_def written_Nil)
next
  case (Suc k)
  note inv1 = Suc.prems(1) and inv2 = Suc.prems(2) and i0 = Suc.prems(3)
  have lt: "i < count s2" using Suc.hyps(2) by simp
  let ?e = "dense s2 ! nat i"
  let ?rest = "drop (nat (i + 1)) (take (nat (count s2)) (dense s2))"
  let ?P = "(\<lambda>e. present s1 e)"
  note dr = drop_round[OF inv2 i0 lt]
  note ne = round_fresh[OF inv2 i0 lt]
  note rr = round_reads[OF inv2 i0 lt]
  note gp = Get_ptr[OF inv1]
  have i1: "0 \<le> i + 1" using i0 by simp
  show ?case
  proof (cases "present s1 ?e")
    case True
    then have p: "present s1 ?e" by simp_all
    note gd = GetData_ptr[OF inv1 p(1)]
    let ?r = "func ?e (the (lookup s1 ?e)) (the (lookup s2 ?e))"
    let ?log = "log @ [Probe 1 ?e,
        Visit ?e (the (lookup s1 ?e), the (lookup s2 ?e))]"
    obtain t1 where w1: "SetData s1 (the (ptr s1 ?e)) (fst (?r)) = Inr t1" "same_members s1 t1"
      "\<forall>e'. lookup t1 e' = (if e' = ?e then Some (fst (?r)) else lookup s1 e')"
      using SetData_ptr[OF inv1 p(1)] by blast
    obtain t2 where w2: "SetData s2 i (snd (?r)) = Inr t2" "same_members s2 t2"
      "\<forall>e'. lookup t2 e' = (if e' = ?e then Some (snd (?r)) else lookup s2 e')"
      using SetData_drive[OF inv2 i0 lt] by blast
    have step: "Query2_second func s1 s2 i log = Query2_second func t1 t2 (i + 1) ?log"
      using p lt
      by (simp add: Query2_second.simps[of func s1 s2 i] Count_def rr(1,2) gp gd
          w1(1) w2(1) case_prod_beta)
    have k: "k = nat (count t2 - (i + 1))" using Suc.hyps(2) w2(2) by (simp add: same_members_def)
    have pt: "(\<lambda>e. present t1 e) = ?P"
      by (simp add: same_members_present[OF w1(2)])
    obtain u1 u2 where ih: "Query2_second func t1 t2 (i + 1) ?log =
       Inr (u1, u2, ?log @ concat (map (round_events [1]
                  (\<lambda>e. present t1 e)
                  (\<lambda>e. (the (lookup t1 e), the (lookup t2 e))))
                  ?rest))"
      "written ?rest ?P
        (\<lambda>e. fst (func e (the (lookup t1 e)) (the (lookup t2 e)))) t1 u1"
      "written ?rest ?P
        (\<lambda>e. snd (func e (the (lookup t1 e)) (the (lookup t2 e)))) t2 u2"
      using Suc.hyps(1)[OF k same_members_inv[OF inv1 w1(2)] same_members_inv[OF inv2 w2(2)] i1]
      unfolding same_members_dense[OF w2(2)] pt by blast
    have other: "lookup t1 e' = lookup s1 e' \<and> lookup t2 e' = lookup s2 e'" if "e' \<in> set ?rest" for e'
      using that ne w1(3) w2(3) by auto
    have cg: "concat (map (round_events [1]
                  (\<lambda>e. present t1 e)
                  (\<lambda>e. (the (lookup t1 e), the (lookup t2 e)))) ?rest) =
        concat (map (round_events [1]
                  (\<lambda>e. present s1 e)
                  (\<lambda>e. (the (lookup s1 e), the (lookup s2 e)))) ?rest)"
      unfolding pt by (rule rounds_cong) (simp_all add: other)
    have q: "Query2_second func s1 s2 i log =
       Inr (u1, u2, log @ concat (map (round_events [1]
                  (\<lambda>e. present s1 e)
                  (\<lambda>e. (the (lookup s1 e), the (lookup s2 e))))
                  (drop (nat i) (take (nat (count s2)) (dense s2)))))"
      unfolding step ih(1) cg dr using p
      by (simp add: round_events_def)
    have f1: "written (drop (nat i) (take (nat (count s2)) (dense s2)))
        (\<lambda>e. present s1 e)
        (\<lambda>e. fst (func e (the (lookup s1 e)) (the (lookup s2 e)))) s1 u1"
      unfolding dr
    proof (rule written_step[where t = t1 and new' = "(\<lambda>e. fst (func e (the (lookup t1 e)) (the (lookup t2 e))))"])
      show "same_members s1 t1" by (rule w1(2))
      show "\<forall>e'. lookup t1 e' = (if e' = ?e then Some ((\<lambda>e. fst (func e (the (lookup s1 e)) (the (lookup s2 e)))) ?e) else lookup s1 e')"
        using w1(3) by simp
      show "written ?rest ?P
        (\<lambda>e. fst (func e (the (lookup t1 e)) (the (lookup t2 e)))) t1 u1" by (rule ih(2))
      show "?e \<notin> set ?rest" by (rule ne)
      show "?P ?e" using p by simp
      show "(\<lambda>e. fst (func e (the (lookup t1 e)) (the (lookup t2 e)))) e' = (\<lambda>e. fst (func e (the (lookup s1 e)) (the (lookup s2 e)))) e'" if "e' \<in> set ?rest" "?P e'" for e'
        using other[OF that(1)] by simp
    qed
    have f2: "written (drop (nat i) (take (nat (count s2)) (dense s2)))
        (\<lambda>e. present s1 e)
        (\<lambda>e. snd (func e (the (lookup s1 e)) (the (lookup s2 e)))) s2 u2"
      unfolding dr
    proof (rule written_step[where t = t2 and new' = "(\<lambda>e. snd (func e (the (lookup t1 e)) (the (lookup t2 e))))"])
      show "same_members s2 t2" by (rule w2(2))
      show "\<forall>e'. lookup t2 e' = (if e' = ?e then Some ((\<lambda>e. snd (func e (the (lookup s1 e)) (the (lookup s2 e)))) ?e) else lookup s2 e')"
        using w2(3) by simp
      show "written ?rest ?P
        (\<lambda>e. snd (func e (the (lookup t1 e)) (the (lookup t2 e)))) t2 u2" by (rule ih(3))
      show "?e \<notin> set ?rest" by (rule ne)
      show "?P ?e" using p by simp
      show "(\<lambda>e. snd (func e (the (lookup t1 e)) (the (lookup t2 e)))) e' = (\<lambda>e. snd (func e (the (lookup s1 e)) (the (lookup s2 e)))) e'" if "e' \<in> set ?rest" "?P e'" for e'
        using other[OF that(1)] by simp
    qed
    show ?thesis
      using q f1 f2 by blast
  next
    case False
    then have nf: "(present s1 ?e) = False" by simp
    let ?log = "log @ [Probe 1 ?e]"
    have step: "Query2_second func s1 s2 i log = Query2_second func s1 s2 (i + 1) ?log"
      using lt
      by (simp add: Query2_second.simps[of func s1 s2 i] Count_def rr(1) gp nf)
    have k: "k = nat (count s2 - (i + 1))" using Suc.hyps(2) by simp
    obtain u1 u2 where ih: "Query2_second func s1 s2 (i + 1) ?log =
       Inr (u1, u2, ?log @ concat (map (round_events [1]
                  (\<lambda>e. present s1 e)
                  (\<lambda>e. (the (lookup s1 e), the (lookup s2 e))))
                  ?rest))"
      "written ?rest ?P
        (\<lambda>e. fst (func e (the (lookup s1 e)) (the (lookup s2 e)))) s1 u1"
      "written ?rest ?P
        (\<lambda>e. snd (func e (the (lookup s1 e)) (the (lookup s2 e)))) s2 u2"
      using Suc.hyps(1)[OF k inv1 inv2 i1] by blast
    have q: "Query2_second func s1 s2 i log =
       Inr (u1, u2, log @ concat (map (round_events [1]
                  (\<lambda>e. present s1 e)
                  (\<lambda>e. (the (lookup s1 e), the (lookup s2 e))))
                  (drop (nat i) (take (nat (count s2)) (dense s2)))))"
      unfolding step ih(1) dr using nf by (simp add: round_events_def)
    have np: "\<not> ?P ?e" using nf by simp
    have f1: "written (drop (nat i) (take (nat (count s2)) (dense s2)))
        (\<lambda>e. present s1 e)
        (\<lambda>e. fst (func e (the (lookup s1 e)) (the (lookup s2 e)))) s1 u1"
      unfolding dr by (rule written_skip[OF ih(2) np])
    have f2: "written (drop (nat i) (take (nat (count s2)) (dense s2)))
        (\<lambda>e. present s1 e)
        (\<lambda>e. snd (func e (the (lookup s1 e)) (the (lookup s2 e)))) s2 u2"
      unfolding dr by (rule written_skip[OF ih(3) np])
    show ?thesis
      using q f1 f2 by blast
  qed
qed

lemma Has_present: "SparseSet_inv s \<Longrightarrow> (Has s e = Inr True) = present s e"
  by (simp add: Has_inv)

lemma lookup_value:
  "SparseSet_inv s \<Longrightarrow> present s e \<Longrightarrow> Get_value s e = Inr (Some (the (lookup s e)))"
  by (simp add: Get_value_inv lookup_def)

text \<open>
  Claim C5. For two storages satisfying the representation invariant (every storage reached
  from a new one does, \<open>SparseSet_run_inv\<close>) and any visitor \<open>func\<close>, \<open>Query<K1,K2>\<close> returns.
  When \<open>Count()\<close> of the first is at most that of the second, the first drives: the engine
  goes through its dense array in order, probes the second with \<open>Get\<close> once per entity, and
  visits the entities the second holds. Otherwise the second drives and the first is probed.
  Either way no entity is visited twice, the entities visited are exactly those present in
  both storages, and the visitor receives the two values the entity had before the query.
  The storages returned show the visitor's calls: an entity present in both storages, with
  values \<open>c1\<close> and \<open>c2\<close> before the query, has afterwards the values that one call
  \<open>func e c1 c2\<close> leaves in its two references; every other value is as before, and the
  storages keep their members.
\<close>

theorem Query2_join:
  assumes "SparseSet_inv s1" and "SparseSet_inv s2"
  shows "\<exists>s1' s2' log. Query2 func s1 s2 = Inr (s1', s2', log) \<and>
           (Count s1 \<le> Count s2 \<longrightarrow>
              probed log = map (Pair 2) (take (nat (Count s1)) (dense s1)) \<and>
              visited log = filter (\<lambda>e. Has s2 e = Inr True) (take (nat (Count s1)) (dense s1))) \<and>
           (Count s2 < Count s1 \<longrightarrow>
              probed log = map (Pair 1) (take (nat (Count s2)) (dense s2)) \<and>
              visited log = filter (\<lambda>e. Has s1 e = Inr True) (take (nat (Count s2)) (dense s2))) \<and>
           distinct (visited log) \<and>
           (\<forall>e. e \<in> set (visited log) \<longleftrightarrow> Has s1 e = Inr True \<and> Has s2 e = Inr True) \<and>
           (\<forall>e c1 c2. Visit e (c1, c2) \<in> set log \<longrightarrow>
              Get_value s1 e = Inr (Some c1) \<and> Get_value s2 e = Inr (Some c2)) \<and>
           (\<forall>e c1 c2 d1 d2.
              Get_value s1 e = Inr (Some c1) \<and> Get_value s2 e = Inr (Some c2) \<and>
              func e c1 c2 = (d1, d2) \<longrightarrow>
              Get_value s1' e = Inr (Some d1) \<and> Get_value s2' e = Inr (Some d2)) \<and>
           (\<forall>e. \<not> (Has s1 e = Inr True \<and> Has s2 e = Inr True) \<longrightarrow>
              Get_value s1' e = Get_value s1 e \<and> Get_value s2' e = Get_value s2 e) \<and>
           (\<forall>e. Has s1' e = Has s1 e \<and> Has s2' e = Has s2 e)"
proof (cases "Count s1 \<le> Count s2")
  case True
  let ?es = "take (nat (count s1)) (dense s1)"
  let ?P = "(\<lambda>e. present s2 e)"
  let ?log = "concat (map (round_events [2] ?P (\<lambda>e. (the (lookup s1 e), the (lookup s2 e)))) ?es)"
  obtain s1' s2' where q: "Query2 func s1 s2 = Inr (s1', s2', ?log)"
    and wr: "written ?es ?P
        (\<lambda>e. fst (func e (the (lookup s1 e)) (the (lookup s2 e)))) s1 s1'"
      "written ?es ?P
        (\<lambda>e. snd (func e (the (lookup s1 e)) (the (lookup s2 e)))) s2 s2'"
    using True Query2_first_loop[OF assms, of 0 func "[]"] by (auto simp add: Query2_def)
  note wv = written_values[OF assms(1) wr(1)] written_values[OF assms(2) wr(2)]
  have h: "Has s1' e = Has s1 e \<and> Has s2' e = Has s2 e" for e
    by (simp add: written_values(2)[OF assms(1) wr(1)] written_values(2)[OF assms(2) wr(2)])
  have gv: "Get_value s1' e = (if e \<in> set ?es \<and> ?P e
        then Inr (Some ((\<lambda>e. fst (func e (the (lookup s1 e)) (the (lookup s2 e)))) e)) else Get_value s1 e)"
    "Get_value s2' e = (if e \<in> set ?es \<and> ?P e
        then Inr (Some ((\<lambda>e. snd (func e (the (lookup s1 e)) (the (lookup s2 e)))) e)) else Get_value s2 e)" for e
    by (rule written_values(3)[OF assms(1) wr(1)] written_values(3)[OF assms(2) wr(2)])+
  have v: "visited ?log = filter ?P ?es" by (rule visited_rounds)
  have f: "filter (\<lambda>e. Has s2 e = Inr True) ?es = filter ?P ?es"
    by (simp add: Has_present assms)
  have p: "probed ?log = concat (map (\<lambda>e. [(2, e)]) ?es)"
    unfolding probed_rounds by simp
  have d: "distinct (visited ?log)" unfolding v using dense_members(1)[OF assms(1)] by simp
  have m: "e \<in> set (visited ?log) \<longleftrightarrow>
            Has s1 e = Inr True \<and> Has s2 e = Inr True" for e
    unfolding v using dense_members(2)[OF assms(1)] by (auto simp add: Has_present assms)
  have c: "Get_value s1 e = Inr (Some c1) \<and> Get_value s2 e = Inr (Some c2)"
    if "Visit e (c1, c2) \<in> set ?log" for e c1 c2
  proof -
    have "e \<in> set ?es" "?P e" "(c1, c2) = (the (lookup s1 e), the (lookup s2 e))"
      using that[unfolded Visit_rounds] by simp_all
    moreover have "present s1 e" using \<open>e \<in> set ?es\<close> dense_members(2)[OF assms(1)] by simp
    ultimately show ?thesis by (simp add: lookup_value assms)
  qed
  have a: "Get_value s1' e = Inr (Some d1) \<and> Get_value s2' e = Inr (Some d2)"
    if "Get_value s1 e = Inr (Some c1)" "Get_value s2 e = Inr (Some c2)"
      "func e c1 c2 = (d1, d2)" for e c1 c2 d1 d2
  proof -
    have l: "lookup s1 e = Some c1" "lookup s2 e = Some c2"
      using that(1,2) by (simp_all add: Get_value_inv assms)
    then have pr: "present s1 e" "present s2 e"
      by (simp_all add: lookup_def split: if_splits)
    have "e \<in> set ?es" using pr(1) dense_members(2)[OF assms(1)] by simp
    then show ?thesis using pr l that(3) by (simp add: gv)
  qed
  have b: "Get_value s1' e = Get_value s1 e \<and> Get_value s2' e = Get_value s2 e"
    if "\<not> (Has s1 e = Inr True \<and> Has s2 e = Inr True)" for e
  proof -
    have nf: "(e \<in> set ?es \<and> ?P e) = False"
      using that dense_members(2)[OF assms(1)] by (auto simp add: Has_present assms)
    show ?thesis by (simp add: gv nf)
  qed
  have p': "probed ?log = map (Pair 2) ?es" unfolding p by (simp add: concat_map_singleton)
  have o: "\<not> count s2 < count s1" using True by (simp add: Count_def)
  show ?thesis
    using o q p' d m c a b h v[folded f] unfolding Count_def
    by (intro exI[of _ s1'] exI[of _ s2'] exI[of _ ?log]) blast
next
  case False
  let ?es = "take (nat (count s2)) (dense s2)"
  let ?P = "(\<lambda>e. present s1 e)"
  let ?log = "concat (map (round_events [1] ?P (\<lambda>e. (the (lookup s1 e), the (lookup s2 e)))) ?es)"
  obtain s1' s2' where q: "Query2 func s1 s2 = Inr (s1', s2', ?log)"
    and wr: "written ?es ?P
        (\<lambda>e. fst (func e (the (lookup s1 e)) (the (lookup s2 e)))) s1 s1'"
      "written ?es ?P
        (\<lambda>e. snd (func e (the (lookup s1 e)) (the (lookup s2 e)))) s2 s2'"
    using False Query2_second_loop[OF assms, of 0 func "[]"] by (auto simp add: Query2_def)
  note wv = written_values[OF assms(1) wr(1)] written_values[OF assms(2) wr(2)]
  have h: "Has s1' e = Has s1 e \<and> Has s2' e = Has s2 e" for e
    by (simp add: written_values(2)[OF assms(1) wr(1)] written_values(2)[OF assms(2) wr(2)])
  have gv: "Get_value s1' e = (if e \<in> set ?es \<and> ?P e
        then Inr (Some ((\<lambda>e. fst (func e (the (lookup s1 e)) (the (lookup s2 e)))) e)) else Get_value s1 e)"
    "Get_value s2' e = (if e \<in> set ?es \<and> ?P e
        then Inr (Some ((\<lambda>e. snd (func e (the (lookup s1 e)) (the (lookup s2 e)))) e)) else Get_value s2 e)" for e
    by (rule written_values(3)[OF assms(1) wr(1)] written_values(3)[OF assms(2) wr(2)])+
  have v: "visited ?log = filter ?P ?es" by (rule visited_rounds)
  have f: "filter (\<lambda>e. Has s1 e = Inr True) ?es = filter ?P ?es"
    by (simp add: Has_present assms)
  have p: "probed ?log = concat (map (\<lambda>e. [(1, e)]) ?es)"
    unfolding probed_rounds by simp
  have d: "distinct (visited ?log)" unfolding v using dense_members(1)[OF assms(2)] by simp
  have m: "e \<in> set (visited ?log) \<longleftrightarrow>
            Has s1 e = Inr True \<and> Has s2 e = Inr True" for e
    unfolding v using dense_members(2)[OF assms(2)] by (auto simp add: Has_present assms)
  have c: "Get_value s1 e = Inr (Some c1) \<and> Get_value s2 e = Inr (Some c2)"
    if "Visit e (c1, c2) \<in> set ?log" for e c1 c2
  proof -
    have "e \<in> set ?es" "?P e" "(c1, c2) = (the (lookup s1 e), the (lookup s2 e))"
      using that[unfolded Visit_rounds] by simp_all
    moreover have "present s2 e" using \<open>e \<in> set ?es\<close> dense_members(2)[OF assms(2)] by simp
    ultimately show ?thesis by (simp add: lookup_value assms)
  qed
  have a: "Get_value s1' e = Inr (Some d1) \<and> Get_value s2' e = Inr (Some d2)"
    if "Get_value s1 e = Inr (Some c1)" "Get_value s2 e = Inr (Some c2)"
      "func e c1 c2 = (d1, d2)" for e c1 c2 d1 d2
  proof -
    have l: "lookup s1 e = Some c1" "lookup s2 e = Some c2"
      using that(1,2) by (simp_all add: Get_value_inv assms)
    then have pr: "present s1 e" "present s2 e"
      by (simp_all add: lookup_def split: if_splits)
    have "e \<in> set ?es" using pr(2) dense_members(2)[OF assms(2)] by simp
    then show ?thesis using pr l that(3) by (simp add: gv)
  qed
  have b: "Get_value s1' e = Get_value s1 e \<and> Get_value s2' e = Get_value s2 e"
    if "\<not> (Has s1 e = Inr True \<and> Has s2 e = Inr True)" for e
  proof -
    have nf: "(e \<in> set ?es \<and> ?P e) = False"
      using that dense_members(2)[OF assms(2)] by (auto simp add: Has_present assms)
    show ?thesis by (simp add: gv nf)
  qed
  have p': "probed ?log = map (Pair 1) ?es" unfolding p by (simp add: concat_map_singleton)
  have o: "\<not> count s1 \<le> count s2" using False by (simp add: Count_def)
  show ?thesis
    using o q p' d m c a b h v[folded f] unfolding Count_def
    by (intro exI[of _ s1'] exI[of _ s2'] exI[of _ ?log]) blast
qed

lemma example_K1:
  "SparseSet_run SparseSet_new
     [OpAdd 1 (Transform (Vec2 1 1) 0 1), OpAdd 2 (Transform (Vec2 2 2) 0 1),
        OpAdd 3 (Transform (Vec2 3 3) 0 1)] =
   Inr \<lparr>sparse = (replicate 10000 INVALID_INDEX)[1 := 0, 2 := 1, 3 := 2],
        dense = (replicate 64 0)[0 := 1, 1 := 2, 2 := 3],
        data = (replicate 64 default)[0 := Transform (Vec2 1 1) 0 1, 1 := Transform (Vec2 2 2) 0 1, 2 := Transform (Vec2 3 3) 0 1],
        count = 3, capacity = 64\<rparr>"
  by (simp add: SparseSet_new_eq eval_defs)

lemma example_K2:
  "SparseSet_run SparseSet_new
     [OpAdd 2 (Player 20 2), OpAdd 3 (Player 30 3), OpAdd 4 (Player 40 4)] =
   Inr \<lparr>sparse = (replicate 10000 INVALID_INDEX)[2 := 0, 3 := 1, 4 := 2],
        dense = (replicate 64 0)[0 := 2, 1 := 3, 2 := 4],
        data = (replicate 64 default)[0 := Player 20 2, 1 := Player 30 3, 2 := Player 40 4],
        count = 3, capacity = 64\<rparr>"
  by (simp add: SparseSet_new_eq eval_defs)

lemma example_K2_small:
  "SparseSet_run SparseSet_new
     [OpAdd 3 (Player 30 3), OpAdd 2 (Player 20 2)] =
   Inr \<lparr>sparse = (replicate 10000 INVALID_INDEX)[3 := 0, 2 := 1],
        dense = (replicate 64 0)[0 := 3, 1 := 2],
        data = (replicate 64 default)[0 := Player 30 3, 1 := Player 20 2],
        count = 2, capacity = 64\<rparr>"
  by (simp add: SparseSet_new_eq eval_defs)

lemma example_query2:
  "Query2 copy_fields2
      \<lparr>sparse = (replicate 10000 INVALID_INDEX)[1 := 0, 2 := 1, 3 := 2],
        dense = (replicate 64 0)[0 := 1, 1 := 2, 2 := 3],
        data = (replicate 64 default)[0 := Transform (Vec2 1 1) 0 1, 1 := Transform (Vec2 2 2) 0 1, 2 := Transform (Vec2 3 3) 0 1],
        count = 3, capacity = 64\<rparr>
      \<lparr>sparse = (replicate 10000 INVALID_INDEX)[2 := 0, 3 := 1, 4 := 2],
        dense = (replicate 64 0)[0 := 2, 1 := 3, 2 := 4],
        data = (replicate 64 default)[0 := Player 20 2, 1 := Player 30 3, 2 := Player 40 4],
        count = 3, capacity = 64\<rparr> =
   Inr (\<lparr>sparse = (replicate 10000 INVALID_INDEX)[1 := 0, 2 := 1, 3 := 2],
        dense = (replicate 64 0)[0 := 1, 1 := 2, 2 := 3],
        data = (replicate 64 default)[0 := Transform (Vec2 1 1) 0 1, 1 := Transform (Vec2 2 2) 0 1, 2 := Transform (Vec2 3 3) 0 1, 1 := Transform (Vec2 2 2) 20 1, 2 := Transform (Vec2 3 3) 30 1],
        count = 3, capacity = 64\<rparr>,
      \<lparr>sparse = (replicate 10000 INVALID_INDEX)[2 := 0, 3 := 1, 4 := 2],
        dense = (replicate 64 0)[0 := 2, 1 := 3, 2 := 4],
        data = (replicate 64 default)[0 := Player 20 2, 1 := Player 30 3, 2 := Player 40 4, 0 := Player 2 2, 1 := Player 3 3],
        count = 3, capacity = 64\<rparr>,
      [Probe 2 1, Probe 2 2, Visit 2 (Transform (Vec2 2 2) 0 1, Player 20 2),
        Probe 2 3, Visit 3 (Transform (Vec2 3 3) 0 1, Player 30 3)])"
  by (simp add: Query2_def Query2_first.simps eval_defs SetData_def)

lemma example_query2_small:
  "Query2 copy_fields2
      \<lparr>sparse = (replicate 10000 INVALID_INDEX)[1 := 0, 2 := 1, 3 := 2],
        dense = (replicate 64 0)[0 := 1, 1 := 2, 2 := 3],
        data = (replicate 64 default)[0 := Transform (Vec2 1 1) 0 1, 1 := Transform (Vec2 2 2) 0 1, 2 := Transform (Vec2 3 3) 0 1],
        count = 3, capacity = 64\<rparr>
      \<lparr>sparse = (replicate 10000 INVALID_INDEX)[3 := 0, 2 := 1],
        dense = (replicate 64 0)[0 := 3, 1 := 2],
        data = (replicate 64 default)[0 := Player 30 3, 1 := Player 20 2],
        count = 2, capacity = 64\<rparr> =
   Inr (\<lparr>sparse = (replicate 10000 INVALID_INDEX)[1 := 0, 2 := 1, 3 := 2],
        dense = (replicate 64 0)[0 := 1, 1 := 2, 2 := 3],
        data = (replicate 64 default)[0 := Transform (Vec2 1 1) 0 1, 1 := Transform (Vec2 2 2) 0 1, 2 := Transform (Vec2 3 3) 0 1, 2 := Transform (Vec2 3 3) 30 1, 1 := Transform (Vec2 2 2) 20 1],
        count = 3, capacity = 64\<rparr>,
      \<lparr>sparse = (replicate 10000 INVALID_INDEX)[3 := 0, 2 := 1],
        dense = (replicate 64 0)[0 := 3, 1 := 2],
        data = (replicate 64 default)[0 := Player 30 3, 1 := Player 20 2, 0 := Player 3 3, 1 := Player 2 2],
        count = 2, capacity = 64\<rparr>,
      [Probe 1 3, Visit 3 (Transform (Vec2 3 3) 0 1, Player 30 3),
        Probe 1 2, Visit 2 (Transform (Vec2 2 2) 0 1, Player 20 2)])"
  by (simp add: Query2_def Query2_second.simps eval_defs SetData_def)


theorem Query2_join_witness:
  "\<exists>s1 s2 s3 s1' s2' log t1 t3 log'.
     SparseSet_run SparseSet_new
       [OpAdd 1 (Transform (Vec2 1 1) 0 1), OpAdd 2 (Transform (Vec2 2 2) 0 1),
        OpAdd 3 (Transform (Vec2 3 3) 0 1)] = Inr s1 \<and>
     SparseSet_run SparseSet_new
       [OpAdd 2 (Player 20 2), OpAdd 3 (Player 30 3), OpAdd 4 (Player 40 4)] = Inr s2 \<and>
     SparseSet_run SparseSet_new [OpAdd 3 (Player 30 3), OpAdd 2 (Player 20 2)] = Inr s3 \<and>
     SparseSet_inv s1 \<and> SparseSet_inv s2 \<and> SparseSet_inv s3 \<and>
     Count s1 \<le> Count s2 \<and>
     Query2 copy_fields2 s1 s2 = Inr (s1', s2', log) \<and>
     probed log = [(2, 1), (2, 2), (2, 3)] \<and> visited log = [2, 3] \<and>
     distinct (visited log) \<and>
     Visit 2 (Transform (Vec2 2 2) 0 1, Player 20 2) \<in> set log \<and>
     Get_value s1 2 = Inr (Some (Transform (Vec2 2 2) 0 1)) \<and>
     Get_value s2 2 = Inr (Some (Player 20 2)) \<and>
     copy_fields2 2 (Transform (Vec2 2 2) 0 1) (Player 20 2) =
       (Transform (Vec2 2 2) 20 1, Player 2 2) \<and>
     Get_value s1' 2 = Inr (Some (Transform (Vec2 2 2) 20 1)) \<and>
     Get_value s2' 2 = Inr (Some (Player 2 2)) \<and>
     Has s1 1 = Inr True \<and> Has s2 1 = Inr False \<and>
     Get_value s1' 1 = Get_value s1 1 \<and> Get_value s2' 4 = Get_value s2 4 \<and>
     Has s1' 1 = Has s1 1 \<and> Has s2' 1 = Has s2 1 \<and>
     Count s3 < Count s1 \<and> Query2 copy_fields2 s1 s3 = Inr (t1, t3, log') \<and>
     probed log' = [(1, 3), (1, 2)] \<and> visited log' = [3, 2] \<and> distinct (visited log') \<and>
     Get_value s1 3 = Inr (Some (Transform (Vec2 3 3) 0 1)) \<and>
     Get_value s3 3 = Inr (Some (Player 30 3)) \<and>
     copy_fields2 3 (Transform (Vec2 3 3) 0 1) (Player 30 3) =
       (Transform (Vec2 3 3) 30 1, Player 3 3) \<and>
     Get_value t1 3 = Inr (Some (Transform (Vec2 3 3) 30 1)) \<and>
     Get_value t3 3 = Inr (Some (Player 3 3)) \<and>
     Get_value t1 1 = Get_value s1 1"
proof -
  let ?K1 = "[OpAdd 1 (Transform (Vec2 1 1) 0 1), OpAdd 2 (Transform (Vec2 2 2) 0 1),
        OpAdd 3 (Transform (Vec2 3 3) 0 1)]"
  let ?K2 = "[OpAdd 2 (Player 20 2), OpAdd 3 (Player 30 3), OpAdd 4 (Player 40 4)]"
  let ?K3 = "[OpAdd 3 (Player 30 3), OpAdd 2 (Player 20 2)]"
  let ?S1 = "\<lparr>sparse = (replicate 10000 INVALID_INDEX)[1 := 0, 2 := 1, 3 := 2],
        dense = (replicate 64 0)[0 := 1, 1 := 2, 2 := 3],
        data = (replicate 64 default)[0 := Transform (Vec2 1 1) 0 1, 1 := Transform (Vec2 2 2) 0 1, 2 := Transform (Vec2 3 3) 0 1],
        count = 3, capacity = 64\<rparr>"
  let ?S2 = "\<lparr>sparse = (replicate 10000 INVALID_INDEX)[2 := 0, 3 := 1, 4 := 2],
        dense = (replicate 64 0)[0 := 2, 1 := 3, 2 := 4],
        data = (replicate 64 default)[0 := Player 20 2, 1 := Player 30 3, 2 := Player 40 4],
        count = 3, capacity = 64\<rparr>"
  let ?S3 = "\<lparr>sparse = (replicate 10000 INVALID_INDEX)[3 := 0, 2 := 1],
        dense = (replicate 64 0)[0 := 3, 1 := 2],
        data = (replicate 64 default)[0 := Player 30 3, 1 := Player 20 2],
        count = 2, capacity = 64\<rparr>"
  let ?S1w = "\<lparr>sparse = (replicate 10000 INVALID_INDEX)[1 := 0, 2 := 1, 3 := 2],
        dense = (replicate 64 0)[0 := 1, 1 := 2, 2 := 3],
        data = (replicate 64 default)[0 := Transform (Vec2 1 1) 0 1, 1 := Transform (Vec2 2 2) 0 1, 2 := Transform (Vec2 3 3) 0 1, 1 := Transform (Vec2 2 2) 20 1, 2 := Transform (Vec2 3 3) 30 1],
        count = 3, capacity = 64\<rparr>"
  let ?S2w = "\<lparr>sparse = (replicate 10000 INVALID_INDEX)[2 := 0, 3 := 1, 4 := 2],
        dense = (replicate 64 0)[0 := 2, 1 := 3, 2 := 4],
        data = (replicate 64 default)[0 := Player 20 2, 1 := Player 30 3, 2 := Player 40 4, 0 := Player 2 2, 1 := Player 3 3],
        count = 3, capacity = 64\<rparr>"
  let ?S1o = "\<lparr>sparse = (replicate 10000 INVALID_INDEX)[1 := 0, 2 := 1, 3 := 2],
        dense = (replicate 64 0)[0 := 1, 1 := 2, 2 := 3],
        data = (replicate 64 default)[0 := Transform (Vec2 1 1) 0 1, 1 := Transform (Vec2 2 2) 0 1, 2 := Transform (Vec2 3 3) 0 1, 2 := Transform (Vec2 3 3) 30 1, 1 := Transform (Vec2 2 2) 20 1],
        count = 3, capacity = 64\<rparr>"
  let ?S3o = "\<lparr>sparse = (replicate 10000 INVALID_INDEX)[3 := 0, 2 := 1],
        dense = (replicate 64 0)[0 := 3, 1 := 2],
        data = (replicate 64 default)[0 := Player 30 3, 1 := Player 20 2, 0 := Player 3 3, 1 := Player 2 2],
        count = 2, capacity = 64\<rparr>"
  let ?log = "[Probe 2 1, Probe 2 2, Visit 2 (Transform (Vec2 2 2) 0 1, Player 20 2),
        Probe 2 3, Visit 3 (Transform (Vec2 3 3) 0 1, Player 30 3)]"
  let ?log' = "[Probe 1 3, Visit 3 (Transform (Vec2 3 3) 0 1, Player 30 3),
        Probe 1 2, Visit 2 (Transform (Vec2 2 2) 0 1, Player 20 2)]"
  have i1: "SparseSet_inv ?S1"
    using SparseSet_run_inv[OF SparseSet_inv_new, of ?K1] unfolding example_K1 by simp
  have i2: "SparseSet_inv ?S2"
    using SparseSet_run_inv[OF SparseSet_inv_new, of ?K2] unfolding example_K2 by simp
  have i3: "SparseSet_inv ?S3"
    using SparseSet_run_inv[OF SparseSet_inv_new, of ?K3] unfolding example_K2_small by simp
  have c: "Count ?S1 \<le> Count ?S2" "Count ?S3 < Count ?S1" by (simp_all add: Count_def)
  have g: "Get_value ?S1 2 = Inr (Some (Transform (Vec2 2 2) 0 1))"
    "Get_value ?S2 2 = Inr (Some (Player 20 2))"
    "Get_value ?S1 3 = Inr (Some (Transform (Vec2 3 3) 0 1))"
    "Get_value ?S3 3 = Inr (Some (Player 30 3))"
    "Has ?S1 1 = Inr True" "Has ?S2 1 = Inr False" "Has ?S2 4 = Inr True" "Has ?S3 1 = Inr False"
    by (simp_all add: eval_defs)
  have cf: "copy_fields2 2 (Transform (Vec2 2 2) 0 1) (Player 20 2) =
       (Transform (Vec2 2 2) 20 1, Player 2 2)"
    "copy_fields2 3 (Transform (Vec2 3 3) 0 1) (Player 30 3) =
       (Transform (Vec2 3 3) 30 1, Player 3 3)"
    by simp_all
  obtain s1' s2' log where q: "Query2 copy_fields2 ?S1 ?S2 = Inr (s1', s2', log)"
    and r: "distinct (visited log)"
      "\<forall>e c1 c2. Visit e (c1, c2) \<in> set log \<longrightarrow>
           Get_value ?S1 e = Inr (Some c1) \<and> Get_value ?S2 e = Inr (Some c2)"
      "\<forall>e c1 c2 d1 d2.
              Get_value ?S1 e = Inr (Some c1) \<and> Get_value ?S2 e = Inr (Some c2) \<and>
              copy_fields2 e c1 c2 = (d1, d2) \<longrightarrow>
              Get_value s1' e = Inr (Some d1) \<and> Get_value s2' e = Inr (Some d2)"
      "\<forall>e. \<not> (Has ?S1 e = Inr True \<and> Has ?S2 e = Inr True) \<longrightarrow>
              Get_value s1' e = Get_value ?S1 e \<and> Get_value s2' e = Get_value ?S2 e"
      "\<forall>e. Has s1' e = Has ?S1 e \<and> Has s2' e = Has ?S2 e"
    using Query2_join[OF i1 i2, where func = copy_fields2] by blast
  have eq: "s1' = ?S1w" "s2' = ?S2w" "log = ?log"
    using q unfolding example_query2 by simp_all
  have n1: "\<not> (Has ?S1 1 = Inr True \<and> Has ?S2 1 = Inr True)"
    "\<not> (Has ?S1 4 = Inr True \<and> Has ?S2 4 = Inr True)"
    by (simp_all add: eval_defs)
  have a: "distinct (visited ?log)"
    "Get_value ?S1w 2 = Inr (Some (Transform (Vec2 2 2) 20 1))"
    "Get_value ?S2w 2 = Inr (Some (Player 2 2))"
    "Get_value ?S1w 1 = Get_value ?S1 1" "Get_value ?S2w 4 = Get_value ?S2 4"
    "Has ?S1w 1 = Has ?S1 1" "Has ?S2w 1 = Has ?S2 1"
    using r(1) r(3)[rule_format, OF conjI[OF g(1) conjI[OF g(2) cf(1)]]]
      r(4)[rule_format, OF n1(1)] r(4)[rule_format, OF n1(2)] r(5)
    unfolding eq by simp_all
  obtain t1 t3 log' where q': "Query2 copy_fields2 ?S1 ?S3 = Inr (t1, t3, log')"
    and r': "distinct (visited log')"
      "\<forall>e c1 c2. Visit e (c1, c2) \<in> set log' \<longrightarrow>
           Get_value ?S1 e = Inr (Some c1) \<and> Get_value ?S3 e = Inr (Some c2)"
      "\<forall>e c1 c2 d1 d2.
              Get_value ?S1 e = Inr (Some c1) \<and> Get_value ?S3 e = Inr (Some c2) \<and>
              copy_fields2 e c1 c2 = (d1, d2) \<longrightarrow>
              Get_value t1 e = Inr (Some d1) \<and> Get_value t3 e = Inr (Some d2)"
      "\<forall>e. \<not> (Has ?S1 e = Inr True \<and> Has ?S3 e = Inr True) \<longrightarrow>
              Get_value t1 e = Get_value ?S1 e \<and> Get_value t3 e = Get_value ?S3 e"
      "\<forall>e. Has t1 e = Has ?S1 e \<and> Has t3 e = Has ?S3 e"
    using Query2_join[OF i1 i3, where func = copy_fields2] by blast
  have eq': "t1 = ?S1o" "t3 = ?S3o" "log' = ?log'"
    using q' unfolding example_query2_small by simp_all
  have n3: "\<not> (Has ?S1 1 = Inr True \<and> Has ?S3 1 = Inr True)"
    by (simp add: eval_defs)
  have b: "distinct (visited ?log')"
    "Get_value ?S1o 3 = Inr (Some (Transform (Vec2 3 3) 30 1))"
    "Get_value ?S3o 3 = Inr (Some (Player 3 3))"
    "Get_value ?S1o 1 = Get_value ?S1 1"
    using r'(1) r'(3)[rule_format, OF conjI[OF g(3) conjI[OF g(4) cf(2)]]]
      r'(4)[rule_format, OF n3]
    unfolding eq' by simp_all
  have l: "probed ?log = [(2, 1), (2, 2), (2, 3)]" "visited ?log = [2, 3]"
    "Visit 2 (Transform (Vec2 2 2) 0 1, Player 20 2) \<in> set ?log"
    "probed ?log' = [(1, 3), (1, 2)]" "visited ?log' = [3, 2]"
    by simp_all
  show ?thesis
    by (rule exI[of _ ?S1], rule exI[of _ ?S2], rule exI[of _ ?S3], rule exI[of _ ?S1w],
        rule exI[of _ ?S2w], rule exI[of _ ?log], rule exI[of _ ?S1o], rule exI[of _ ?S3o],
        rule exI[of _ ?log'], intro conjI)
      (rule example_K1 example_K2 example_K2_small i1 i2 i3 c a b g l cf
        example_query2 example_query2_small)+
qed

subsection \<open>Three to six kinds\<close>

lemma Query3_loop_eq:
  "SparseSet_inv s1 \<Longrightarrow> SparseSet_inv s2 \<Longrightarrow> SparseSet_inv s3 \<Longrightarrow> 0 \<le> i \<Longrightarrow>
   \<exists>s1' s2' s3'. Query3_loop func s1 s2 s3 i log =
       Inr (s1', s2', s3', log @ concat (map (round_events [2, 3]
                  (\<lambda>e. present s2 e \<and> present s3 e)
                  (\<lambda>e. (the (lookup s1 e), the (lookup s2 e), the (lookup s3 e))))
                  (drop (nat i) (take (nat (count s1)) (dense s1))))) \<and>
     written (drop (nat i) (take (nat (count s1)) (dense s1)))
        (\<lambda>e. present s2 e \<and> present s3 e)
        (\<lambda>e. fst (func e (the (lookup s1 e)) (the (lookup s2 e)) (the (lookup s3 e)))) s1 s1' \<and>
     written (drop (nat i) (take (nat (count s1)) (dense s1)))
        (\<lambda>e. present s2 e \<and> present s3 e)
        (\<lambda>e. fst (snd (func e (the (lookup s1 e)) (the (lookup s2 e)) (the (lookup s3 e))))) s2 s2' \<and>
     written (drop (nat i) (take (nat (count s1)) (dense s1)))
        (\<lambda>e. present s2 e \<and> present s3 e)
        (\<lambda>e. snd (snd (func e (the (lookup s1 e)) (the (lookup s2 e)) (the (lookup s3 e))))) s3 s3'"
proof (induction "nat (count s1 - i)" arbitrary: i log s1 s2 s3)
  case 0
  then have "\<not> i < count s1" by simp
  then show ?case using "0.prems"
    by (intro exI[of _ s1] exI[of _ s2] exI[of _ s3])
      (simp add: Query3_loop.simps[of func s1 s2 s3 i] Count_def written_Nil)
next
  case (Suc k)
  note inv1 = Suc.prems(1) and inv2 = Suc.prems(2) and inv3 = Suc.prems(3) and i0 = Suc.prems(4)
  have lt: "i < count s1" using Suc.hyps(2) by simp
  let ?e = "dense s1 ! nat i"
  let ?rest = "drop (nat (i + 1)) (take (nat (count s1)) (dense s1))"
  let ?P = "(\<lambda>e. present s2 e \<and> present s3 e)"
  note dr = drop_round[OF inv1 i0 lt]
  note ne = round_fresh[OF inv1 i0 lt]
  note rr = round_reads[OF inv1 i0 lt]
  note gp = Get_ptr[OF inv2] Get_ptr[OF inv3]
  have i1: "0 \<le> i + 1" using i0 by simp
  show ?case
  proof (cases "present s2 ?e \<and> present s3 ?e")
    case True
    then have p: "present s2 ?e" "present s3 ?e" by simp_all
    note gd = GetData_ptr[OF inv2 p(1)] GetData_ptr[OF inv3 p(2)]
    let ?r = "func ?e (the (lookup s1 ?e)) (the (lookup s2 ?e)) (the (lookup s3 ?e))"
    let ?log = "log @ [Probe 2 ?e, Probe 3 ?e,
        Visit ?e (the (lookup s1 ?e), the (lookup s2 ?e), the (lookup s3 ?e))]"
    obtain t1 where w1: "SetData s1 i (fst (?r)) = Inr t1" "same_members s1 t1"
      "\<forall>e'. lookup t1 e' = (if e' = ?e then Some (fst (?r)) else lookup s1 e')"
      using SetData_drive[OF inv1 i0 lt] by blast
    obtain t2 where w2: "SetData s2 (the (ptr s2 ?e)) (fst (snd (?r))) = Inr t2" "same_members s2 t2"
      "\<forall>e'. lookup t2 e' = (if e' = ?e then Some (fst (snd (?r))) else lookup s2 e')"
      using SetData_ptr[OF inv2 p(1)] by blast
    obtain t3 where w3: "SetData s3 (the (ptr s3 ?e)) (snd (snd (?r))) = Inr t3" "same_members s3 t3"
      "\<forall>e'. lookup t3 e' = (if e' = ?e then Some (snd (snd (?r))) else lookup s3 e')"
      using SetData_ptr[OF inv3 p(2)] by blast
    have step: "Query3_loop func s1 s2 s3 i log = Query3_loop func t1 t2 t3 (i + 1) ?log"
      using p lt
      by (simp add: Query3_loop.simps[of func s1 s2 s3 i] Count_def rr(1,2) gp gd
          w1(1) w2(1) w3(1) case_prod_beta)
    have k: "k = nat (count t1 - (i + 1))" using Suc.hyps(2) w1(2) by (simp add: same_members_def)
    have pt: "(\<lambda>e. present t2 e \<and> present t3 e) = ?P"
      by (simp add: same_members_present[OF w2(2)] same_members_present[OF w3(2)])
    obtain u1 u2 u3 where ih: "Query3_loop func t1 t2 t3 (i + 1) ?log =
       Inr (u1, u2, u3, ?log @ concat (map (round_events [2, 3]
                  (\<lambda>e. present t2 e \<and> present t3 e)
                  (\<lambda>e. (the (lookup t1 e), the (lookup t2 e), the (lookup t3 e))))
                  ?rest))"
      "written ?rest ?P
        (\<lambda>e. fst (func e (the (lookup t1 e)) (the (lookup t2 e)) (the (lookup t3 e)))) t1 u1"
      "written ?rest ?P
        (\<lambda>e. fst (snd (func e (the (lookup t1 e)) (the (lookup t2 e)) (the (lookup t3 e))))) t2 u2"
      "written ?rest ?P
        (\<lambda>e. snd (snd (func e (the (lookup t1 e)) (the (lookup t2 e)) (the (lookup t3 e))))) t3 u3"
      using Suc.hyps(1)[OF k same_members_inv[OF inv1 w1(2)] same_members_inv[OF inv2 w2(2)] same_members_inv[OF inv3 w3(2)] i1]
      unfolding same_members_dense[OF w1(2)] pt by blast
    have other: "lookup t1 e' = lookup s1 e' \<and> lookup t2 e' = lookup s2 e' \<and> lookup t3 e' = lookup s3 e'" if "e' \<in> set ?rest" for e'
      using that ne w1(3) w2(3) w3(3) by auto
    have cg: "concat (map (round_events [2, 3]
                  (\<lambda>e. present t2 e \<and> present t3 e)
                  (\<lambda>e. (the (lookup t1 e), the (lookup t2 e), the (lookup t3 e)))) ?rest) =
        concat (map (round_events [2, 3]
                  (\<lambda>e. present s2 e \<and> present s3 e)
                  (\<lambda>e. (the (lookup s1 e), the (lookup s2 e), the (lookup s3 e)))) ?rest)"
      unfolding pt by (rule rounds_cong) (simp_all add: other)
    have q: "Query3_loop func s1 s2 s3 i log =
       Inr (u1, u2, u3, log @ concat (map (round_events [2, 3]
                  (\<lambda>e. present s2 e \<and> present s3 e)
                  (\<lambda>e. (the (lookup s1 e), the (lookup s2 e), the (lookup s3 e))))
                  (drop (nat i) (take (nat (count s1)) (dense s1)))))"
      unfolding step ih(1) cg dr using p
      by (simp add: round_events_def)
    have f1: "written (drop (nat i) (take (nat (count s1)) (dense s1)))
        (\<lambda>e. present s2 e \<and> present s3 e)
        (\<lambda>e. fst (func e (the (lookup s1 e)) (the (lookup s2 e)) (the (lookup s3 e)))) s1 u1"
      unfolding dr
    proof (rule written_step[where t = t1 and new' = "(\<lambda>e. fst (func e (the (lookup t1 e)) (the (lookup t2 e)) (the (lookup t3 e))))"])
      show "same_members s1 t1" by (rule w1(2))
      show "\<forall>e'. lookup t1 e' = (if e' = ?e then Some ((\<lambda>e. fst (func e (the (lookup s1 e)) (the (lookup s2 e)) (the (lookup s3 e)))) ?e) else lookup s1 e')"
        using w1(3) by simp
      show "written ?rest ?P
        (\<lambda>e. fst (func e (the (lookup t1 e)) (the (lookup t2 e)) (the (lookup t3 e)))) t1 u1" by (rule ih(2))
      show "?e \<notin> set ?rest" by (rule ne)
      show "?P ?e" using p by simp
      show "(\<lambda>e. fst (func e (the (lookup t1 e)) (the (lookup t2 e)) (the (lookup t3 e)))) e' = (\<lambda>e. fst (func e (the (lookup s1 e)) (the (lookup s2 e)) (the (lookup s3 e)))) e'" if "e' \<in> set ?rest" "?P e'" for e'
        using other[OF that(1)] by simp
    qed
    have f2: "written (drop (nat i) (take (nat (count s1)) (dense s1)))
        (\<lambda>e. present s2 e \<and> present s3 e)
        (\<lambda>e. fst (snd (func e (the (lookup s1 e)) (the (lookup s2 e)) (the (lookup s3 e))))) s2 u2"
      unfolding dr
    proof (rule written_step[where t = t2 and new' = "(\<lambda>e. fst (snd (func e (the (lookup t1 e)) (the (lookup t2 e)) (the (lookup t3 e)))))"])
      show "same_members s2 t2" by (rule w2(2))
      show "\<forall>e'. lookup t2 e' = (if e' = ?e then Some ((\<lambda>e. fst (snd (func e (the (lookup s1 e)) (the (lookup s2 e)) (the (lookup s3 e))))) ?e) else lookup s2 e')"
        using w2(3) by simp
      show "written ?rest ?P
        (\<lambda>e. fst (snd (func e (the (lookup t1 e)) (the (lookup t2 e)) (the (lookup t3 e))))) t2 u2" by (rule ih(3))
      show "?e \<notin> set ?rest" by (rule ne)
      show "?P ?e" using p by simp
      show "(\<lambda>e. fst (snd (func e (the (lookup t1 e)) (the (lookup t2 e)) (the (lookup t3 e))))) e' = (\<lambda>e. fst (snd (func e (the (lookup s1 e)) (the (lookup s2 e)) (the (lookup s3 e))))) e'" if "e' \<in> set ?rest" "?P e'" for e'
        using other[OF that(1)] by simp
    qed
    have f3: "written (drop (nat i) (take (nat (count s1)) (dense s1)))
        (\<lambda>e. present s2 e \<and> present s3 e)
        (\<lambda>e. snd (snd (func e (the (lookup s1 e)) (the (lookup s2 e)) (the (lookup s3 e))))) s3 u3"
      unfolding dr
    proof (rule written_step[where t = t3 and new' = "(\<lambda>e. snd (snd (func e (the (lookup t1 e)) (the (lookup t2 e)) (the (lookup t3 e)))))"])
      show "same_members s3 t3" by (rule w3(2))
      show "\<forall>e'. lookup t3 e' = (if e' = ?e then Some ((\<lambda>e. snd (snd (func e (the (lookup s1 e)) (the (lookup s2 e)) (the (lookup s3 e))))) ?e) else lookup s3 e')"
        using w3(3) by simp
      show "written ?rest ?P
        (\<lambda>e. snd (snd (func e (the (lookup t1 e)) (the (lookup t2 e)) (the (lookup t3 e))))) t3 u3" by (rule ih(4))
      show "?e \<notin> set ?rest" by (rule ne)
      show "?P ?e" using p by simp
      show "(\<lambda>e. snd (snd (func e (the (lookup t1 e)) (the (lookup t2 e)) (the (lookup t3 e))))) e' = (\<lambda>e. snd (snd (func e (the (lookup s1 e)) (the (lookup s2 e)) (the (lookup s3 e))))) e'" if "e' \<in> set ?rest" "?P e'" for e'
        using other[OF that(1)] by simp
    qed
    show ?thesis
      using q f1 f2 f3 by blast
  next
    case False
    then have nf: "(present s2 ?e \<and> present s3 ?e) = False" by simp
    let ?log = "log @ [Probe 2 ?e, Probe 3 ?e]"
    have step: "Query3_loop func s1 s2 s3 i log = Query3_loop func s1 s2 s3 (i + 1) ?log"
      using lt
      by (simp add: Query3_loop.simps[of func s1 s2 s3 i] Count_def rr(1) gp nf)
    have k: "k = nat (count s1 - (i + 1))" using Suc.hyps(2) by simp
    obtain u1 u2 u3 where ih: "Query3_loop func s1 s2 s3 (i + 1) ?log =
       Inr (u1, u2, u3, ?log @ concat (map (round_events [2, 3]
                  (\<lambda>e. present s2 e \<and> present s3 e)
                  (\<lambda>e. (the (lookup s1 e), the (lookup s2 e), the (lookup s3 e))))
                  ?rest))"
      "written ?rest ?P
        (\<lambda>e. fst (func e (the (lookup s1 e)) (the (lookup s2 e)) (the (lookup s3 e)))) s1 u1"
      "written ?rest ?P
        (\<lambda>e. fst (snd (func e (the (lookup s1 e)) (the (lookup s2 e)) (the (lookup s3 e))))) s2 u2"
      "written ?rest ?P
        (\<lambda>e. snd (snd (func e (the (lookup s1 e)) (the (lookup s2 e)) (the (lookup s3 e))))) s3 u3"
      using Suc.hyps(1)[OF k inv1 inv2 inv3 i1] by blast
    have q: "Query3_loop func s1 s2 s3 i log =
       Inr (u1, u2, u3, log @ concat (map (round_events [2, 3]
                  (\<lambda>e. present s2 e \<and> present s3 e)
                  (\<lambda>e. (the (lookup s1 e), the (lookup s2 e), the (lookup s3 e))))
                  (drop (nat i) (take (nat (count s1)) (dense s1)))))"
      unfolding step ih(1) dr using nf by (simp add: round_events_def)
    have np: "\<not> ?P ?e" using nf by simp
    have f1: "written (drop (nat i) (take (nat (count s1)) (dense s1)))
        (\<lambda>e. present s2 e \<and> present s3 e)
        (\<lambda>e. fst (func e (the (lookup s1 e)) (the (lookup s2 e)) (the (lookup s3 e)))) s1 u1"
      unfolding dr by (rule written_skip[OF ih(2) np])
    have f2: "written (drop (nat i) (take (nat (count s1)) (dense s1)))
        (\<lambda>e. present s2 e \<and> present s3 e)
        (\<lambda>e. fst (snd (func e (the (lookup s1 e)) (the (lookup s2 e)) (the (lookup s3 e))))) s2 u2"
      unfolding dr by (rule written_skip[OF ih(3) np])
    have f3: "written (drop (nat i) (take (nat (count s1)) (dense s1)))
        (\<lambda>e. present s2 e \<and> present s3 e)
        (\<lambda>e. snd (snd (func e (the (lookup s1 e)) (the (lookup s2 e)) (the (lookup s3 e))))) s3 u3"
      unfolding dr by (rule written_skip[OF ih(4) np])
    show ?thesis
      using q f1 f2 f3 by blast
  qed
qed

lemma Query3_join:
  assumes "SparseSet_inv s1" and "SparseSet_inv s2" and "SparseSet_inv s3"
  shows "\<exists>s1' s2' s3' log. Query3 func s1 s2 s3 = Inr (s1', s2', s3', log) \<and>
           probed log = concat (map (\<lambda>e. [(2, e), (3, e)])
                (take (nat (Count s1)) (dense s1))) \<and>
           visited log = filter (\<lambda>e. Has s2 e = Inr True \<and> Has s3 e = Inr True)
                (take (nat (Count s1)) (dense s1)) \<and>
           distinct (visited log) \<and>
           (\<forall>e. e \<in> set (visited log) \<longleftrightarrow>
              Has s1 e = Inr True \<and> Has s2 e = Inr True \<and> Has s3 e = Inr True) \<and>
           (\<forall>e c1 c2 c3. Visit e (c1, c2, c3) \<in> set log \<longrightarrow>
              Get_value s1 e = Inr (Some c1) \<and> Get_value s2 e = Inr (Some c2) \<and> Get_value s3 e = Inr (Some c3)) \<and>
           (\<forall>e c1 c2 c3 d1 d2 d3.
              Get_value s1 e = Inr (Some c1) \<and> Get_value s2 e = Inr (Some c2) \<and> Get_value s3 e = Inr (Some c3) \<and>
              func e c1 c2 c3 = (d1, d2, d3) \<longrightarrow>
              Get_value s1' e = Inr (Some d1) \<and> Get_value s2' e = Inr (Some d2) \<and> Get_value s3' e = Inr (Some d3)) \<and>
           (\<forall>e. \<not> (Has s1 e = Inr True \<and> Has s2 e = Inr True \<and> Has s3 e = Inr True) \<longrightarrow>
              Get_value s1' e = Get_value s1 e \<and> Get_value s2' e = Get_value s2 e \<and> Get_value s3' e = Get_value s3 e) \<and>
           (\<forall>e. Has s1' e = Has s1 e \<and> Has s2' e = Has s2 e \<and> Has s3' e = Has s3 e)"
proof -
  let ?es = "take (nat (count s1)) (dense s1)"
  let ?P = "(\<lambda>e. present s2 e \<and> present s3 e)"
  let ?log = "concat (map (round_events [2, 3] ?P (\<lambda>e. (the (lookup s1 e), the (lookup s2 e), the (lookup s3 e)))) ?es)"
  obtain s1' s2' s3' where q: "Query3 func s1 s2 s3 = Inr (s1', s2', s3', ?log)"
    and wr: "written ?es ?P
        (\<lambda>e. fst (func e (the (lookup s1 e)) (the (lookup s2 e)) (the (lookup s3 e)))) s1 s1'"
      "written ?es ?P
        (\<lambda>e. fst (snd (func e (the (lookup s1 e)) (the (lookup s2 e)) (the (lookup s3 e))))) s2 s2'"
      "written ?es ?P
        (\<lambda>e. snd (snd (func e (the (lookup s1 e)) (the (lookup s2 e)) (the (lookup s3 e))))) s3 s3'"
    using Query3_loop_eq[OF assms, of 0 func "[]"] by (auto simp add: Query3_def)
  note wv = written_values[OF assms(1) wr(1)] written_values[OF assms(2) wr(2)] written_values[OF assms(3) wr(3)]
  have h: "Has s1' e = Has s1 e \<and> Has s2' e = Has s2 e \<and> Has s3' e = Has s3 e" for e
    by (simp add: written_values(2)[OF assms(1) wr(1)] written_values(2)[OF assms(2) wr(2)] written_values(2)[OF assms(3) wr(3)])
  have gv: "Get_value s1' e = (if e \<in> set ?es \<and> ?P e
        then Inr (Some ((\<lambda>e. fst (func e (the (lookup s1 e)) (the (lookup s2 e)) (the (lookup s3 e)))) e)) else Get_value s1 e)"
    "Get_value s2' e = (if e \<in> set ?es \<and> ?P e
        then Inr (Some ((\<lambda>e. fst (snd (func e (the (lookup s1 e)) (the (lookup s2 e)) (the (lookup s3 e))))) e)) else Get_value s2 e)"
    "Get_value s3' e = (if e \<in> set ?es \<and> ?P e
        then Inr (Some ((\<lambda>e. snd (snd (func e (the (lookup s1 e)) (the (lookup s2 e)) (the (lookup s3 e))))) e)) else Get_value s3 e)" for e
    by (rule written_values(3)[OF assms(1) wr(1)] written_values(3)[OF assms(2) wr(2)] written_values(3)[OF assms(3) wr(3)])+
  have v: "visited ?log = filter ?P ?es" by (rule visited_rounds)
  have f: "filter (\<lambda>e. Has s2 e = Inr True \<and> Has s3 e = Inr True) ?es = filter ?P ?es"
    by (simp add: Has_present assms)
  have p: "probed ?log = concat (map (\<lambda>e. [(2, e), (3, e)]) ?es)"
    unfolding probed_rounds by simp
  have d: "distinct (visited ?log)" unfolding v using dense_members(1)[OF assms(1)] by simp
  have m: "e \<in> set (visited ?log) \<longleftrightarrow>
            Has s1 e = Inr True \<and> Has s2 e = Inr True \<and> Has s3 e = Inr True" for e
    unfolding v using dense_members(2)[OF assms(1)] by (auto simp add: Has_present assms)
  have c: "Get_value s1 e = Inr (Some c1) \<and> Get_value s2 e = Inr (Some c2) \<and> Get_value s3 e = Inr (Some c3)"
    if "Visit e (c1, c2, c3) \<in> set ?log" for e c1 c2 c3
  proof -
    have "e \<in> set ?es" "?P e" "(c1, c2, c3) = (the (lookup s1 e), the (lookup s2 e), the (lookup s3 e))"
      using that[unfolded Visit_rounds] by simp_all
    moreover have "present s1 e" using \<open>e \<in> set ?es\<close> dense_members(2)[OF assms(1)] by simp
    ultimately show ?thesis by (simp add: lookup_value assms)
  qed
  have a: "Get_value s1' e = Inr (Some d1) \<and> Get_value s2' e = Inr (Some d2) \<and> Get_value s3' e = Inr (Some d3)"
    if "Get_value s1 e = Inr (Some c1)" "Get_value s2 e = Inr (Some c2)" "Get_value s3 e = Inr (Some c3)"
      "func e c1 c2 c3 = (d1, d2, d3)" for e c1 c2 c3 d1 d2 d3
  proof -
    have l: "lookup s1 e = Some c1" "lookup s2 e = Some c2" "lookup s3 e = Some c3"
      using that(1,2,3) by (simp_all add: Get_value_inv assms)
    then have pr: "present s1 e" "present s2 e" "present s3 e"
      by (simp_all add: lookup_def split: if_splits)
    have "e \<in> set ?es" using pr(1) dense_members(2)[OF assms(1)] by simp
    then show ?thesis using pr l that(4) by (simp add: gv)
  qed
  have b: "Get_value s1' e = Get_value s1 e \<and> Get_value s2' e = Get_value s2 e \<and> Get_value s3' e = Get_value s3 e"
    if "\<not> (Has s1 e = Inr True \<and> Has s2 e = Inr True \<and> Has s3 e = Inr True)" for e
  proof -
    have nf: "(e \<in> set ?es \<and> ?P e) = False"
      using that dense_members(2)[OF assms(1)] by (auto simp add: Has_present assms)
    show ?thesis by (simp add: gv nf)
  qed
  have m': "\<forall>e. e \<in> set (visited ?log) \<longleftrightarrow>
            Has s1 e = Inr True \<and> Has s2 e = Inr True \<and> Has s3 e = Inr True"
    by (intro allI) (rule m)
  have c': "\<forall>e c1 c2 c3. Visit e (c1, c2, c3) \<in> set ?log \<longrightarrow>
            Get_value s1 e = Inr (Some c1) \<and> Get_value s2 e = Inr (Some c2) \<and> Get_value s3 e = Inr (Some c3)"
    by (intro allI impI) (rule c)
  have a': "\<forall>e c1 c2 c3 d1 d2 d3.
              Get_value s1 e = Inr (Some c1) \<and> Get_value s2 e = Inr (Some c2) \<and> Get_value s3 e = Inr (Some c3) \<and>
              func e c1 c2 c3 = (d1, d2, d3) \<longrightarrow>
              Get_value s1' e = Inr (Some d1) \<and> Get_value s2' e = Inr (Some d2) \<and> Get_value s3' e = Inr (Some d3)"
    by (intro allI impI, elim conjE) (rule a)
  have b': "\<forall>e. \<not> (Has s1 e = Inr True \<and> Has s2 e = Inr True \<and> Has s3 e = Inr True) \<longrightarrow>
              Get_value s1' e = Get_value s1 e \<and> Get_value s2' e = Get_value s2 e \<and> Get_value s3' e = Get_value s3 e"
    by (intro allI impI) (rule b)
  have h': "\<forall>e. Has s1' e = Has s1 e \<and> Has s2' e = Has s2 e \<and> Has s3' e = Has s3 e"
    by (intro allI) (rule h)
  show ?thesis
    unfolding Count_def
    by (intro exI[of _ s1'] exI[of _ s2'] exI[of _ s3'] exI[of _ ?log] conjI)
      (rule q p d m' c' a' b' h' v[folded f])+
qed

lemma Query4_loop_eq:
  "SparseSet_inv s1 \<Longrightarrow> SparseSet_inv s2 \<Longrightarrow> SparseSet_inv s3 \<Longrightarrow> SparseSet_inv s4 \<Longrightarrow> 0 \<le> i \<Longrightarrow>
   \<exists>s1' s2' s3' s4'. Query4_loop func s1 s2 s3 s4 i log =
       Inr (s1', s2', s3', s4', log @ concat (map (round_events [2, 3, 4]
                  (\<lambda>e. present s2 e \<and> present s3 e \<and> present s4 e)
                  (\<lambda>e. (the (lookup s1 e), the (lookup s2 e), the (lookup s3 e), the (lookup s4 e))))
                  (drop (nat i) (take (nat (count s1)) (dense s1))))) \<and>
     written (drop (nat i) (take (nat (count s1)) (dense s1)))
        (\<lambda>e. present s2 e \<and> present s3 e \<and> present s4 e)
        (\<lambda>e. fst (func e (the (lookup s1 e)) (the (lookup s2 e)) (the (lookup s3 e)) (the (lookup s4 e)))) s1 s1' \<and>
     written (drop (nat i) (take (nat (count s1)) (dense s1)))
        (\<lambda>e. present s2 e \<and> present s3 e \<and> present s4 e)
        (\<lambda>e. fst (snd (func e (the (lookup s1 e)) (the (lookup s2 e)) (the (lookup s3 e)) (the (lookup s4 e))))) s2 s2' \<and>
     written (drop (nat i) (take (nat (count s1)) (dense s1)))
        (\<lambda>e. present s2 e \<and> present s3 e \<and> present s4 e)
        (\<lambda>e. fst (snd (snd (func e (the (lookup s1 e)) (the (lookup s2 e)) (the (lookup s3 e)) (the (lookup s4 e)))))) s3 s3' \<and>
     written (drop (nat i) (take (nat (count s1)) (dense s1)))
        (\<lambda>e. present s2 e \<and> present s3 e \<and> present s4 e)
        (\<lambda>e. snd (snd (snd (func e (the (lookup s1 e)) (the (lookup s2 e)) (the (lookup s3 e)) (the (lookup s4 e)))))) s4 s4'"
proof (induction "nat (count s1 - i)" arbitrary: i log s1 s2 s3 s4)
  case 0
  then have "\<not> i < count s1" by simp
  then show ?case using "0.prems"
    by (intro exI[of _ s1] exI[of _ s2] exI[of _ s3] exI[of _ s4])
      (simp add: Query4_loop.simps[of func s1 s2 s3 s4 i] Count_def written_Nil)
next
  case (Suc k)
  note inv1 = Suc.prems(1) and inv2 = Suc.prems(2) and inv3 = Suc.prems(3) and inv4 = Suc.prems(4) and i0 = Suc.prems(5)
  have lt: "i < count s1" using Suc.hyps(2) by simp
  let ?e = "dense s1 ! nat i"
  let ?rest = "drop (nat (i + 1)) (take (nat (count s1)) (dense s1))"
  let ?P = "(\<lambda>e. present s2 e \<and> present s3 e \<and> present s4 e)"
  note dr = drop_round[OF inv1 i0 lt]
  note ne = round_fresh[OF inv1 i0 lt]
  note rr = round_reads[OF inv1 i0 lt]
  note gp = Get_ptr[OF inv2] Get_ptr[OF inv3] Get_ptr[OF inv4]
  have i1: "0 \<le> i + 1" using i0 by simp
  show ?case
  proof (cases "present s2 ?e \<and> present s3 ?e \<and> present s4 ?e")
    case True
    then have p: "present s2 ?e" "present s3 ?e" "present s4 ?e" by simp_all
    note gd = GetData_ptr[OF inv2 p(1)] GetData_ptr[OF inv3 p(2)] GetData_ptr[OF inv4 p(3)]
    let ?r = "func ?e (the (lookup s1 ?e)) (the (lookup s2 ?e)) (the (lookup s3 ?e)) (the (lookup s4 ?e))"
    let ?log = "log @ [Probe 2 ?e, Probe 3 ?e, Probe 4 ?e,
        Visit ?e (the (lookup s1 ?e), the (lookup s2 ?e), the (lookup s3 ?e), the (lookup s4 ?e))]"
    obtain t1 where w1: "SetData s1 i (fst (?r)) = Inr t1" "same_members s1 t1"
      "\<forall>e'. lookup t1 e' = (if e' = ?e then Some (fst (?r)) else lookup s1 e')"
      using SetData_drive[OF inv1 i0 lt] by blast
    obtain t2 where w2: "SetData s2 (the (ptr s2 ?e)) (fst (snd (?r))) = Inr t2" "same_members s2 t2"
      "\<forall>e'. lookup t2 e' = (if e' = ?e then Some (fst (snd (?r))) else lookup s2 e')"
      using SetData_ptr[OF inv2 p(1)] by blast
    obtain t3 where w3: "SetData s3 (the (ptr s3 ?e)) (fst (snd (snd (?r)))) = Inr t3" "same_members s3 t3"
      "\<forall>e'. lookup t3 e' = (if e' = ?e then Some (fst (snd (snd (?r)))) else lookup s3 e')"
      using SetData_ptr[OF inv3 p(2)] by blast
    obtain t4 where w4: "SetData s4 (the (ptr s4 ?e)) (snd (snd (snd (?r)))) = Inr t4" "same_members s4 t4"
      "\<forall>e'. lookup t4 e' = (if e' = ?e then Some (snd (snd (snd (?r)))) else lookup s4 e')"
      using SetData_ptr[OF inv4 p(3)] by blast
    have step: "Query4_loop func s1 s2 s3 s4 i log = Query4_loop func t1 t2 t3 t4 (i + 1) ?log"
      using p lt
      by (simp add: Query4_loop.simps[of func s1 s2 s3 s4 i] Count_def rr(1,2) gp gd
          w1(1) w2(1) w3(1) w4(1) case_prod_beta)
    have k: "k = nat (count t1 - (i + 1))" using Suc.hyps(2) w1(2) by (simp add: same_members_def)
    have pt: "(\<lambda>e. present t2 e \<and> present t3 e \<and> present t4 e) = ?P"
      by (simp add: same_members_present[OF w2(2)] same_members_present[OF w3(2)] same_members_present[OF w4(2)])
    obtain u1 u2 u3 u4 where ih: "Query4_loop func t1 t2 t3 t4 (i + 1) ?log =
       Inr (u1, u2, u3, u4, ?log @ concat (map (round_events [2, 3, 4]
                  (\<lambda>e. present t2 e \<and> present t3 e \<and> present t4 e)
                  (\<lambda>e. (the (lookup t1 e), the (lookup t2 e), the (lookup t3 e), the (lookup t4 e))))
                  ?rest))"
      "written ?rest ?P
        (\<lambda>e. fst (func e (the (lookup t1 e)) (the (lookup t2 e)) (the (lookup t3 e)) (the (lookup t4 e)))) t1 u1"
      "written ?rest ?P
        (\<lambda>e. fst (snd (func e (the (lookup t1 e)) (the (lookup t2 e)) (the (lookup t3 e)) (the (lookup t4 e))))) t2 u2"
      "written ?rest ?P
        (\<lambda>e. fst (snd (snd (func e (the (lookup t1 e)) (the (lookup t2 e)) (the (lookup t3 e)) (the (lookup t4 e)))))) t3 u3"
      "written ?rest ?P
        (\<lambda>e. snd (snd (snd (func e (the (lookup t1 e)) (the (lookup t2 e)) (the (lookup t3 e)) (the (lookup t4 e)))))) t4 u4"
      using Suc.hyps(1)[OF k same_members_inv[OF inv1 w1(2)] same_members_inv[OF inv2 w2(2)] same_members_inv[OF inv3 w3(2)] same_members_inv[OF inv4 w4(2)] i1]
      unfolding same_members_dense[OF w1(2)] pt by blast
    have other: "lookup t1 e' = lookup s1 e' \<and> lookup t2 e' = lookup s2 e' \<and> lookup t3 e' = lookup s3 e' \<and> lookup t4 e' = lookup s4 e'" if "e' \<in> set ?rest" for e'
      using that ne w1(3) w2(3) w3(3) w4(3) by auto
    have cg: "concat (map (round_events [2, 3, 4]
                  (\<lambda>e. present t2 e \<and> present t3 e \<and> present t4 e)
                  (\<lambda>e. (the (lookup t1 e), the (lookup t2 e), the (lookup t3 e), the (lookup t4 e)))) ?rest) =
        concat (map (round_events [2, 3, 4]
                  (\<lambda>e. present s2 e \<and> present s3 e \<and> present s4 e)
                  (\<lambda>e. (the (lookup s1 e), the (lookup s2 e), the (lookup s3 e), the (lookup s4 e)))) ?rest)"
      unfolding pt by (rule rounds_cong) (simp_all add: other)
    have q: "Query4_loop func s1 s2 s3 s4 i log =
       Inr (u1, u2, u3, u4, log @ concat (map (round_events [2, 3, 4]
                  (\<lambda>e. present s2 e \<and> present s3 e \<and> present s4 e)
                  (\<lambda>e. (the (lookup s1 e), the (lookup s2 e), the (lookup s3 e), the (lookup s4 e))))
                  (drop (nat i) (take (nat (count s1)) (dense s1)))))"
      unfolding step ih(1) cg dr using p
      by (simp add: round_events_def)
    have f1: "written (drop (nat i) (take (nat (count s1)) (dense s1)))
        (\<lambda>e. present s2 e \<and> present s3 e \<and> present s4 e)
        (\<lambda>e. fst (func e (the (lookup s1 e)) (the (lookup s2 e)) (the (lookup s3 e)) (the (lookup s4 e)))) s1 u1"
      unfolding dr
    proof (rule written_step[where t = t1 and new' = "(\<lambda>e. fst (func e (the (lookup t1 e)) (the (lookup t2 e)) (the (lookup t3 e)) (the (lookup t4 e))))"])
      show "same_members s1 t1" by (rule w1(2))
      show "\<forall>e'. lookup t1 e' = (if e' = ?e then Some ((\<lambda>e. fst (func e (the (lookup s1 e)) (the (lookup s2 e)) (the (lookup s3 e)) (the (lookup s4 e)))) ?e) else lookup s1 e')"
        using w1(3) by simp
      show "written ?rest ?P
        (\<lambda>e. fst (func e (the (lookup t1 e)) (the (lookup t2 e)) (the (lookup t3 e)) (the (lookup t4 e)))) t1 u1" by (rule ih(2))
      show "?e \<notin> set ?rest" by (rule ne)
      show "?P ?e" using p by simp
      show "(\<lambda>e. fst (func e (the (lookup t1 e)) (the (lookup t2 e)) (the (lookup t3 e)) (the (lookup t4 e)))) e' = (\<lambda>e. fst (func e (the (lookup s1 e)) (the (lookup s2 e)) (the (lookup s3 e)) (the (lookup s4 e)))) e'" if "e' \<in> set ?rest" "?P e'" for e'
        using other[OF that(1)] by simp
    qed
    have f2: "written (drop (nat i) (take (nat (count s1)) (dense s1)))
        (\<lambda>e. present s2 e \<and> present s3 e \<and> present s4 e)
        (\<lambda>e. fst (snd (func e (the (lookup s1 e)) (the (lookup s2 e)) (the (lookup s3 e)) (the (lookup s4 e))))) s2 u2"
      unfolding dr
    proof (rule written_step[where t = t2 and new' = "(\<lambda>e. fst (snd (func e (the (lookup t1 e)) (the (lookup t2 e)) (the (lookup t3 e)) (the (lookup t4 e)))))"])
      show "same_members s2 t2" by (rule w2(2))
      show "\<forall>e'. lookup t2 e' = (if e' = ?e then Some ((\<lambda>e. fst (snd (func e (the (lookup s1 e)) (the (lookup s2 e)) (the (lookup s3 e)) (the (lookup s4 e))))) ?e) else lookup s2 e')"
        using w2(3) by simp
      show "written ?rest ?P
        (\<lambda>e. fst (snd (func e (the (lookup t1 e)) (the (lookup t2 e)) (the (lookup t3 e)) (the (lookup t4 e))))) t2 u2" by (rule ih(3))
      show "?e \<notin> set ?rest" by (rule ne)
      show "?P ?e" using p by simp
      show "(\<lambda>e. fst (snd (func e (the (lookup t1 e)) (the (lookup t2 e)) (the (lookup t3 e)) (the (lookup t4 e))))) e' = (\<lambda>e. fst (snd (func e (the (lookup s1 e)) (the (lookup s2 e)) (the (lookup s3 e)) (the (lookup s4 e))))) e'" if "e' \<in> set ?rest" "?P e'" for e'
        using other[OF that(1)] by simp
    qed
    have f3: "written (drop (nat i) (take (nat (count s1)) (dense s1)))
        (\<lambda>e. present s2 e \<and> present s3 e \<and> present s4 e)
        (\<lambda>e. fst (snd (snd (func e (the (lookup s1 e)) (the (lookup s2 e)) (the (lookup s3 e)) (the (lookup s4 e)))))) s3 u3"
      unfolding dr
    proof (rule written_step[where t = t3 and new' = "(\<lambda>e. fst (snd (snd (func e (the (lookup t1 e)) (the (lookup t2 e)) (the (lookup t3 e)) (the (lookup t4 e))))))"])
      show "same_members s3 t3" by (rule w3(2))
      show "\<forall>e'. lookup t3 e' = (if e' = ?e then Some ((\<lambda>e. fst (snd (snd (func e (the (lookup s1 e)) (the (lookup s2 e)) (the (lookup s3 e)) (the (lookup s4 e)))))) ?e) else lookup s3 e')"
        using w3(3) by simp
      show "written ?rest ?P
        (\<lambda>e. fst (snd (snd (func e (the (lookup t1 e)) (the (lookup t2 e)) (the (lookup t3 e)) (the (lookup t4 e)))))) t3 u3" by (rule ih(4))
      show "?e \<notin> set ?rest" by (rule ne)
      show "?P ?e" using p by simp
      show "(\<lambda>e. fst (snd (snd (func e (the (lookup t1 e)) (the (lookup t2 e)) (the (lookup t3 e)) (the (lookup t4 e)))))) e' = (\<lambda>e. fst (snd (snd (func e (the (lookup s1 e)) (the (lookup s2 e)) (the (lookup s3 e)) (the (lookup s4 e)))))) e'" if "e' \<in> set ?rest" "?P e'" for e'
        using other[OF that(1)] by simp
    qed
    have f4: "written (drop (nat i) (take (nat (count s1)) (dense s1)))
        (\<lambda>e. present s2 e \<and> present s3 e \<and> present s4 e)
        (\<lambda>e. snd (snd (snd (func e (the (lookup s1 e)) (the (lookup s2 e)) (the (lookup s3 e)) (the (lookup s4 e)))))) s4 u4"
      unfolding dr
    proof (rule written_step[where t = t4 and new' = "(\<lambda>e. snd (snd (snd (func e (the (lookup t1 e)) (the (lookup t2 e)) (the (lookup t3 e)) (the (lookup t4 e))))))"])
      show "same_members s4 t4" by (rule w4(2))
      show "\<forall>e'. lookup t4 e' = (if e' = ?e then Some ((\<lambda>e. snd (snd (snd (func e (the (lookup s1 e)) (the (lookup s2 e)) (the (lookup s3 e)) (the (lookup s4 e)))))) ?e) else lookup s4 e')"
        using w4(3) by simp
      show "written ?rest ?P
        (\<lambda>e. snd (snd (snd (func e (the (lookup t1 e)) (the (lookup t2 e)) (the (lookup t3 e)) (the (lookup t4 e)))))) t4 u4" by (rule ih(5))
      show "?e \<notin> set ?rest" by (rule ne)
      show "?P ?e" using p by simp
      show "(\<lambda>e. snd (snd (snd (func e (the (lookup t1 e)) (the (lookup t2 e)) (the (lookup t3 e)) (the (lookup t4 e)))))) e' = (\<lambda>e. snd (snd (snd (func e (the (lookup s1 e)) (the (lookup s2 e)) (the (lookup s3 e)) (the (lookup s4 e)))))) e'" if "e' \<in> set ?rest" "?P e'" for e'
        using other[OF that(1)] by simp
    qed
    show ?thesis
      using q f1 f2 f3 f4 by blast
  next
    case False
    then have nf: "(present s2 ?e \<and> present s3 ?e \<and> present s4 ?e) = False" by simp
    let ?log = "log @ [Probe 2 ?e, Probe 3 ?e, Probe 4 ?e]"
    have step: "Query4_loop func s1 s2 s3 s4 i log = Query4_loop func s1 s2 s3 s4 (i + 1) ?log"
      using lt
      by (simp add: Query4_loop.simps[of func s1 s2 s3 s4 i] Count_def rr(1) gp nf)
    have k: "k = nat (count s1 - (i + 1))" using Suc.hyps(2) by simp
    obtain u1 u2 u3 u4 where ih: "Query4_loop func s1 s2 s3 s4 (i + 1) ?log =
       Inr (u1, u2, u3, u4, ?log @ concat (map (round_events [2, 3, 4]
                  (\<lambda>e. present s2 e \<and> present s3 e \<and> present s4 e)
                  (\<lambda>e. (the (lookup s1 e), the (lookup s2 e), the (lookup s3 e), the (lookup s4 e))))
                  ?rest))"
      "written ?rest ?P
        (\<lambda>e. fst (func e (the (lookup s1 e)) (the (lookup s2 e)) (the (lookup s3 e)) (the (lookup s4 e)))) s1 u1"
      "written ?rest ?P
        (\<lambda>e. fst (snd (func e (the (lookup s1 e)) (the (lookup s2 e)) (the (lookup s3 e)) (the (lookup s4 e))))) s2 u2"
      "written ?rest ?P
        (\<lambda>e. fst (snd (snd (func e (the (lookup s1 e)) (the (lookup s2 e)) (the (lookup s3 e)) (the (lookup s4 e)))))) s3 u3"
      "written ?rest ?P
        (\<lambda>e. snd (snd (snd (func e (the (lookup s1 e)) (the (lookup s2 e)) (the (lookup s3 e)) (the (lookup s4 e)))))) s4 u4"
      using Suc.hyps(1)[OF k inv1 inv2 inv3 inv4 i1] by blast
    have q: "Query4_loop func s1 s2 s3 s4 i log =
       Inr (u1, u2, u3, u4, log @ concat (map (round_events [2, 3, 4]
                  (\<lambda>e. present s2 e \<and> present s3 e \<and> present s4 e)
                  (\<lambda>e. (the (lookup s1 e), the (lookup s2 e), the (lookup s3 e), the (lookup s4 e))))
                  (drop (nat i) (take (nat (count s1)) (dense s1)))))"
      unfolding step ih(1) dr using nf by (simp add: round_events_def)
    have np: "\<not> ?P ?e" using nf by simp
    have f1: "written (drop (nat i) (take (nat (count s1)) (dense s1)))
        (\<lambda>e. present s2 e \<and> present s3 e \<and> present s4 e)
        (\<lambda>e. fst (func e (the (lookup s1 e)) (the (lookup s2 e)) (the (lookup s3 e)) (the (lookup s4 e)))) s1 u1"
      unfolding dr by (rule written_skip[OF ih(2) np])
    have f2: "written (drop (nat i) (take (nat (count s1)) (dense s1)))
        (\<lambda>e. present s2 e \<and> present s3 e \<and> present s4 e)
        (\<lambda>e. fst (snd (func e (the (lookup s1 e)) (the (lookup s2 e)) (the (lookup s3 e)) (the (lookup s4 e))))) s2 u2"
      unfolding dr by (rule written_skip[OF ih(3) np])
    have f3: "written (drop (nat i) (take (nat (count s1)) (dense s1)))
        (\<lambda>e. present s2 e \<and> present s3 e \<and> present s4 e)
        (\<lambda>e. fst (snd (snd (func e (the (lookup s1 e)) (the (lookup s2 e)) (the (lookup s3 e)) (the (lookup s4 e)))))) s3 u3"
      unfolding dr by (rule written_skip[OF ih(4) np])
    have f4: "written (drop (nat i) (take (nat (count s1)) (dense s1)))
        (\<lambda>e. present s2 e \<and> present s3 e \<and> present s4 e)
        (\<lambda>e. snd (snd (snd (func e (the (lookup s1 e)) (the (lookup s2 e)) (the (lookup s3 e)) (the (lookup s4 e)))))) s4 u4"
      unfolding dr by (rule written_skip[OF ih(5) np])
    show ?thesis
      using q f1 f2 f3 f4 by blast
  qed
qed

lemma Query4_join:
  assumes "SparseSet_inv s1" and "SparseSet_inv s2" and "SparseSet_inv s3" and "SparseSet_inv s4"
  shows "\<exists>s1' s2' s3' s4' log. Query4 func s1 s2 s3 s4 = Inr (s1', s2', s3', s4', log) \<and>
           probed log = concat (map (\<lambda>e. [(2, e), (3, e), (4, e)])
                (take (nat (Count s1)) (dense s1))) \<and>
           visited log = filter (\<lambda>e. Has s2 e = Inr True \<and> Has s3 e = Inr True \<and> Has s4 e = Inr True)
                (take (nat (Count s1)) (dense s1)) \<and>
           distinct (visited log) \<and>
           (\<forall>e. e \<in> set (visited log) \<longleftrightarrow>
              Has s1 e = Inr True \<and> Has s2 e = Inr True \<and> Has s3 e = Inr True \<and> Has s4 e = Inr True) \<and>
           (\<forall>e c1 c2 c3 c4. Visit e (c1, c2, c3, c4) \<in> set log \<longrightarrow>
              Get_value s1 e = Inr (Some c1) \<and> Get_value s2 e = Inr (Some c2) \<and> Get_value s3 e = Inr (Some c3) \<and> Get_value s4 e = Inr (Some c4)) \<and>
           (\<forall>e c1 c2 c3 c4 d1 d2 d3 d4.
              Get_value s1 e = Inr (Some c1) \<and> Get_value s2 e = Inr (Some c2) \<and> Get_value s3 e = Inr (Some c3) \<and> Get_value s4 e = Inr (Some c4) \<and>
              func e c1 c2 c3 c4 = (d1, d2, d3, d4) \<longrightarrow>
              Get_value s1' e = Inr (Some d1) \<and> Get_value s2' e = Inr (Some d2) \<and> Get_value s3' e = Inr (Some d3) \<and> Get_value s4' e = Inr (Some d4)) \<and>
           (\<forall>e. \<not> (Has s1 e = Inr True \<and> Has s2 e = Inr True \<and> Has s3 e = Inr True \<and> Has s4 e = Inr True) \<longrightarrow>
              Get_value s1' e = Get_value s1 e \<and> Get_value s2' e = Get_value s2 e \<and> Get_value s3' e = Get_value s3 e \<and> Get_value s4' e = Get_value s4 e) \<and>
           (\<forall>e. Has s1' e = Has s1 e \<and> Has s2' e = Has s2 e \<and> Has s3' e = Has s3 e \<and> Has s4' e = Has s4 e)"
proof -
  let ?es = "take (nat (count s1)) (dense s1)"
  let ?P = "(\<lambda>e. present s2 e \<and> present s3 e \<and> present s4 e)"
  let ?log = "concat (map (round_events [2, 3, 4] ?P (\<lambda>e. (the (lookup s1 e), the (lookup s2 e), the (lookup s3 e), the (lookup s4 e)))) ?es)"
  obtain s1' s2' s3' s4' where q: "Query4 func s1 s2 s3 s4 = Inr (s1', s2', s3', s4', ?log)"
    and wr: "written ?es ?P
        (\<lambda>e. fst (func e (the (lookup s1 e)) (the (lookup s2 e)) (the (lookup s3 e)) (the (lookup s4 e)))) s1 s1'"
      "written ?es ?P
        (\<lambda>e. fst (snd (func e (the (lookup s1 e)) (the (lookup s2 e)) (the (lookup s3 e)) (the (lookup s4 e))))) s2 s2'"
      "written ?es ?P
        (\<lambda>e. fst (snd (snd (func e (the (lookup s1 e)) (the (lookup s2 e)) (the (lookup s3 e)) (the (lookup s4 e)))))) s3 s3'"
      "written ?es ?P
        (\<lambda>e. snd (snd (snd (func e (the (lookup s1 e)) (the (lookup s2 e)) (the (lookup s3 e)) (the (lookup s4 e)))))) s4 s4'"
    using Query4_loop_eq[OF assms, of 0 func "[]"] by (auto simp add: Query4_def)
  note wv = written_values[OF assms(1) wr(1)] written_values[OF assms(2) wr(2)] written_values[OF assms(3) wr(3)] written_values[OF assms(4) wr(4)]
  have h: "Has s1' e = Has s1 e \<and> Has s2' e = Has s2 e \<and> Has s3' e = Has s3 e \<and> Has s4' e = Has s4 e" for e
    by (simp add: written_values(2)[OF assms(1) wr(1)] written_values(2)[OF assms(2) wr(2)] written_values(2)[OF assms(3) wr(3)] written_values(2)[OF assms(4) wr(4)])
  have gv: "Get_value s1' e = (if e \<in> set ?es \<and> ?P e
        then Inr (Some ((\<lambda>e. fst (func e (the (lookup s1 e)) (the (lookup s2 e)) (the (lookup s3 e)) (the (lookup s4 e)))) e)) else Get_value s1 e)"
    "Get_value s2' e = (if e \<in> set ?es \<and> ?P e
        then Inr (Some ((\<lambda>e. fst (snd (func e (the (lookup s1 e)) (the (lookup s2 e)) (the (lookup s3 e)) (the (lookup s4 e))))) e)) else Get_value s2 e)"
    "Get_value s3' e = (if e \<in> set ?es \<and> ?P e
        then Inr (Some ((\<lambda>e. fst (snd (snd (func e (the (lookup s1 e)) (the (lookup s2 e)) (the (lookup s3 e)) (the (lookup s4 e)))))) e)) else Get_value s3 e)"
    "Get_value s4' e = (if e \<in> set ?es \<and> ?P e
        then Inr (Some ((\<lambda>e. snd (snd (snd (func e (the (lookup s1 e)) (the (lookup s2 e)) (the (lookup s3 e)) (the (lookup s4 e)))))) e)) else Get_value s4 e)" for e
    by (rule written_values(3)[OF assms(1) wr(1)] written_values(3)[OF assms(2) wr(2)] written_values(3)[OF assms(3) wr(3)] written_values(3)[OF assms(4) wr(4)])+
  have v: "visited ?log = filter ?P ?es" by (rule visited_rounds)
  have f: "filter (\<lambda>e. Has s2 e = Inr True \<and> Has s3 e = Inr True \<and> Has s4 e = Inr True) ?es = filter ?P ?es"
    by (simp add: Has_present assms)
  have p: "probed ?log = concat (map (\<lambda>e. [(2, e), (3, e), (4, e)]) ?es)"
    unfolding probed_rounds by simp
  have d: "distinct (visited ?log)" unfolding v using dense_members(1)[OF assms(1)] by simp
  have m: "e \<in> set (visited ?log) \<longleftrightarrow>
            Has s1 e = Inr True \<and> Has s2 e = Inr True \<and> Has s3 e = Inr True \<and> Has s4 e = Inr True" for e
    unfolding v using dense_members(2)[OF assms(1)] by (auto simp add: Has_present assms)
  have c: "Get_value s1 e = Inr (Some c1) \<and> Get_value s2 e = Inr (Some c2) \<and> Get_value s3 e = Inr (Some c3) \<and> Get_value s4 e = Inr (Some c4)"
    if "Visit e (c1, c2, c3, c4) \<in> set ?log" for e c1 c2 c3 c4
  proof -
    have "e \<in> set ?es" "?P e" "(c1, c2, c3, c4) = (the (lookup s1 e), the (lookup s2 e), the (lookup s3 e), the (lookup s4 e))"
      using that[unfolded Visit_rounds] by simp_all
    moreover have "present s1 e" using \<open>e \<in> set ?es\<close> dense_members(2)[OF assms(1)] by simp
    ultimately show ?thesis by (simp add: lookup_value assms)
  qed
  have a: "Get_value s1' e = Inr (Some d1) \<and> Get_value s2' e = Inr (Some d2) \<and> Get_value s3' e = Inr (Some d3) \<and> Get_value s4' e = Inr (Some d4)"
    if "Get_value s1 e = Inr (Some c1)" "Get_value s2 e = Inr (Some c2)" "Get_value s3 e = Inr (Some c3)" "Get_value s4 e = Inr (Some c4)"
      "func e c1 c2 c3 c4 = (d1, d2, d3, d4)" for e c1 c2 c3 c4 d1 d2 d3 d4
  proof -
    have l: "lookup s1 e = Some c1" "lookup s2 e = Some c2" "lookup s3 e = Some c3" "lookup s4 e = Some c4"
      using that(1,2,3,4) by (simp_all add: Get_value_inv assms)
    then have pr: "present s1 e" "present s2 e" "present s3 e" "present s4 e"
      by (simp_all add: lookup_def split: if_splits)
    have "e \<in> set ?es" using pr(1) dense_members(2)[OF assms(1)] by simp
    then show ?thesis using pr l that(5) by (simp add: gv)
  qed
  have b: "Get_value s1' e = Get_value s1 e \<and> Get_value s2' e = Get_value s2 e \<and> Get_value s3' e = Get_value s3 e \<and> Get_value s4' e = Get_value s4 e"
    if "\<not> (Has s1 e = Inr True \<and> Has s2 e = Inr True \<and> Has s3 e = Inr True \<and> Has s4 e = Inr True)" for e
  proof -
    have nf: "(e \<in> set ?es \<and> ?P e) = False"
      using that dense_members(2)[OF assms(1)] by (auto simp add: Has_present assms)
    show ?thesis by (simp add: gv nf)
  qed
  have m': "\<forall>e. e \<in> set (visited ?log) \<longleftrightarrow>
            Has s1 e = Inr True \<and> Has s2 e = Inr True \<and> Has s3 e = Inr True \<and> Has s4 e = Inr True"
    by (intro allI) (rule m)
  have c': "\<forall>e c1 c2 c3 c4. Visit e (c1, c2, c3, c4) \<in> set ?log \<longrightarrow>
            Get_value s1 e = Inr (Some c1) \<and> Get_value s2 e = Inr (Some c2) \<and> Get_value s3 e = Inr (Some c3) \<and> Get_value s4 e = Inr (Some c4)"
    by (intro allI impI) (rule c)
  have a': "\<forall>e c1 c2 c3 c4 d1 d2 d3 d4.
              Get_value s1 e = Inr (Some c1) \<and> Get_value s2 e = Inr (Some c2) \<and> Get_value s3 e = Inr (Some c3) \<and> Get_value s4 e = Inr (Some c4) \<and>
              func e c1 c2 c3 c4 = (d1, d2, d3, d4) \<longrightarrow>
              Get_value s1' e = Inr (Some d1) \<and> Get_value s2' e = Inr (Some d2) \<and> Get_value s3' e = Inr (Some d3) \<and> Get_value s4' e = Inr (Some d4)"
    by (intro allI impI, elim conjE) (rule a)
  have b': "\<forall>e. \<not> (Has s1 e = Inr True \<and> Has s2 e = Inr True \<and> Has s3 e = Inr True \<and> Has s4 e = Inr True) \<longrightarrow>
              Get_value s1' e = Get_value s1 e \<and> Get_value s2' e = Get_value s2 e \<and> Get_value s3' e = Get_value s3 e \<and> Get_value s4' e = Get_value s4 e"
    by (intro allI impI) (rule b)
  have h': "\<forall>e. Has s1' e = Has s1 e \<and> Has s2' e = Has s2 e \<and> Has s3' e = Has s3 e \<and> Has s4' e = Has s4 e"
    by (intro allI) (rule h)
  show ?thesis
    unfolding Count_def
    by (intro exI[of _ s1'] exI[of _ s2'] exI[of _ s3'] exI[of _ s4'] exI[of _ ?log] conjI)
      (rule q p d m' c' a' b' h' v[folded f])+
qed

lemma Query5_loop_eq:
  "SparseSet_inv s1 \<Longrightarrow> SparseSet_inv s2 \<Longrightarrow> SparseSet_inv s3 \<Longrightarrow> SparseSet_inv s4 \<Longrightarrow> SparseSet_inv s5 \<Longrightarrow> 0 \<le> i \<Longrightarrow>
   \<exists>s1' s2' s3' s4' s5'. Query5_loop func s1 s2 s3 s4 s5 i log =
       Inr (s1', s2', s3', s4', s5', log @ concat (map (round_events [2, 3, 4, 5]
                  (\<lambda>e. present s2 e \<and> present s3 e \<and> present s4 e \<and> present s5 e)
                  (\<lambda>e. (the (lookup s1 e), the (lookup s2 e), the (lookup s3 e), the (lookup s4 e), the (lookup s5 e))))
                  (drop (nat i) (take (nat (count s1)) (dense s1))))) \<and>
     written (drop (nat i) (take (nat (count s1)) (dense s1)))
        (\<lambda>e. present s2 e \<and> present s3 e \<and> present s4 e \<and> present s5 e)
        (\<lambda>e. fst (func e (the (lookup s1 e)) (the (lookup s2 e)) (the (lookup s3 e)) (the (lookup s4 e)) (the (lookup s5 e)))) s1 s1' \<and>
     written (drop (nat i) (take (nat (count s1)) (dense s1)))
        (\<lambda>e. present s2 e \<and> present s3 e \<and> present s4 e \<and> present s5 e)
        (\<lambda>e. fst (snd (func e (the (lookup s1 e)) (the (lookup s2 e)) (the (lookup s3 e)) (the (lookup s4 e)) (the (lookup s5 e))))) s2 s2' \<and>
     written (drop (nat i) (take (nat (count s1)) (dense s1)))
        (\<lambda>e. present s2 e \<and> present s3 e \<and> present s4 e \<and> present s5 e)
        (\<lambda>e. fst (snd (snd (func e (the (lookup s1 e)) (the (lookup s2 e)) (the (lookup s3 e)) (the (lookup s4 e)) (the (lookup s5 e)))))) s3 s3' \<and>
     written (drop (nat i) (take (nat (count s1)) (dense s1)))
        (\<lambda>e. present s2 e \<and> present s3 e \<and> present s4 e \<and> present s5 e)
        (\<lambda>e. fst (snd (snd (snd (func e (the (lookup s1 e)) (the (lookup s2 e)) (the (lookup s3 e)) (the (lookup s4 e)) (the (lookup s5 e))))))) s4 s4' \<and>
     written (drop (nat i) (take (nat (count s1)) (dense s1)))
        (\<lambda>e. present s2 e \<and> present s3 e \<and> present s4 e \<and> present s5 e)
        (\<lambda>e. snd (snd (snd (snd (func e (the (lookup s1 e)) (the (lookup s2 e)) (the (lookup s3 e)) (the (lookup s4 e)) (the (lookup s5 e))))))) s5 s5'"
proof (induction "nat (count s1 - i)" arbitrary: i log s1 s2 s3 s4 s5)
  case 0
  then have "\<not> i < count s1" by simp
  then show ?case using "0.prems"
    by (intro exI[of _ s1] exI[of _ s2] exI[of _ s3] exI[of _ s4] exI[of _ s5])
      (simp add: Query5_loop.simps[of func s1 s2 s3 s4 s5 i] Count_def written_Nil)
next
  case (Suc k)
  note inv1 = Suc.prems(1) and inv2 = Suc.prems(2) and inv3 = Suc.prems(3) and inv4 = Suc.prems(4) and inv5 = Suc.prems(5) and i0 = Suc.prems(6)
  have lt: "i < count s1" using Suc.hyps(2) by simp
  let ?e = "dense s1 ! nat i"
  let ?rest = "drop (nat (i + 1)) (take (nat (count s1)) (dense s1))"
  let ?P = "(\<lambda>e. present s2 e \<and> present s3 e \<and> present s4 e \<and> present s5 e)"
  note dr = drop_round[OF inv1 i0 lt]
  note ne = round_fresh[OF inv1 i0 lt]
  note rr = round_reads[OF inv1 i0 lt]
  note gp = Get_ptr[OF inv2] Get_ptr[OF inv3] Get_ptr[OF inv4] Get_ptr[OF inv5]
  have i1: "0 \<le> i + 1" using i0 by simp
  show ?case
  proof (cases "present s2 ?e \<and> present s3 ?e \<and> present s4 ?e \<and> present s5 ?e")
    case True
    then have p: "present s2 ?e" "present s3 ?e" "present s4 ?e" "present s5 ?e" by simp_all
    note gd = GetData_ptr[OF inv2 p(1)] GetData_ptr[OF inv3 p(2)] GetData_ptr[OF inv4 p(3)] GetData_ptr[OF inv5 p(4)]
    let ?r = "func ?e (the (lookup s1 ?e)) (the (lookup s2 ?e)) (the (lookup s3 ?e)) (the (lookup s4 ?e)) (the (lookup s5 ?e))"
    let ?log = "log @ [Probe 2 ?e, Probe 3 ?e, Probe 4 ?e, Probe 5 ?e,
        Visit ?e (the (lookup s1 ?e), the (lookup s2 ?e), the (lookup s3 ?e), the (lookup s4 ?e), the (lookup s5 ?e))]"
    obtain t1 where w1: "SetData s1 i (fst (?r)) = Inr t1" "same_members s1 t1"
      "\<forall>e'. lookup t1 e' = (if e' = ?e then Some (fst (?r)) else lookup s1 e')"
      using SetData_drive[OF inv1 i0 lt] by blast
    obtain t2 where w2: "SetData s2 (the (ptr s2 ?e)) (fst (snd (?r))) = Inr t2" "same_members s2 t2"
      "\<forall>e'. lookup t2 e' = (if e' = ?e then Some (fst (snd (?r))) else lookup s2 e')"
      using SetData_ptr[OF inv2 p(1)] by blast
    obtain t3 where w3: "SetData s3 (the (ptr s3 ?e)) (fst (snd (snd (?r)))) = Inr t3" "same_members s3 t3"
      "\<forall>e'. lookup t3 e' = (if e' = ?e then Some (fst (snd (snd (?r)))) else lookup s3 e')"
      using SetData_ptr[OF inv3 p(2)] by blast
    obtain t4 where w4: "SetData s4 (the (ptr s4 ?e)) (fst (snd (snd (snd (?r))))) = Inr t4" "same_members s4 t4"
      "\<forall>e'. lookup t4 e' = (if e' = ?e then Some (fst (snd (snd (snd (?r))))) else lookup s4 e')"
      using SetData_ptr[OF inv4 p(3)] by blast
    obtain t5 where w5: "SetData s5 (the (ptr s5 ?e)) (snd (snd (snd (snd (?r))))) = Inr t5" "same_members s5 t5"
      "\<forall>e'. lookup t5 e' = (if e' = ?e then Some (snd (snd (snd (snd (?r))))) else lookup s5 e')"
      using SetData_ptr[OF inv5 p(4)] by blast
    have step: "Query5_loop func s1 s2 s3 s4 s5 i log = Query5_loop func t1 t2 t3 t4 t5 (i + 1) ?log"
      using p lt
      by (simp add: Query5_loop.simps[of func s1 s2 s3 s4 s5 i] Count_def rr(1,2) gp gd
          w1(1) w2(1) w3(1) w4(1) w5(1) case_prod_beta)
    have k: "k = nat (count t1 - (i + 1))" using Suc.hyps(2) w1(2) by (simp add: same_members_def)
    have pt: "(\<lambda>e. present t2 e \<and> present t3 e \<and> present t4 e \<and> present t5 e) = ?P"
      by (simp add: same_members_present[OF w2(2)] same_members_present[OF w3(2)] same_members_present[OF w4(2)] same_members_present[OF w5(2)])
    obtain u1 u2 u3 u4 u5 where ih: "Query5_loop func t1 t2 t3 t4 t5 (i + 1) ?log =
       Inr (u1, u2, u3, u4, u5, ?log @ concat (map (round_events [2, 3, 4, 5]
                  (\<lambda>e. present t2 e \<and> present t3 e \<and> present t4 e \<and> present t5 e)
                  (\<lambda>e. (the (lookup t1 e), the (lookup t2 e), the (lookup t3 e), the (lookup t4 e), the (lookup t5 e))))
                  ?rest))"
      "written ?rest ?P
        (\<lambda>e. fst (func e (the (lookup t1 e)) (the (lookup t2 e)) (the (lookup t3 e)) (the (lookup t4 e)) (the (lookup t5 e)))) t1 u1"
      "written ?rest ?P
        (\<lambda>e. fst (snd (func e (the (lookup t1 e)) (the (lookup t2 e)) (the (lookup t3 e)) (the (lookup t4 e)) (the (lookup t5 e))))) t2 u2"
      "written ?rest ?P
        (\<lambda>e. fst (snd (snd (func e (the (lookup t1 e)) (the (lookup t2 e)) (the (lookup t3 e)) (the (lookup t4 e)) (the (lookup t5 e)))))) t3 u3"
      "written ?rest ?P
        (\<lambda>e. fst (snd (snd (snd (func e (the (lookup t1 e)) (the (lookup t2 e)) (the (lookup t3 e)) (the (lookup t4 e)) (the (lookup t5 e))))))) t4 u4"
      "written ?rest ?P
        (\<lambda>e. snd (snd (snd (snd (func e (the (lookup t1 e)) (the (lookup t2 e)) (the (lookup t3 e)) (the (lookup t4 e)) (the (lookup t5 e))))))) t5 u5"
      using Suc.hyps(1)[OF k same_members_inv[OF inv1 w1(2)] same_members_inv[OF inv2 w2(2)] same_members_inv[OF inv3 w3(2)] same_members_inv[OF inv4 w4(2)] same_members_inv[OF inv5 w5(2)] i1]
      unfolding same_members_dense[OF w1(2)] pt by blast
    have other: "lookup t1 e' = lookup s1 e' \<and> lookup t2 e' = lookup s2 e' \<and> lookup t3 e' = lookup s3 e' \<and> lookup t4 e' = lookup s4 e' \<and> lookup t5 e' = lookup s5 e'" if "e' \<in> set ?rest" for e'
      using that ne w1(3) w2(3) w3(3) w4(3) w5(3) by auto
    have cg: "concat (map (round_events [2, 3, 4, 5]
                  (\<lambda>e. present t2 e \<and> present t3 e \<and> present t4 e \<and> present t5 e)
                  (\<lambda>e. (the (lookup t1 e), the (lookup t2 e), the (lookup t3 e), the (lookup t4 e), the (lookup t5 e)))) ?rest) =
        concat (map (round_events [2, 3, 4, 5]
                  (\<lambda>e. present s2 e \<and> present s3 e \<and> present s4 e \<and> present s5 e)
                  (\<lambda>e. (the (lookup s1 e), the (lookup s2 e), the (lookup s3 e), the (lookup s4 e), the (lookup s5 e)))) ?rest)"
      unfolding pt by (rule rounds_cong) (simp_all add: other)
    have q: "Query5_loop func s1 s2 s3 s4 s5 i log =
       Inr (u1, u2, u3, u4, u5, log @ concat (map (round_events [2, 3, 4, 5]
                  (\<lambda>e. present s2 e \<and> present s3 e \<and> present s4 e \<and> present s5 e)
                  (\<lambda>e. (the (lookup s1 e), the (lookup s2 e), the (lookup s3 e), the (lookup s4 e), the (lookup s5 e))))
                  (drop (nat i) (take (nat (count s1)) (dense s1)))))"
      unfolding step ih(1) cg dr using p
      by (simp add: round_events_def)
    have f1: "written (drop (nat i) (take (nat (count s1)) (dense s1)))
        (\<lambda>e. present s2 e \<and> present s3 e \<and> present s4 e \<and> present s5 e)
        (\<lambda>e. fst (func e (the (lookup s1 e)) (the (lookup s2 e)) (the (lookup s3 e)) (the (lookup s4 e)) (the (lookup s5 e)))) s1 u1"
      unfolding dr
    proof (rule written_step[where t = t1 and new' = "(\<lambda>e. fst (func e (the (lookup t1 e)) (the (lookup t2 e)) (the (lookup t3 e)) (the (lookup t4 e)) (the (lookup t5 e))))"])
      show "same_members s1 t1" by (rule w1(2))
      show "\<forall>e'. lookup t1 e' = (if e' = ?e then Some ((\<lambda>e. fst (func e (the (lookup s1 e)) (the (lookup s2 e)) (the (lookup s3 e)) (the (lookup s4 e)) (the (lookup s5 e)))) ?e) else lookup s1 e')"
        using w1(3) by simp
      show "written ?rest ?P
        (\<lambda>e. fst (func e (the (lookup t1 e)) (the (lookup t2 e)) (the (lookup t3 e)) (the (lookup t4 e)) (the (lookup t5 e)))) t1 u1" by (rule ih(2))
      show "?e \<notin> set ?rest" by (rule ne)
      show "?P ?e" using p by simp
      show "(\<lambda>e. fst (func e (the (lookup t1 e)) (the (lookup t2 e)) (the (lookup t3 e)) (the (lookup t4 e)) (the (lookup t5 e)))) e' = (\<lambda>e. fst (func e (the (lookup s1 e)) (the (lookup s2 e)) (the (lookup s3 e)) (the (lookup s4 e)) (the (lookup s5 e)))) e'" if "e' \<in> set ?rest" "?P e'" for e'
        using other[OF that(1)] by simp
    qed
    have f2: "written (drop (nat i) (take (nat (count s1)) (dense s1)))
        (\<lambda>e. present s2 e \<and> present s3 e \<and> present s4 e \<and> present s5 e)
        (\<lambda>e. fst (snd (func e (the (lookup s1 e)) (the (lookup s2 e)) (the (lookup s3 e)) (the (lookup s4 e)) (the (lookup s5 e))))) s2 u2"
      unfolding dr
    proof (rule written_step[where t = t2 and new' = "(\<lambda>e. fst (snd (func e (the (lookup t1 e)) (the (lookup t2 e)) (the (lookup t3 e)) (the (lookup t4 e)) (the (lookup t5 e)))))"])
      show "same_members s2 t2" by (rule w2(2))
      show "\<forall>e'. lookup t2 e' = (if e' = ?e then Some ((\<lambda>e. fst (snd (func e (the (lookup s1 e)) (the (lookup s2 e)) (the (lookup s3 e)) (the (lookup s4 e)) (the (lookup s5 e))))) ?e) else lookup s2 e')"
        using w2(3) by simp
      show "written ?rest ?P
        (\<lambda>e. fst (snd (func e (the (lookup t1 e)) (the (lookup t2 e)) (the (lookup t3 e)) (the (lookup t4 e)) (the (lookup t5 e))))) t2 u2" by (rule ih(3))
      show "?e \<notin> set ?rest" by (rule ne)
      show "?P ?e" using p by simp
      show "(\<lambda>e. fst (snd (func e (the (lookup t1 e)) (the (lookup t2 e)) (the (lookup t3 e)) (the (lookup t4 e)) (the (lookup t5 e))))) e' = (\<lambda>e. fst (snd (func e (the (lookup s1 e)) (the (lookup s2 e)) (the (lookup s3 e)) (the (lookup s4 e)) (the (lookup s5 e))))) e'" if "e' \<in> set ?rest" "?P e'" for e'
        using other[OF that(1)] by simp
    qed
    have f3: "written (drop (nat i) (take (nat (count s1)) (dense s1)))
        (\<lambda>e. present s2 e \<and> present s3 e \<and> present s4 e \<and> present s5 e)
        (\<lambda>e. fst (snd (snd (func e (the (lookup s1 e)) (the (lookup s2 e)) (the (lookup s3 e)) (the (lookup s4 e)) (the (lookup s5 e)))))) s3 u3"
      unfolding dr
    proof (rule written_step[where t = t3 and new' = "(\<lambda>e. fst (snd (snd (func e (the (lookup t1 e)) (the (lookup t2 e)) (the (lookup t3 e)) (the (lookup t4 e)) (the (lookup t5 e))))))"])
      show "same_members s3 t3" by (rule w3(2))
      show "\<forall>e'. lookup t3 e' = (if e' = ?e then Some ((\<lambda>e. fst (snd (snd (func e (the (lookup s1 e)) (the (lookup s2 e)) (the (lookup s3 e)) (the (lookup s4 e)) (the (lookup s5 e)))))) ?e) else lookup s3 e')"
        using w3(3) by simp
      show "written ?rest ?P
        (\<lambda>e. fst (snd (snd (func e (the (lookup t1 e)) (the (lookup t2 e)) (the (lookup t3 e)) (the (lookup t4 e)) (the (lookup t5 e)))))) t3 u3" by (rule ih(4))
      show "?e \<notin> set ?rest" by (rule ne)
      show "?P ?e" using p by simp
      show "(\<lambda>e. fst (snd (snd (func e (the (lookup t1 e)) (the (lookup t2 e)) (the (lookup t3 e)) (the (lookup t4 e)) (the (lookup t5 e)))))) e' = (\<lambda>e. fst (snd (snd (func e (the (lookup s1 e)) (the (lookup s2 e)) (the (lookup s3 e)) (the (lookup s4 e)) (the (lookup s5 e)))))) e'" if "e' \<in> set ?rest" "?P e'" for e'
        using other[OF that(1)] by simp
    qed
    have f4: "written (drop (nat i) (take (nat (count s1)) (dense s1)))
        (\<lambda>e. present s2 e \<and> present s3 e \<and> present s4 e \<and> present s5 e)
        (\<lambda>e. fst (snd (snd (snd (func e (the (lookup s1 e)) (the (lookup s2 e)) (the (lookup s3 e)) (the (lookup s4 e)) (the (lookup s5 e))))))) s4 u4"
      unfolding dr
    proof (rule written_step[where t = t4 and new' = "(\<lambda>e. fst (snd (snd (snd (func e (the (lookup t1 e)) (the (lookup t2 e)) (the (lookup t3 e)) (the (lookup t4 e)) (the (lookup t5 e)))))))"])
      show "same_members s4 t4" by (rule w4(2))
      show "\<forall>e'. lookup t4 e' = (if e' = ?e then Some ((\<lambda>e. fst (snd (snd (snd (func e (the (lookup s1 e)) (the (lookup s2 e)) (the (lookup s3 e)) (the (lookup s4 e)) (the (lookup s5 e))))))) ?e) else lookup s4 e')"
        using w4(3) by simp
      show "written ?rest ?P
        (\<lambda>e. fst (snd (snd (snd (func e (the (lookup t1 e)) (the (lookup t2 e)) (the (lookup t3 e)) (the (lookup t4 e)) (the (lookup t5 e))))))) t4 u4" by (rule ih(5))
      show "?e \<notin> set ?rest" by (rule ne)
      show "?P ?e" using p by simp
      show "(\<lambda>e. fst (snd (snd (snd (func e (the (lookup t1 e)) (the (lookup t2 e)) (the (lookup t3 e)) (the (lookup t4 e)) (the (lookup t5 e))))))) e' = (\<lambda>e. fst (snd (snd (snd (func e (the (lookup s1 e)) (the (lookup s2 e)) (the (lookup s3 e)) (the (lookup s4 e)) (the (lookup s5 e))))))) e'" if "e' \<in> set ?rest" "?P e'" for e'
        using other[OF that(1)] by simp
    qed
    have f5: "written (drop (nat i) (take (nat (count s1)) (dense s1)))
        (\<lambda>e. present s2 e \<and> present s3 e \<and> present s4 e \<and> present s5 e)
        (\<lambda>e. snd (snd (snd (snd (func e (the (lookup s1 e)) (the (lookup s2 e)) (the (lookup s3 e)) (the (lookup s4 e)) (the (lookup s5 e))))))) s5 u5"
      unfolding dr
    proof (rule written_step[where t = t5 and new' = "(\<lambda>e. snd (snd (snd (snd (func e (the (lookup t1 e)) (the (lookup t2 e)) (the (lookup t3 e)) (the (lookup t4 e)) (the (lookup t5 e)))))))"])
      show "same_members s5 t5" by (rule w5(2))
      show "\<forall>e'. lookup t5 e' = (if e' = ?e then Some ((\<lambda>e. snd (snd (snd (snd (func e (the (lookup s1 e)) (the (lookup s2 e)) (the (lookup s3 e)) (the (lookup s4 e)) (the (lookup s5 e))))))) ?e) else lookup s5 e')"
        using w5(3) by simp
      show "written ?rest ?P
        (\<lambda>e. snd (snd (snd (snd (func e (the (lookup t1 e)) (the (lookup t2 e)) (the (lookup t3 e)) (the (lookup t4 e)) (the (lookup t5 e))))))) t5 u5" by (rule ih(6))
      show "?e \<notin> set ?rest" by (rule ne)
      show "?P ?e" using p by simp
      show "(\<lambda>e. snd (snd (snd (snd (func e (the (lookup t1 e)) (the (lookup t2 e)) (the (lookup t3 e)) (the (lookup t4 e)) (the (lookup t5 e))))))) e' = (\<lambda>e. snd (snd (snd (snd (func e (the (lookup s1 e)) (the (lookup s2 e)) (the (lookup s3 e)) (the (lookup s4 e)) (the (lookup s5 e))))))) e'" if "e' \<in> set ?rest" "?P e'" for e'
        using other[OF that(1)] by simp
    qed
    show ?thesis
      using q f1 f2 f3 f4 f5 by blast
  next
    case False
    then have nf: "(present s2 ?e \<and> present s3 ?e \<and> present s4 ?e \<and> present s5 ?e) = False" by simp
    let ?log = "log @ [Probe 2 ?e, Probe 3 ?e, Probe 4 ?e, Probe 5 ?e]"
    have step: "Query5_loop func s1 s2 s3 s4 s5 i log = Query5_loop func s1 s2 s3 s4 s5 (i + 1) ?log"
      using lt
      by (simp add: Query5_loop.simps[of func s1 s2 s3 s4 s5 i] Count_def rr(1) gp nf)
    have k: "k = nat (count s1 - (i + 1))" using Suc.hyps(2) by simp
    obtain u1 u2 u3 u4 u5 where ih: "Query5_loop func s1 s2 s3 s4 s5 (i + 1) ?log =
       Inr (u1, u2, u3, u4, u5, ?log @ concat (map (round_events [2, 3, 4, 5]
                  (\<lambda>e. present s2 e \<and> present s3 e \<and> present s4 e \<and> present s5 e)
                  (\<lambda>e. (the (lookup s1 e), the (lookup s2 e), the (lookup s3 e), the (lookup s4 e), the (lookup s5 e))))
                  ?rest))"
      "written ?rest ?P
        (\<lambda>e. fst (func e (the (lookup s1 e)) (the (lookup s2 e)) (the (lookup s3 e)) (the (lookup s4 e)) (the (lookup s5 e)))) s1 u1"
      "written ?rest ?P
        (\<lambda>e. fst (snd (func e (the (lookup s1 e)) (the (lookup s2 e)) (the (lookup s3 e)) (the (lookup s4 e)) (the (lookup s5 e))))) s2 u2"
      "written ?rest ?P
        (\<lambda>e. fst (snd (snd (func e (the (lookup s1 e)) (the (lookup s2 e)) (the (lookup s3 e)) (the (lookup s4 e)) (the (lookup s5 e)))))) s3 u3"
      "written ?rest ?P
        (\<lambda>e. fst (snd (snd (snd (func e (the (lookup s1 e)) (the (lookup s2 e)) (the (lookup s3 e)) (the (lookup s4 e)) (the (lookup s5 e))))))) s4 u4"
      "written ?rest ?P
        (\<lambda>e. snd (snd (snd (snd (func e (the (lookup s1 e)) (the (lookup s2 e)) (the (lookup s3 e)) (the (lookup s4 e)) (the (lookup s5 e))))))) s5 u5"
      using Suc.hyps(1)[OF k inv1 inv2 inv3 inv4 inv5 i1] by blast
    have q: "Query5_loop func s1 s2 s3 s4 s5 i log =
       Inr (u1, u2, u3, u4, u5, log @ concat (map (round_events [2, 3, 4, 5]
                  (\<lambda>e. present s2 e \<and> present s3 e \<and> present s4 e \<and> present s5 e)
                  (\<lambda>e. (the (lookup s1 e), the (lookup s2 e), the (lookup s3 e), the (lookup s4 e), the (lookup s5 e))))
                  (drop (nat i) (take (nat (count s1)) (dense s1)))))"
      unfolding step ih(1) dr using nf by (simp add: round_events_def)
    have np: "\<not> ?P ?e" using nf by simp
    have f1: "written (drop (nat i) (take (nat (count s1)) (dense s1)))
        (\<lambda>e. present s2 e \<and> present s3 e \<and> present s4 e \<and> present s5 e)
        (\<lambda>e. fst (func e (the (lookup s1 e)) (the (lookup s2 e)) (the (lookup s3 e)) (the (lookup s4 e)) (the (lookup s5 e)))) s1 u1"
      unfolding dr by (rule written_skip[OF ih(2) np])
    have f2: "written (drop (nat i) (take (nat (count s1)) (dense s1)))
        (\<lambda>e. present s2 e \<and> present s3 e \<and> present s4 e \<and> present s5 e)
        (\<lambda>e. fst (snd (func e (the (lookup s1 e)) (the (lookup s2 e)) (the (lookup s3 e)) (the (lookup s4 e)) (the (lookup s5 e))))) s2 u2"
      unfolding dr by (rule written_skip[OF ih(3) np])
    have f3: "written (drop (nat i) (take (nat (count s1)) (dense s1)))
        (\<lambda>e. present s2 e \<and> present s3 e \<and> present s4 e \<and> present s5 e)
        (\<lambda>e. fst (snd (snd (func e (the (lookup s1 e)) (the (lookup s2 e)) (the (lookup s3 e)) (the (lookup s4 e)) (the (lookup s5 e)))))) s3 u3"
      unfolding dr by (rule written_skip[OF ih(4) np])
    have f4: "written (drop (nat i) (take (nat (count s1)) (dense s1)))
        (\<lambda>e. present s2 e \<and> present s3 e \<and> present s4 e \<and> present s5 e)
        (\<lambda>e. fst (snd (snd (snd (func e (the (lookup s1 e)) (the (lookup s2 e)) (the (lookup s3 e)) (the (lookup s4 e)) (the (lookup s5 e))))))) s4 u4"
      unfolding dr by (rule written_skip[OF ih(5) np])
    have f5: "written (drop (nat i) (take (nat (count s1)) (dense s1)))
        (\<lambda>e. present s2 e \<and> present s3 e \<and> present s4 e \<and> present s5 e)
        (\<lambda>e. snd (snd (snd (snd (func e (the (lookup s1 e)) (the (lookup s2 e)) (the (lookup s3 e)) (the (lookup s4 e)) (the (lookup s5 e))))))) s5 u5"
      unfolding dr by (rule written_skip[OF ih(6) np])
    show ?thesis
      using q f1 f2 f3 f4 f5 by blast
  qed
qed

lemma Query5_join:
  assumes "SparseSet_inv s1" and "SparseSet_inv s2" and "SparseSet_inv s3" and "SparseSet_inv s4" and "SparseSet_inv s5"
  shows "\<exists>s1' s2' s3' s4' s5' log. Query5 func s1 s2 s3 s4 s5 = Inr (s1', s2', s3', s4', s5', log) \<and>
           probed log = concat (map (\<lambda>e. [(2, e), (3, e), (4, e), (5, e)])
                (take (nat (Count s1)) (dense s1))) \<and>
           visited log = filter (\<lambda>e. Has s2 e = Inr True \<and> Has s3 e = Inr True \<and> Has s4 e = Inr True \<and> Has s5 e = Inr True)
                (take (nat (Count s1)) (dense s1)) \<and>
           distinct (visited log) \<and>
           (\<forall>e. e \<in> set (visited log) \<longleftrightarrow>
              Has s1 e = Inr True \<and> Has s2 e = Inr True \<and> Has s3 e = Inr True \<and> Has s4 e = Inr True \<and> Has s5 e = Inr True) \<and>
           (\<forall>e c1 c2 c3 c4 c5. Visit e (c1, c2, c3, c4, c5) \<in> set log \<longrightarrow>
              Get_value s1 e = Inr (Some c1) \<and> Get_value s2 e = Inr (Some c2) \<and> Get_value s3 e = Inr (Some c3) \<and> Get_value s4 e = Inr (Some c4) \<and> Get_value s5 e = Inr (Some c5)) \<and>
           (\<forall>e c1 c2 c3 c4 c5 d1 d2 d3 d4 d5.
              Get_value s1 e = Inr (Some c1) \<and> Get_value s2 e = Inr (Some c2) \<and> Get_value s3 e = Inr (Some c3) \<and> Get_value s4 e = Inr (Some c4) \<and> Get_value s5 e = Inr (Some c5) \<and>
              func e c1 c2 c3 c4 c5 = (d1, d2, d3, d4, d5) \<longrightarrow>
              Get_value s1' e = Inr (Some d1) \<and> Get_value s2' e = Inr (Some d2) \<and> Get_value s3' e = Inr (Some d3) \<and> Get_value s4' e = Inr (Some d4) \<and> Get_value s5' e = Inr (Some d5)) \<and>
           (\<forall>e. \<not> (Has s1 e = Inr True \<and> Has s2 e = Inr True \<and> Has s3 e = Inr True \<and> Has s4 e = Inr True \<and> Has s5 e = Inr True) \<longrightarrow>
              Get_value s1' e = Get_value s1 e \<and> Get_value s2' e = Get_value s2 e \<and> Get_value s3' e = Get_value s3 e \<and> Get_value s4' e = Get_value s4 e \<and> Get_value s5' e = Get_value s5 e) \<and>
           (\<forall>e. Has s1' e = Has s1 e \<and> Has s2' e = Has s2 e \<and> Has s3' e = Has s3 e \<and> Has s4' e = Has s4 e \<and> Has s5' e = Has s5 e)"
proof -
  let ?es = "take (nat (count s1)) (dense s1)"
  let ?P = "(\<lambda>e. present s2 e \<and> present s3 e \<and> present s4 e \<and> present s5 e)"
  let ?log = "concat (map (round_events [2, 3, 4, 5] ?P (\<lambda>e. (the (lookup s1 e), the (lookup s2 e), the (lookup s3 e), the (lookup s4 e), the (lookup s5 e)))) ?es)"
  obtain s1' s2' s3' s4' s5' where q: "Query5 func s1 s2 s3 s4 s5 = Inr (s1', s2', s3', s4', s5', ?log)"
    and wr: "written ?es ?P
        (\<lambda>e. fst (func e (the (lookup s1 e)) (the (lookup s2 e)) (the (lookup s3 e)) (the (lookup s4 e)) (the (lookup s5 e)))) s1 s1'"
      "written ?es ?P
        (\<lambda>e. fst (snd (func e (the (lookup s1 e)) (the (lookup s2 e)) (the (lookup s3 e)) (the (lookup s4 e)) (the (lookup s5 e))))) s2 s2'"
      "written ?es ?P
        (\<lambda>e. fst (snd (snd (func e (the (lookup s1 e)) (the (lookup s2 e)) (the (lookup s3 e)) (the (lookup s4 e)) (the (lookup s5 e)))))) s3 s3'"
      "written ?es ?P
        (\<lambda>e. fst (snd (snd (snd (func e (the (lookup s1 e)) (the (lookup s2 e)) (the (lookup s3 e)) (the (lookup s4 e)) (the (lookup s5 e))))))) s4 s4'"
      "written ?es ?P
        (\<lambda>e. snd (snd (snd (snd (func e (the (lookup s1 e)) (the (lookup s2 e)) (the (lookup s3 e)) (the (lookup s4 e)) (the (lookup s5 e))))))) s5 s5'"
    using Query5_loop_eq[OF assms, of 0 func "[]"] by (auto simp add: Query5_def)
  note wv = written_values[OF assms(1) wr(1)] written_values[OF assms(2) wr(2)] written_values[OF assms(3) wr(3)] written_values[OF assms(4) wr(4)] written_values[OF assms(5) wr(5)]
  have h: "Has s1' e = Has s1 e \<and> Has s2' e = Has s2 e \<and> Has s3' e = Has s3 e \<and> Has s4' e = Has s4 e \<and> Has s5' e = Has s5 e" for e
    by (simp add: written_values(2)[OF assms(1) wr(1)] written_values(2)[OF assms(2) wr(2)] written_values(2)[OF assms(3) wr(3)] written_values(2)[OF assms(4) wr(4)] written_values(2)[OF assms(5) wr(5)])
  have gv: "Get_value s1' e = (if e \<in> set ?es \<and> ?P e
        then Inr (Some ((\<lambda>e. fst (func e (the (lookup s1 e)) (the (lookup s2 e)) (the (lookup s3 e)) (the (lookup s4 e)) (the (lookup s5 e)))) e)) else Get_value s1 e)"
    "Get_value s2' e = (if e \<in> set ?es \<and> ?P e
        then Inr (Some ((\<lambda>e. fst (snd (func e (the (lookup s1 e)) (the (lookup s2 e)) (the (lookup s3 e)) (the (lookup s4 e)) (the (lookup s5 e))))) e)) else Get_value s2 e)"
    "Get_value s3' e = (if e \<in> set ?es \<and> ?P e
        then Inr (Some ((\<lambda>e. fst (snd (snd (func e (the (lookup s1 e)) (the (lookup s2 e)) (the (lookup s3 e)) (the (lookup s4 e)) (the (lookup s5 e)))))) e)) else Get_value s3 e)"
    "Get_value s4' e = (if e \<in> set ?es \<and> ?P e
        then Inr (Some ((\<lambda>e. fst (snd (snd (snd (func e (the (lookup s1 e)) (the (lookup s2 e)) (the (lookup s3 e)) (the (lookup s4 e)) (the (lookup s5 e))))))) e)) else Get_value s4 e)"
    "Get_value s5' e = (if e \<in> set ?es \<and> ?P e
        then Inr (Some ((\<lambda>e. snd (snd (snd (snd (func e (the (lookup s1 e)) (the (lookup s2 e)) (the (lookup s3 e)) (the (lookup s4 e)) (the (lookup s5 e))))))) e)) else Get_value s5 e)" for e
    by (rule written_values(3)[OF assms(1) wr(1)] written_values(3)[OF assms(2) wr(2)] written_values(3)[OF assms(3) wr(3)] written_values(3)[OF assms(4) wr(4)] written_values(3)[OF assms(5) wr(5)])+
  have v: "visited ?log = filter ?P ?es" by (rule visited_rounds)
  have f: "filter (\<lambda>e. Has s2 e = Inr True \<and> Has s3 e = Inr True \<and> Has s4 e = Inr True \<and> Has s5 e = Inr True) ?es = filter ?P ?es"
    by (simp add: Has_present assms)
  have p: "probed ?log = concat (map (\<lambda>e. [(2, e), (3, e), (4, e), (5, e)]) ?es)"
    unfolding probed_rounds by simp
  have d: "distinct (visited ?log)" unfolding v using dense_members(1)[OF assms(1)] by simp
  have m: "e \<in> set (visited ?log) \<longleftrightarrow>
            Has s1 e = Inr True \<and> Has s2 e = Inr True \<and> Has s3 e = Inr True \<and> Has s4 e = Inr True \<and> Has s5 e = Inr True" for e
    unfolding v using dense_members(2)[OF assms(1)] by (auto simp add: Has_present assms)
  have c: "Get_value s1 e = Inr (Some c1) \<and> Get_value s2 e = Inr (Some c2) \<and> Get_value s3 e = Inr (Some c3) \<and> Get_value s4 e = Inr (Some c4) \<and> Get_value s5 e = Inr (Some c5)"
    if "Visit e (c1, c2, c3, c4, c5) \<in> set ?log" for e c1 c2 c3 c4 c5
  proof -
    have "e \<in> set ?es" "?P e" "(c1, c2, c3, c4, c5) = (the (lookup s1 e), the (lookup s2 e), the (lookup s3 e), the (lookup s4 e), the (lookup s5 e))"
      using that[unfolded Visit_rounds] by simp_all
    moreover have "present s1 e" using \<open>e \<in> set ?es\<close> dense_members(2)[OF assms(1)] by simp
    ultimately show ?thesis by (simp add: lookup_value assms)
  qed
  have a: "Get_value s1' e = Inr (Some d1) \<and> Get_value s2' e = Inr (Some d2) \<and> Get_value s3' e = Inr (Some d3) \<and> Get_value s4' e = Inr (Some d4) \<and> Get_value s5' e = Inr (Some d5)"
    if "Get_value s1 e = Inr (Some c1)" "Get_value s2 e = Inr (Some c2)" "Get_value s3 e = Inr (Some c3)" "Get_value s4 e = Inr (Some c4)" "Get_value s5 e = Inr (Some c5)"
      "func e c1 c2 c3 c4 c5 = (d1, d2, d3, d4, d5)" for e c1 c2 c3 c4 c5 d1 d2 d3 d4 d5
  proof -
    have l: "lookup s1 e = Some c1" "lookup s2 e = Some c2" "lookup s3 e = Some c3" "lookup s4 e = Some c4" "lookup s5 e = Some c5"
      using that(1,2,3,4,5) by (simp_all add: Get_value_inv assms)
    then have pr: "present s1 e" "present s2 e" "present s3 e" "present s4 e" "present s5 e"
      by (simp_all add: lookup_def split: if_splits)
    have "e \<in> set ?es" using pr(1) dense_members(2)[OF assms(1)] by simp
    then show ?thesis using pr l that(6) by (simp add: gv)
  qed
  have b: "Get_value s1' e = Get_value s1 e \<and> Get_value s2' e = Get_value s2 e \<and> Get_value s3' e = Get_value s3 e \<and> Get_value s4' e = Get_value s4 e \<and> Get_value s5' e = Get_value s5 e"
    if "\<not> (Has s1 e = Inr True \<and> Has s2 e = Inr True \<and> Has s3 e = Inr True \<and> Has s4 e = Inr True \<and> Has s5 e = Inr True)" for e
  proof -
    have nf: "(e \<in> set ?es \<and> ?P e) = False"
      using that dense_members(2)[OF assms(1)] by (auto simp add: Has_present assms)
    show ?thesis by (simp add: gv nf)
  qed
  have m': "\<forall>e. e \<in> set (visited ?log) \<longleftrightarrow>
            Has s1 e = Inr True \<and> Has s2 e = Inr True \<and> Has s3 e = Inr True \<and> Has s4 e = Inr True \<and> Has s5 e = Inr True"
    by (intro allI) (rule m)
  have c': "\<forall>e c1 c2 c3 c4 c5. Visit e (c1, c2, c3, c4, c5) \<in> set ?log \<longrightarrow>
            Get_value s1 e = Inr (Some c1) \<and> Get_value s2 e = Inr (Some c2) \<and> Get_value s3 e = Inr (Some c3) \<and> Get_value s4 e = Inr (Some c4) \<and> Get_value s5 e = Inr (Some c5)"
    by (intro allI impI) (rule c)
  have a': "\<forall>e c1 c2 c3 c4 c5 d1 d2 d3 d4 d5.
              Get_value s1 e = Inr (Some c1) \<and> Get_value s2 e = Inr (Some c2) \<and> Get_value s3 e = Inr (Some c3) \<and> Get_value s4 e = Inr (Some c4) \<and> Get_value s5 e = Inr (Some c5) \<and>
              func e c1 c2 c3 c4 c5 = (d1, d2, d3, d4, d5) \<longrightarrow>
              Get_value s1' e = Inr (Some d1) \<and> Get_value s2' e = Inr (Some d2) \<and> Get_value s3' e = Inr (Some d3) \<and> Get_value s4' e = Inr (Some d4) \<and> Get_value s5' e = Inr (Some d5)"
    by (intro allI impI, elim conjE) (rule a)
  have b': "\<forall>e. \<not> (Has s1 e = Inr True \<and> Has s2 e = Inr True \<and> Has s3 e = Inr True \<and> Has s4 e = Inr True \<and> Has s5 e = Inr True) \<longrightarrow>
              Get_value s1' e = Get_value s1 e \<and> Get_value s2' e = Get_value s2 e \<and> Get_value s3' e = Get_value s3 e \<and> Get_value s4' e = Get_value s4 e \<and> Get_value s5' e = Get_value s5 e"
    by (intro allI impI) (rule b)
  have h': "\<forall>e. Has s1' e = Has s1 e \<and> Has s2' e = Has s2 e \<and> Has s3' e = Has s3 e \<and> Has s4' e = Has s4 e \<and> Has s5' e = Has s5 e"
    by (intro allI) (rule h)
  show ?thesis
    unfolding Count_def
    by (intro exI[of _ s1'] exI[of _ s2'] exI[of _ s3'] exI[of _ s4'] exI[of _ s5'] exI[of _ ?log] conjI)
      (rule q p d m' c' a' b' h' v[folded f])+
qed

lemma Query6_loop_eq:
  "SparseSet_inv s1 \<Longrightarrow> SparseSet_inv s2 \<Longrightarrow> SparseSet_inv s3 \<Longrightarrow> SparseSet_inv s4 \<Longrightarrow> SparseSet_inv s5 \<Longrightarrow> SparseSet_inv s6 \<Longrightarrow> 0 \<le> i \<Longrightarrow>
   \<exists>s1' s2' s3' s4' s5' s6'. Query6_loop func s1 s2 s3 s4 s5 s6 i log =
       Inr (s1', s2', s3', s4', s5', s6', log @ concat (map (round_events [2, 3, 4, 5, 6]
                  (\<lambda>e. present s2 e \<and> present s3 e \<and> present s4 e \<and> present s5 e \<and> present s6 e)
                  (\<lambda>e. (the (lookup s1 e), the (lookup s2 e), the (lookup s3 e), the (lookup s4 e), the (lookup s5 e), the (lookup s6 e))))
                  (drop (nat i) (take (nat (count s1)) (dense s1))))) \<and>
     written (drop (nat i) (take (nat (count s1)) (dense s1)))
        (\<lambda>e. present s2 e \<and> present s3 e \<and> present s4 e \<and> present s5 e \<and> present s6 e)
        (\<lambda>e. fst (func e (the (lookup s1 e)) (the (lookup s2 e)) (the (lookup s3 e)) (the (lookup s4 e)) (the (lookup s5 e)) (the (lookup s6 e)))) s1 s1' \<and>
     written (drop (nat i) (take (nat (count s1)) (dense s1)))
        (\<lambda>e. present s2 e \<and> present s3 e \<and> present s4 e \<and> present s5 e \<and> present s6 e)
        (\<lambda>e. fst (snd (func e (the (lookup s1 e)) (the (lookup s2 e)) (the (lookup s3 e)) (the (lookup s4 e)) (the (lookup s5 e)) (the (lookup s6 e))))) s2 s2' \<and>
     written (drop (nat i) (take (nat (count s1)) (dense s1)))
        (\<lambda>e. present s2 e \<and> present s3 e \<and> present s4 e \<and> present s5 e \<and> present s6 e)
        (\<lambda>e. fst (snd (snd (func e (the (lookup s1 e)) (the (lookup s2 e)) (the (lookup s3 e)) (the (lookup s4 e)) (the (lookup s5 e)) (the (lookup s6 e)))))) s3 s3' \<and>
     written (drop (nat i) (take (nat (count s1)) (dense s1)))
        (\<lambda>e. present s2 e \<and> present s3 e \<and> present s4 e \<and> present s5 e \<and> present s6 e)
        (\<lambda>e. fst (snd (snd (snd (func e (the (lookup s1 e)) (the (lookup s2 e)) (the (lookup s3 e)) (the (lookup s4 e)) (the (lookup s5 e)) (the (lookup s6 e))))))) s4 s4' \<and>
     written (drop (nat i) (take (nat (count s1)) (dense s1)))
        (\<lambda>e. present s2 e \<and> present s3 e \<and> present s4 e \<and> present s5 e \<and> present s6 e)
        (\<lambda>e. fst (snd (snd (snd (snd (func e (the (lookup s1 e)) (the (lookup s2 e)) (the (lookup s3 e)) (the (lookup s4 e)) (the (lookup s5 e)) (the (lookup s6 e)))))))) s5 s5' \<and>
     written (drop (nat i) (take (nat (count s1)) (dense s1)))
        (\<lambda>e. present s2 e \<and> present s3 e \<and> present s4 e \<and> present s5 e \<and> present s6 e)
        (\<lambda>e. snd (snd (snd (snd (snd (func e (the (lookup s1 e)) (the (lookup s2 e)) (the (lookup s3 e)) (the (lookup s4 e)) (the (lookup s5 e)) (the (lookup s6 e)))))))) s6 s6'"
proof (induction "nat (count s1 - i)" arbitrary: i log s1 s2 s3 s4 s5 s6)
  case 0
  then have "\<not> i < count s1" by simp
  then show ?case using "0.prems"
    by (intro exI[of _ s1] exI[of _ s2] exI[of _ s3] exI[of _ s4] exI[of _ s5] exI[of _ s6])
      (simp add: Query6_loop.simps[of func s1 s2 s3 s4 s5 s6 i] Count_def written_Nil)
next
  case (Suc k)
  note inv1 = Suc.prems(1) and inv2 = Suc.prems(2) and inv3 = Suc.prems(3) and inv4 = Suc.prems(4) and inv5 = Suc.prems(5) and inv6 = Suc.prems(6) and i0 = Suc.prems(7)
  have lt: "i < count s1" using Suc.hyps(2) by simp
  let ?e = "dense s1 ! nat i"
  let ?rest = "drop (nat (i + 1)) (take (nat (count s1)) (dense s1))"
  let ?P = "(\<lambda>e. present s2 e \<and> present s3 e \<and> present s4 e \<and> present s5 e \<and> present s6 e)"
  note dr = drop_round[OF inv1 i0 lt]
  note ne = round_fresh[OF inv1 i0 lt]
  note rr = round_reads[OF inv1 i0 lt]
  note gp = Get_ptr[OF inv2] Get_ptr[OF inv3] Get_ptr[OF inv4] Get_ptr[OF inv5] Get_ptr[OF inv6]
  have i1: "0 \<le> i + 1" using i0 by simp
  show ?case
  proof (cases "present s2 ?e \<and> present s3 ?e \<and> present s4 ?e \<and> present s5 ?e \<and> present s6 ?e")
    case True
    then have p: "present s2 ?e" "present s3 ?e" "present s4 ?e" "present s5 ?e" "present s6 ?e" by simp_all
    note gd = GetData_ptr[OF inv2 p(1)] GetData_ptr[OF inv3 p(2)] GetData_ptr[OF inv4 p(3)] GetData_ptr[OF inv5 p(4)] GetData_ptr[OF inv6 p(5)]
    let ?r = "func ?e (the (lookup s1 ?e)) (the (lookup s2 ?e)) (the (lookup s3 ?e)) (the (lookup s4 ?e)) (the (lookup s5 ?e)) (the (lookup s6 ?e))"
    let ?log = "log @ [Probe 2 ?e, Probe 3 ?e, Probe 4 ?e, Probe 5 ?e, Probe 6 ?e,
        Visit ?e (the (lookup s1 ?e), the (lookup s2 ?e), the (lookup s3 ?e), the (lookup s4 ?e), the (lookup s5 ?e), the (lookup s6 ?e))]"
    obtain t1 where w1: "SetData s1 i (fst (?r)) = Inr t1" "same_members s1 t1"
      "\<forall>e'. lookup t1 e' = (if e' = ?e then Some (fst (?r)) else lookup s1 e')"
      using SetData_drive[OF inv1 i0 lt] by blast
    obtain t2 where w2: "SetData s2 (the (ptr s2 ?e)) (fst (snd (?r))) = Inr t2" "same_members s2 t2"
      "\<forall>e'. lookup t2 e' = (if e' = ?e then Some (fst (snd (?r))) else lookup s2 e')"
      using SetData_ptr[OF inv2 p(1)] by blast
    obtain t3 where w3: "SetData s3 (the (ptr s3 ?e)) (fst (snd (snd (?r)))) = Inr t3" "same_members s3 t3"
      "\<forall>e'. lookup t3 e' = (if e' = ?e then Some (fst (snd (snd (?r)))) else lookup s3 e')"
      using SetData_ptr[OF inv3 p(2)] by blast
    obtain t4 where w4: "SetData s4 (the (ptr s4 ?e)) (fst (snd (snd (snd (?r))))) = Inr t4" "same_members s4 t4"
      "\<forall>e'. lookup t4 e' = (if e' = ?e then Some (fst (snd (snd (snd (?r))))) else lookup s4 e')"
      using SetData_ptr[OF inv4 p(3)] by blast
    obtain t5 where w5: "SetData s5 (the (ptr s5 ?e)) (fst (snd (snd (snd (snd (?r)))))) = Inr t5" "same_members s5 t5"
      "\<forall>e'. lookup t5 e' = (if e' = ?e then Some (fst (snd (snd (snd (snd (?r)))))) else lookup s5 e')"
      using SetData_ptr[OF inv5 p(4)] by blast
    obtain t6 where w6: "SetData s6 (the (ptr s6 ?e)) (snd (snd (snd (snd (snd (?r)))))) = Inr t6" "same_members s6 t6"
      "\<forall>e'. lookup t6 e' = (if e' = ?e then Some (snd (snd (snd (snd (snd (?r)))))) else lookup s6 e')"
      using SetData_ptr[OF inv6 p(5)] by blast
    have step: "Query6_loop func s1 s2 s3 s4 s5 s6 i log = Query6_loop func t1 t2 t3 t4 t5 t6 (i + 1) ?log"
      using p lt
      by (simp add: Query6_loop.simps[of func s1 s2 s3 s4 s5 s6 i] Count_def rr(1,2) gp gd
          w1(1) w2(1) w3(1) w4(1) w5(1) w6(1) case_prod_beta)
    have k: "k = nat (count t1 - (i + 1))" using Suc.hyps(2) w1(2) by (simp add: same_members_def)
    have pt: "(\<lambda>e. present t2 e \<and> present t3 e \<and> present t4 e \<and> present t5 e \<and> present t6 e) = ?P"
      by (simp add: same_members_present[OF w2(2)] same_members_present[OF w3(2)] same_members_present[OF w4(2)] same_members_present[OF w5(2)] same_members_present[OF w6(2)])
    obtain u1 u2 u3 u4 u5 u6 where ih: "Query6_loop func t1 t2 t3 t4 t5 t6 (i + 1) ?log =
       Inr (u1, u2, u3, u4, u5, u6, ?log @ concat (map (round_events [2, 3, 4, 5, 6]
                  (\<lambda>e. present t2 e \<and> present t3 e \<and> present t4 e \<and> present t5 e \<and> present t6 e)
                  (\<lambda>e. (the (lookup t1 e), the (lookup t2 e), the (lookup t3 e), the (lookup t4 e), the (lookup t5 e), the (lookup t6 e))))
                  ?rest))"
      "written ?rest ?P
        (\<lambda>e. fst (func e (the (lookup t1 e)) (the (lookup t2 e)) (the (lookup t3 e)) (the (lookup t4 e)) (the (lookup t5 e)) (the (lookup t6 e)))) t1 u1"
      "written ?rest ?P
        (\<lambda>e. fst (snd (func e (the (lookup t1 e)) (the (lookup t2 e)) (the (lookup t3 e)) (the (lookup t4 e)) (the (lookup t5 e)) (the (lookup t6 e))))) t2 u2"
      "written ?rest ?P
        (\<lambda>e. fst (snd (snd (func e (the (lookup t1 e)) (the (lookup t2 e)) (the (lookup t3 e)) (the (lookup t4 e)) (the (lookup t5 e)) (the (lookup t6 e)))))) t3 u3"
      "written ?rest ?P
        (\<lambda>e. fst (snd (snd (snd (func e (the (lookup t1 e)) (the (lookup t2 e)) (the (lookup t3 e)) (the (lookup t4 e)) (the (lookup t5 e)) (the (lookup t6 e))))))) t4 u4"
      "written ?rest ?P
        (\<lambda>e. fst (snd (snd (snd (snd (func e (the (lookup t1 e)) (the (lookup t2 e)) (the (lookup t3 e)) (the (lookup t4 e)) (the (lookup t5 e)) (the (lookup t6 e)))))))) t5 u5"
      "written ?rest ?P
        (\<lambda>e. snd (snd (snd (snd (snd (func e (the (lookup t1 e)) (the (lookup t2 e)) (the (lookup t3 e)) (the (lookup t4 e)) (the (lookup t5 e)) (the (lookup t6 e)))))))) t6 u6"
      using Suc.hyps(1)[OF k same_members_inv[OF inv1 w1(2)] same_members_inv[OF inv2 w2(2)] same_members_inv[OF inv3 w3(2)] same_members_inv[OF inv4 w4(2)] same_members_inv[OF inv5 w5(2)] same_members_inv[OF inv6 w6(2)] i1]
      unfolding same_members_dense[OF w1(2)] pt by blast
    have other: "lookup t1 e' = lookup s1 e' \<and> lookup t2 e' = lookup s2 e' \<and> lookup t3 e' = lookup s3 e' \<and> lookup t4 e' = lookup s4 e' \<and> lookup t5 e' = lookup s5 e' \<and> lookup t6 e' = lookup s6 e'" if "e' \<in> set ?rest" for e'
      using that ne w1(3) w2(3) w3(3) w4(3) w5(3) w6(3) by auto
    have cg: "concat (map (round_events [2, 3, 4, 5, 6]
                  (\<lambda>e. present t2 e \<and> present t3 e \<and> present t4 e \<and> present t5 e \<and> present t6 e)
                  (\<lambda>e. (the (lookup t1 e), the (lookup t2 e), the (lookup t3 e), the (lookup t4 e), the (lookup t5 e), the (lookup t6 e)))) ?rest) =
        concat (map (round_events [2, 3, 4, 5, 6]
                  (\<lambda>e. present s2 e \<and> present s3 e \<and> present s4 e \<and> present s5 e \<and> present s6 e)
                  (\<lambda>e. (the (lookup s1 e), the (lookup s2 e), the (lookup s3 e), the (lookup s4 e), the (lookup s5 e), the (lookup s6 e)))) ?rest)"
      unfolding pt by (rule rounds_cong) (simp_all add: other)
    have q: "Query6_loop func s1 s2 s3 s4 s5 s6 i log =
       Inr (u1, u2, u3, u4, u5, u6, log @ concat (map (round_events [2, 3, 4, 5, 6]
                  (\<lambda>e. present s2 e \<and> present s3 e \<and> present s4 e \<and> present s5 e \<and> present s6 e)
                  (\<lambda>e. (the (lookup s1 e), the (lookup s2 e), the (lookup s3 e), the (lookup s4 e), the (lookup s5 e), the (lookup s6 e))))
                  (drop (nat i) (take (nat (count s1)) (dense s1)))))"
      unfolding step ih(1) cg dr using p
      by (simp add: round_events_def)
    have f1: "written (drop (nat i) (take (nat (count s1)) (dense s1)))
        (\<lambda>e. present s2 e \<and> present s3 e \<and> present s4 e \<and> present s5 e \<and> present s6 e)
        (\<lambda>e. fst (func e (the (lookup s1 e)) (the (lookup s2 e)) (the (lookup s3 e)) (the (lookup s4 e)) (the (lookup s5 e)) (the (lookup s6 e)))) s1 u1"
      unfolding dr
    proof (rule written_step[where t = t1 and new' = "(\<lambda>e. fst (func e (the (lookup t1 e)) (the (lookup t2 e)) (the (lookup t3 e)) (the (lookup t4 e)) (the (lookup t5 e)) (the (lookup t6 e))))"])
      show "same_members s1 t1" by (rule w1(2))
      show "\<forall>e'. lookup t1 e' = (if e' = ?e then Some ((\<lambda>e. fst (func e (the (lookup s1 e)) (the (lookup s2 e)) (the (lookup s3 e)) (the (lookup s4 e)) (the (lookup s5 e)) (the (lookup s6 e)))) ?e) else lookup s1 e')"
        using w1(3) by simp
      show "written ?rest ?P
        (\<lambda>e. fst (func e (the (lookup t1 e)) (the (lookup t2 e)) (the (lookup t3 e)) (the (lookup t4 e)) (the (lookup t5 e)) (the (lookup t6 e)))) t1 u1" by (rule ih(2))
      show "?e \<notin> set ?rest" by (rule ne)
      show "?P ?e" using p by simp
      show "(\<lambda>e. fst (func e (the (lookup t1 e)) (the (lookup t2 e)) (the (lookup t3 e)) (the (lookup t4 e)) (the (lookup t5 e)) (the (lookup t6 e)))) e' = (\<lambda>e. fst (func e (the (lookup s1 e)) (the (lookup s2 e)) (the (lookup s3 e)) (the (lookup s4 e)) (the (lookup s5 e)) (the (lookup s6 e)))) e'" if "e' \<in> set ?rest" "?P e'" for e'
        using other[OF that(1)] by simp
    qed
    have f2: "written (drop (nat i) (take (nat (count s1)) (dense s1)))
        (\<lambda>e. present s2 e \<and> present s3 e \<and> present s4 e \<and> present s5 e \<and> present s6 e)
        (\<lambda>e. fst (snd (func e (the (lookup s1 e)) (the (lookup s2 e)) (the (lookup s3 e)) (the (lookup s4 e)) (the (lookup s5 e)) (the (lookup s6 e))))) s2 u2"
      unfolding dr
    proof (rule written_step[where t = t2 and new' = "(\<lambda>e. fst (snd (func e (the (lookup t1 e)) (the (lookup t2 e)) (the (lookup t3 e)) (the (lookup t4 e)) (the (lookup t5 e)) (the (lookup t6 e)))))"])
      show "same_members s2 t2" by (rule w2(2))
      show "\<forall>e'. lookup t2 e' = (if e' = ?e then Some ((\<lambda>e. fst (snd (func e (the (lookup s1 e)) (the (lookup s2 e)) (the (lookup s3 e)) (the (lookup s4 e)) (the (lookup s5 e)) (the (lookup s6 e))))) ?e) else lookup s2 e')"
        using w2(3) by simp
      show "written ?rest ?P
        (\<lambda>e. fst (snd (func e (the (lookup t1 e)) (the (lookup t2 e)) (the (lookup t3 e)) (the (lookup t4 e)) (the (lookup t5 e)) (the (lookup t6 e))))) t2 u2" by (rule ih(3))
      show "?e \<notin> set ?rest" by (rule ne)
      show "?P ?e" using p by simp
      show "(\<lambda>e. fst (snd (func e (the (lookup t1 e)) (the (lookup t2 e)) (the (lookup t3 e)) (the (lookup t4 e)) (the (lookup t5 e)) (the (lookup t6 e))))) e' = (\<lambda>e. fst (snd (func e (the (lookup s1 e)) (the (lookup s2 e)) (the (lookup s3 e)) (the (lookup s4 e)) (the (lookup s5 e)) (the (lookup s6 e))))) e'" if "e' \<in> set ?rest" "?P e'" for e'
        using other[OF that(1)] by simp
    qed
    have f3: "written (drop (nat i) (take (nat (count s1)) (dense s1)))
        (\<lambda>e. present s2 e \<and> present s3 e \<and> present s4 e \<and> present s5 e \<and> present s6 e)
        (\<lambda>e. fst (snd (snd (func e (the (lookup s1 e)) (the (lookup s2 e)) (the (lookup s3 e)) (the (lookup s4 e)) (the (lookup s5 e)) (the (lookup s6 e)))))) s3 u3"
      unfolding dr
    proof (rule written_step[where t = t3 and new' = "(\<lambda>e. fst (snd (snd (func e (the (lookup t1 e)) (the (lookup t2 e)) (the (lookup t3 e)) (the (lookup t4 e)) (the (lookup t5 e)) (the (lookup t6 e))))))"])
      show "same_members s3 t3" by (rule w3(2))
      show "\<forall>e'. lookup t3 e' = (if e' = ?e then Some ((\<lambda>e. fst (snd (snd (func e (the (lookup s1 e)) (the (lookup s2 e)) (the (lookup s3 e)) (the (lookup s4 e)) (the (lookup s5 e)) (the (lookup s6 e)))))) ?e) else lookup s3 e')"
        using w3(3) by simp
      show "written ?rest ?P
        (\<lambda>e. fst (snd (snd (func e (the (lookup t1 e)) (the (lookup t2 e)) (the (lookup t3 e)) (the (lookup t4 e)) (the (lookup t5 e)) (the (lookup t6 e)))))) t3 u3" by (rule ih(4))
      show "?e \<notin> set ?rest" by (rule ne)
      show "?P ?e" using p by simp
      show "(\<lambda>e. fst (snd (snd (func e (the (lookup t1 e)) (the (lookup t2 e)) (the (lookup t3 e)) (the (lookup t4 e)) (the (lookup t5 e)) (the (lookup t6 e)))))) e' = (\<lambda>e. fst (snd (snd (func e (the (lookup s1 e)) (the (lookup s2 e)) (the (lookup s3 e)) (the (lookup s4 e)) (the (lookup s5 e)) (the (lookup s6 e)))))) e'" if "e' \<in> set ?rest" "?P e'" for e'
        using other[OF that(1)] by simp
    qed
    have f4: "written (drop (nat i) (take (nat (count s1)) (dense s1)))
        (\<lambda>e. present s2 e \<and> present s3 e \<and> present s4 e \<and> present s5 e \<and> present s6 e)
        (\<lambda>e. fst (snd (snd (snd (func e (the (lookup s1 e)) (the (lookup s2 e)) (the (lookup s3 e)) (the (lookup s4 e)) (the (lookup s5 e)) (the (lookup s6 e))))))) s4 u4"
      unfolding dr
    proof (rule written_step[where t = t4 and new' = "(\<lambda>e. fst (snd (snd (snd (func e (the (lookup t1 e)) (the (lookup t2 e)) (the (lookup t3 e)) (the (lookup t4 e)) (the (lookup t5 e)) (the (lookup t6 e)))))))"])
      show "same_members s4 t4" by (rule w4(2))
      show "\<forall>e'. lookup t4 e' = (if e' = ?e then Some ((\<lambda>e. fst (snd (snd (snd (func e (the (lookup s1 e)) (the (lookup s2 e)) (the (lookup s3 e)) (the (lookup s4 e)) (the (lookup s5 e)) (the (lookup s6 e))))))) ?e) else lookup s4 e')"
        using w4(3) by simp
      show "written ?rest ?P
        (\<lambda>e. fst (snd (snd (snd (func e (the (lookup t1 e)) (the (lookup t2 e)) (the (lookup t3 e)) (the (lookup t4 e)) (the (lookup t5 e)) (the (lookup t6 e))))))) t4 u4" by (rule ih(5))
      show "?e \<notin> set ?rest" by (rule ne)
      show "?P ?e" using p by simp
      show "(\<lambda>e. fst (snd (snd (snd (func e (the (lookup t1 e)) (the (lookup t2 e)) (the (lookup t3 e)) (the (lookup t4 e)) (the (lookup t5 e)) (the (lookup t6 e))))))) e' = (\<lambda>e. fst (snd (snd (snd (func e (the (lookup s1 e)) (the (lookup s2 e)) (the (lookup s3 e)) (the (lookup s4 e)) (the (lookup s5 e)) (the (lookup s6 e))))))) e'" if "e' \<in> set ?rest" "?P e'" for e'
        using other[OF that(1)] by simp
    qed
    have f5: "written (drop (nat i) (take (nat (count s1)) (dense s1)))
        (\<lambda>e. present s2 e \<and> present s3 e \<and> present s4 e \<and> present s5 e \<and> present s6 e)
        (\<lambda>e. fst (snd (snd (snd (snd (func e (the (lookup s1 e)) (the (lookup s2 e)) (the (lookup s3 e)) (the (lookup s4 e)) (the (lookup s5 e)) (the (lookup s6 e)))))))) s5 u5"
      unfolding dr
    proof (rule written_step[where t = t5 and new' = "(\<lambda>e. fst (snd (snd (snd (snd (func e (the (lookup t1 e)) (the (lookup t2 e)) (the (lookup t3 e)) (the (lookup t4 e)) (the (lookup t5 e)) (the (lookup t6 e))))))))"])
      show "same_members s5 t5" by (rule w5(2))
      show "\<forall>e'. lookup t5 e' = (if e' = ?e then Some ((\<lambda>e. fst (snd (snd (snd (snd (func e (the (lookup s1 e)) (the (lookup s2 e)) (the (lookup s3 e)) (the (lookup s4 e)) (the (lookup s5 e)) (the (lookup s6 e)))))))) ?e) else lookup s5 e')"
        using w5(3) by simp
      show "written ?rest ?P
        (\<lambda>e. fst (snd (snd (snd (snd (func e (the (lookup t1 e)) (the (lookup t2 e)) (the (lookup t3 e)) (the (lookup t4 e)) (the (lookup t5 e)) (the (lookup t6 e)))))))) t5 u5" by (rule ih(6))
      show "?e \<notin> set ?rest" by (rule ne)
      show "?P ?e" using p by simp
      show "(\<lambda>e. fst (snd (snd (snd (snd (func e (the (lookup t1 e)) (the (lookup t2 e)) (the (lookup t3 e)) (the (lookup t4 e)) (the (lookup t5 e)) (the (lookup t6 e)))))))) e' = (\<lambda>e. fst (snd (snd (snd (snd (func e (the (lookup s1 e)) (the (lookup s2 e)) (the (lookup s3 e)) (the (lookup s4 e)) (the (lookup s5 e)) (the (lookup s6 e)))))))) e'" if "e' \<in> set ?rest" "?P e'" for e'
        using other[OF that(1)] by simp
    qed
    have f6: "written (drop (nat i) (take (nat (count s1)) (dense s1)))
        (\<lambda>e. present s2 e \<and> present s3 e \<and> present s4 e \<and> present s5 e \<and> present s6 e)
        (\<lambda>e. snd (snd (snd (snd (snd (func e (the (lookup s1 e)) (the (lookup s2 e)) (the (lookup s3 e)) (the (lookup s4 e)) (the (lookup s5 e)) (the (lookup s6 e)))))))) s6 u6"
      unfolding dr
    proof (rule written_step[where t = t6 and new' = "(\<lambda>e. snd (snd (snd (snd (snd (func e (the (lookup t1 e)) (the (lookup t2 e)) (the (lookup t3 e)) (the (lookup t4 e)) (the (lookup t5 e)) (the (lookup t6 e))))))))"])
      show "same_members s6 t6" by (rule w6(2))
      show "\<forall>e'. lookup t6 e' = (if e' = ?e then Some ((\<lambda>e. snd (snd (snd (snd (snd (func e (the (lookup s1 e)) (the (lookup s2 e)) (the (lookup s3 e)) (the (lookup s4 e)) (the (lookup s5 e)) (the (lookup s6 e)))))))) ?e) else lookup s6 e')"
        using w6(3) by simp
      show "written ?rest ?P
        (\<lambda>e. snd (snd (snd (snd (snd (func e (the (lookup t1 e)) (the (lookup t2 e)) (the (lookup t3 e)) (the (lookup t4 e)) (the (lookup t5 e)) (the (lookup t6 e)))))))) t6 u6" by (rule ih(7))
      show "?e \<notin> set ?rest" by (rule ne)
      show "?P ?e" using p by simp
      show "(\<lambda>e. snd (snd (snd (snd (snd (func e (the (lookup t1 e)) (the (lookup t2 e)) (the (lookup t3 e)) (the (lookup t4 e)) (the (lookup t5 e)) (the (lookup t6 e)))))))) e' = (\<lambda>e. snd (snd (snd (snd (snd (func e (the (lookup s1 e)) (the (lookup s2 e)) (the (lookup s3 e)) (the (lookup s4 e)) (the (lookup s5 e)) (the (lookup s6 e)))))))) e'" if "e' \<in> set ?rest" "?P e'" for e'
        using other[OF that(1)] by simp
    qed
    show ?thesis
      using q f1 f2 f3 f4 f5 f6 by blast
  next
    case False
    then have nf: "(present s2 ?e \<and> present s3 ?e \<and> present s4 ?e \<and> present s5 ?e \<and> present s6 ?e) = False" by simp
    let ?log = "log @ [Probe 2 ?e, Probe 3 ?e, Probe 4 ?e, Probe 5 ?e, Probe 6 ?e]"
    have step: "Query6_loop func s1 s2 s3 s4 s5 s6 i log = Query6_loop func s1 s2 s3 s4 s5 s6 (i + 1) ?log"
      using lt
      by (simp add: Query6_loop.simps[of func s1 s2 s3 s4 s5 s6 i] Count_def rr(1) gp nf)
    have k: "k = nat (count s1 - (i + 1))" using Suc.hyps(2) by simp
    obtain u1 u2 u3 u4 u5 u6 where ih: "Query6_loop func s1 s2 s3 s4 s5 s6 (i + 1) ?log =
       Inr (u1, u2, u3, u4, u5, u6, ?log @ concat (map (round_events [2, 3, 4, 5, 6]
                  (\<lambda>e. present s2 e \<and> present s3 e \<and> present s4 e \<and> present s5 e \<and> present s6 e)
                  (\<lambda>e. (the (lookup s1 e), the (lookup s2 e), the (lookup s3 e), the (lookup s4 e), the (lookup s5 e), the (lookup s6 e))))
                  ?rest))"
      "written ?rest ?P
        (\<lambda>e. fst (func e (the (lookup s1 e)) (the (lookup s2 e)) (the (lookup s3 e)) (the (lookup s4 e)) (the (lookup s5 e)) (the (lookup s6 e)))) s1 u1"
      "written ?rest ?P
        (\<lambda>e. fst (snd (func e (the (lookup s1 e)) (the (lookup s2 e)) (the (lookup s3 e)) (the (lookup s4 e)) (the (lookup s5 e)) (the (lookup s6 e))))) s2 u2"
      "written ?rest ?P
        (\<lambda>e. fst (snd (snd (func e (the (lookup s1 e)) (the (lookup s2 e)) (the (lookup s3 e)) (the (lookup s4 e)) (the (lookup s5 e)) (the (lookup s6 e)))))) s3 u3"
      "written ?rest ?P
        (\<lambda>e. fst (snd (snd (snd (func e (the (lookup s1 e)) (the (lookup s2 e)) (the (lookup s3 e)) (the (lookup s4 e)) (the (lookup s5 e)) (the (lookup s6 e))))))) s4 u4"
      "written ?rest ?P
        (\<lambda>e. fst (snd (snd (snd (snd (func e (the (lookup s1 e)) (the (lookup s2 e)) (the (lookup s3 e)) (the (lookup s4 e)) (the (lookup s5 e)) (the (lookup s6 e)))))))) s5 u5"
      "written ?rest ?P
        (\<lambda>e. snd (snd (snd (snd (snd (func e (the (lookup s1 e)) (the (lookup s2 e)) (the (lookup s3 e)) (the (lookup s4 e)) (the (lookup s5 e)) (the (lookup s6 e)))))))) s6 u6"
      using Suc.hyps(1)[OF k inv1 inv2 inv3 inv4 inv5 inv6 i1] by blast
    have q: "Query6_loop func s1 s2 s3 s4 s5 s6 i log =
       Inr (u1, u2, u3, u4, u5, u6, log @ concat (map (round_events [2, 3, 4, 5, 6]
                  (\<lambda>e. present s2 e \<and> present s3 e \<and> present s4 e \<and> present s5 e \<and> present s6 e)
                  (\<lambda>e. (the (lookup s1 e), the (lookup s2 e), the (lookup s3 e), the (lookup s4 e), the (lookup s5 e), the (lookup s6 e))))
                  (drop (nat i) (take (nat (count s1)) (dense s1)))))"
      unfolding step ih(1) dr using nf by (simp add: round_events_def)
    have np: "\<not> ?P ?e" using nf by simp
    have f1: "written (drop (nat i) (take (nat (count s1)) (dense s1)))
        (\<lambda>e. present s2 e \<and> present s3 e \<and> present s4 e \<and> present s5 e \<and> present s6 e)
        (\<lambda>e. fst (func e (the (lookup s1 e)) (the (lookup s2 e)) (the (lookup s3 e)) (the (lookup s4 e)) (the (lookup s5 e)) (the (lookup s6 e)))) s1 u1"
      unfolding dr by (rule written_skip[OF ih(2) np])
    have f2: "written (drop (nat i) (take (nat (count s1)) (dense s1)))
        (\<lambda>e. present s2 e \<and> present s3 e \<and> present s4 e \<and> present s5 e \<and> present s6 e)
        (\<lambda>e. fst (snd (func e (the (lookup s1 e)) (the (lookup s2 e)) (the (lookup s3 e)) (the (lookup s4 e)) (the (lookup s5 e)) (the (lookup s6 e))))) s2 u2"
      unfolding dr by (rule written_skip[OF ih(3) np])
    have f3: "written (drop (nat i) (take (nat (count s1)) (dense s1)))
        (\<lambda>e. present s2 e \<and> present s3 e \<and> present s4 e \<and> present s5 e \<and> present s6 e)
        (\<lambda>e. fst (snd (snd (func e (the (lookup s1 e)) (the (lookup s2 e)) (the (lookup s3 e)) (the (lookup s4 e)) (the (lookup s5 e)) (the (lookup s6 e)))))) s3 u3"
      unfolding dr by (rule written_skip[OF ih(4) np])
    have f4: "written (drop (nat i) (take (nat (count s1)) (dense s1)))
        (\<lambda>e. present s2 e \<and> present s3 e \<and> present s4 e \<and> present s5 e \<and> present s6 e)
        (\<lambda>e. fst (snd (snd (snd (func e (the (lookup s1 e)) (the (lookup s2 e)) (the (lookup s3 e)) (the (lookup s4 e)) (the (lookup s5 e)) (the (lookup s6 e))))))) s4 u4"
      unfolding dr by (rule written_skip[OF ih(5) np])
    have f5: "written (drop (nat i) (take (nat (count s1)) (dense s1)))
        (\<lambda>e. present s2 e \<and> present s3 e \<and> present s4 e \<and> present s5 e \<and> present s6 e)
        (\<lambda>e. fst (snd (snd (snd (snd (func e (the (lookup s1 e)) (the (lookup s2 e)) (the (lookup s3 e)) (the (lookup s4 e)) (the (lookup s5 e)) (the (lookup s6 e)))))))) s5 u5"
      unfolding dr by (rule written_skip[OF ih(6) np])
    have f6: "written (drop (nat i) (take (nat (count s1)) (dense s1)))
        (\<lambda>e. present s2 e \<and> present s3 e \<and> present s4 e \<and> present s5 e \<and> present s6 e)
        (\<lambda>e. snd (snd (snd (snd (snd (func e (the (lookup s1 e)) (the (lookup s2 e)) (the (lookup s3 e)) (the (lookup s4 e)) (the (lookup s5 e)) (the (lookup s6 e)))))))) s6 u6"
      unfolding dr by (rule written_skip[OF ih(7) np])
    show ?thesis
      using q f1 f2 f3 f4 f5 f6 by blast
  qed
qed

lemma Query6_join:
  assumes "SparseSet_inv s1" and "SparseSet_inv s2" and "SparseSet_inv s3" and "SparseSet_inv s4" and "SparseSet_inv s5" and "SparseSet_inv s6"
  shows "\<exists>s1' s2' s3' s4' s5' s6' log. Query6 func s1 s2 s3 s4 s5 s6 = Inr (s1', s2', s3', s4', s5', s6', log) \<and>
           probed log = concat (map (\<lambda>e. [(2, e), (3, e), (4, e), (5, e), (6, e)])
                (take (nat (Count s1)) (dense s1))) \<and>
           visited log = filter (\<lambda>e. Has s2 e = Inr True \<and> Has s3 e = Inr True \<and> Has s4 e = Inr True \<and> Has s5 e = Inr True \<and> Has s6 e = Inr True)
                (take (nat (Count s1)) (dense s1)) \<and>
           distinct (visited log) \<and>
           (\<forall>e. e \<in> set (visited log) \<longleftrightarrow>
              Has s1 e = Inr True \<and> Has s2 e = Inr True \<and> Has s3 e = Inr True \<and> Has s4 e = Inr True \<and> Has s5 e = Inr True \<and> Has s6 e = Inr True) \<and>
           (\<forall>e c1 c2 c3 c4 c5 c6. Visit e (c1, c2, c3, c4, c5, c6) \<in> set log \<longrightarrow>
              Get_value s1 e = Inr (Some c1) \<and> Get_value s2 e = Inr (Some c2) \<and> Get_value s3 e = Inr (Some c3) \<and> Get_value s4 e = Inr (Some c4) \<and> Get_value s5 e = Inr (Some c5) \<and> Get_value s6 e = Inr (Some c6)) \<and>
           (\<forall>e c1 c2 c3 c4 c5 c6 d1 d2 d3 d4 d5 d6.
              Get_value s1 e = Inr (Some c1) \<and> Get_value s2 e = Inr (Some c2) \<and> Get_value s3 e = Inr (Some c3) \<and> Get_value s4 e = Inr (Some c4) \<and> Get_value s5 e = Inr (Some c5) \<and> Get_value s6 e = Inr (Some c6) \<and>
              func e c1 c2 c3 c4 c5 c6 = (d1, d2, d3, d4, d5, d6) \<longrightarrow>
              Get_value s1' e = Inr (Some d1) \<and> Get_value s2' e = Inr (Some d2) \<and> Get_value s3' e = Inr (Some d3) \<and> Get_value s4' e = Inr (Some d4) \<and> Get_value s5' e = Inr (Some d5) \<and> Get_value s6' e = Inr (Some d6)) \<and>
           (\<forall>e. \<not> (Has s1 e = Inr True \<and> Has s2 e = Inr True \<and> Has s3 e = Inr True \<and> Has s4 e = Inr True \<and> Has s5 e = Inr True \<and> Has s6 e = Inr True) \<longrightarrow>
              Get_value s1' e = Get_value s1 e \<and> Get_value s2' e = Get_value s2 e \<and> Get_value s3' e = Get_value s3 e \<and> Get_value s4' e = Get_value s4 e \<and> Get_value s5' e = Get_value s5 e \<and> Get_value s6' e = Get_value s6 e) \<and>
           (\<forall>e. Has s1' e = Has s1 e \<and> Has s2' e = Has s2 e \<and> Has s3' e = Has s3 e \<and> Has s4' e = Has s4 e \<and> Has s5' e = Has s5 e \<and> Has s6' e = Has s6 e)"
proof -
  let ?es = "take (nat (count s1)) (dense s1)"
  let ?P = "(\<lambda>e. present s2 e \<and> present s3 e \<and> present s4 e \<and> present s5 e \<and> present s6 e)"
  let ?log = "concat (map (round_events [2, 3, 4, 5, 6] ?P (\<lambda>e. (the (lookup s1 e), the (lookup s2 e), the (lookup s3 e), the (lookup s4 e), the (lookup s5 e), the (lookup s6 e)))) ?es)"
  obtain s1' s2' s3' s4' s5' s6' where q: "Query6 func s1 s2 s3 s4 s5 s6 = Inr (s1', s2', s3', s4', s5', s6', ?log)"
    and wr: "written ?es ?P
        (\<lambda>e. fst (func e (the (lookup s1 e)) (the (lookup s2 e)) (the (lookup s3 e)) (the (lookup s4 e)) (the (lookup s5 e)) (the (lookup s6 e)))) s1 s1'"
      "written ?es ?P
        (\<lambda>e. fst (snd (func e (the (lookup s1 e)) (the (lookup s2 e)) (the (lookup s3 e)) (the (lookup s4 e)) (the (lookup s5 e)) (the (lookup s6 e))))) s2 s2'"
      "written ?es ?P
        (\<lambda>e. fst (snd (snd (func e (the (lookup s1 e)) (the (lookup s2 e)) (the (lookup s3 e)) (the (lookup s4 e)) (the (lookup s5 e)) (the (lookup s6 e)))))) s3 s3'"
      "written ?es ?P
        (\<lambda>e. fst (snd (snd (snd (func e (the (lookup s1 e)) (the (lookup s2 e)) (the (lookup s3 e)) (the (lookup s4 e)) (the (lookup s5 e)) (the (lookup s6 e))))))) s4 s4'"
      "written ?es ?P
        (\<lambda>e. fst (snd (snd (snd (snd (func e (the (lookup s1 e)) (the (lookup s2 e)) (the (lookup s3 e)) (the (lookup s4 e)) (the (lookup s5 e)) (the (lookup s6 e)))))))) s5 s5'"
      "written ?es ?P
        (\<lambda>e. snd (snd (snd (snd (snd (func e (the (lookup s1 e)) (the (lookup s2 e)) (the (lookup s3 e)) (the (lookup s4 e)) (the (lookup s5 e)) (the (lookup s6 e)))))))) s6 s6'"
    using Query6_loop_eq[OF assms, of 0 func "[]"] by (auto simp add: Query6_def)
  note wv = written_values[OF assms(1) wr(1)] written_values[OF assms(2) wr(2)] written_values[OF assms(3) wr(3)] written_values[OF assms(4) wr(4)] written_values[OF assms(5) wr(5)] written_values[OF assms(6) wr(6)]
  have h: "Has s1' e = Has s1 e \<and> Has s2' e = Has s2 e \<and> Has s3' e = Has s3 e \<and> Has s4' e = Has s4 e \<and> Has s5' e = Has s5 e \<and> Has s6' e = Has s6 e" for e
    by (simp add: written_values(2)[OF assms(1) wr(1)] written_values(2)[OF assms(2) wr(2)] written_values(2)[OF assms(3) wr(3)] written_values(2)[OF assms(4) wr(4)] written_values(2)[OF assms(5) wr(5)] written_values(2)[OF assms(6) wr(6)])
  have gv: "Get_value s1' e = (if e \<in> set ?es \<and> ?P e
        then Inr (Some ((\<lambda>e. fst (func e (the (lookup s1 e)) (the (lookup s2 e)) (the (lookup s3 e)) (the (lookup s4 e)) (the (lookup s5 e)) (the (lookup s6 e)))) e)) else Get_value s1 e)"
    "Get_value s2' e = (if e \<in> set ?es \<and> ?P e
        then Inr (Some ((\<lambda>e. fst (snd (func e (the (lookup s1 e)) (the (lookup s2 e)) (the (lookup s3 e)) (the (lookup s4 e)) (the (lookup s5 e)) (the (lookup s6 e))))) e)) else Get_value s2 e)"
    "Get_value s3' e = (if e \<in> set ?es \<and> ?P e
        then Inr (Some ((\<lambda>e. fst (snd (snd (func e (the (lookup s1 e)) (the (lookup s2 e)) (the (lookup s3 e)) (the (lookup s4 e)) (the (lookup s5 e)) (the (lookup s6 e)))))) e)) else Get_value s3 e)"
    "Get_value s4' e = (if e \<in> set ?es \<and> ?P e
        then Inr (Some ((\<lambda>e. fst (snd (snd (snd (func e (the (lookup s1 e)) (the (lookup s2 e)) (the (lookup s3 e)) (the (lookup s4 e)) (the (lookup s5 e)) (the (lookup s6 e))))))) e)) else Get_value s4 e)"
    "Get_value s5' e = (if e \<in> set ?es \<and> ?P e
        then Inr (Some ((\<lambda>e. fst (snd (snd (snd (snd (func e (the (lookup s1 e)) (the (lookup s2 e)) (the (lookup s3 e)) (the (lookup s4 e)) (the (lookup s5 e)) (the (lookup s6 e)))))))) e)) else Get_value s5 e)"
    "Get_value s6' e = (if e \<in> set ?es \<and> ?P e
        then Inr (Some ((\<lambda>e. snd (snd (snd (snd (snd (func e (the (lookup s1 e)) (the (lookup s2 e)) (the (lookup s3 e)) (the (lookup s4 e)) (the (lookup s5 e)) (the (lookup s6 e)))))))) e)) else Get_value s6 e)" for e
    by (rule written_values(3)[OF assms(1) wr(1)] written_values(3)[OF assms(2) wr(2)] written_values(3)[OF assms(3) wr(3)] written_values(3)[OF assms(4) wr(4)] written_values(3)[OF assms(5) wr(5)] written_values(3)[OF assms(6) wr(6)])+
  have v: "visited ?log = filter ?P ?es" by (rule visited_rounds)
  have f: "filter (\<lambda>e. Has s2 e = Inr True \<and> Has s3 e = Inr True \<and> Has s4 e = Inr True \<and> Has s5 e = Inr True \<and> Has s6 e = Inr True) ?es = filter ?P ?es"
    by (simp add: Has_present assms)
  have p: "probed ?log = concat (map (\<lambda>e. [(2, e), (3, e), (4, e), (5, e), (6, e)]) ?es)"
    unfolding probed_rounds by simp
  have d: "distinct (visited ?log)" unfolding v using dense_members(1)[OF assms(1)] by simp
  have m: "e \<in> set (visited ?log) \<longleftrightarrow>
            Has s1 e = Inr True \<and> Has s2 e = Inr True \<and> Has s3 e = Inr True \<and> Has s4 e = Inr True \<and> Has s5 e = Inr True \<and> Has s6 e = Inr True" for e
    unfolding v using dense_members(2)[OF assms(1)] by (auto simp add: Has_present assms)
  have c: "Get_value s1 e = Inr (Some c1) \<and> Get_value s2 e = Inr (Some c2) \<and> Get_value s3 e = Inr (Some c3) \<and> Get_value s4 e = Inr (Some c4) \<and> Get_value s5 e = Inr (Some c5) \<and> Get_value s6 e = Inr (Some c6)"
    if "Visit e (c1, c2, c3, c4, c5, c6) \<in> set ?log" for e c1 c2 c3 c4 c5 c6
  proof -
    have "e \<in> set ?es" "?P e" "(c1, c2, c3, c4, c5, c6) = (the (lookup s1 e), the (lookup s2 e), the (lookup s3 e), the (lookup s4 e), the (lookup s5 e), the (lookup s6 e))"
      using that[unfolded Visit_rounds] by simp_all
    moreover have "present s1 e" using \<open>e \<in> set ?es\<close> dense_members(2)[OF assms(1)] by simp
    ultimately show ?thesis by (simp add: lookup_value assms)
  qed
  have a: "Get_value s1' e = Inr (Some d1) \<and> Get_value s2' e = Inr (Some d2) \<and> Get_value s3' e = Inr (Some d3) \<and> Get_value s4' e = Inr (Some d4) \<and> Get_value s5' e = Inr (Some d5) \<and> Get_value s6' e = Inr (Some d6)"
    if "Get_value s1 e = Inr (Some c1)" "Get_value s2 e = Inr (Some c2)" "Get_value s3 e = Inr (Some c3)" "Get_value s4 e = Inr (Some c4)" "Get_value s5 e = Inr (Some c5)" "Get_value s6 e = Inr (Some c6)"
      "func e c1 c2 c3 c4 c5 c6 = (d1, d2, d3, d4, d5, d6)" for e c1 c2 c3 c4 c5 c6 d1 d2 d3 d4 d5 d6
  proof -
    have l: "lookup s1 e = Some c1" "lookup s2 e = Some c2" "lookup s3 e = Some c3" "lookup s4 e = Some c4" "lookup s5 e = Some c5" "lookup s6 e = Some c6"
      using that(1,2,3,4,5,6) by (simp_all add: Get_value_inv assms)
    then have pr: "present s1 e" "present s2 e" "present s3 e" "present s4 e" "present s5 e" "present s6 e"
      by (simp_all add: lookup_def split: if_splits)
    have "e \<in> set ?es" using pr(1) dense_members(2)[OF assms(1)] by simp
    then show ?thesis using pr l that(7) by (simp add: gv)
  qed
  have b: "Get_value s1' e = Get_value s1 e \<and> Get_value s2' e = Get_value s2 e \<and> Get_value s3' e = Get_value s3 e \<and> Get_value s4' e = Get_value s4 e \<and> Get_value s5' e = Get_value s5 e \<and> Get_value s6' e = Get_value s6 e"
    if "\<not> (Has s1 e = Inr True \<and> Has s2 e = Inr True \<and> Has s3 e = Inr True \<and> Has s4 e = Inr True \<and> Has s5 e = Inr True \<and> Has s6 e = Inr True)" for e
  proof -
    have nf: "(e \<in> set ?es \<and> ?P e) = False"
      using that dense_members(2)[OF assms(1)] by (auto simp add: Has_present assms)
    show ?thesis by (simp add: gv nf)
  qed
  have m': "\<forall>e. e \<in> set (visited ?log) \<longleftrightarrow>
            Has s1 e = Inr True \<and> Has s2 e = Inr True \<and> Has s3 e = Inr True \<and> Has s4 e = Inr True \<and> Has s5 e = Inr True \<and> Has s6 e = Inr True"
    by (intro allI) (rule m)
  have c': "\<forall>e c1 c2 c3 c4 c5 c6. Visit e (c1, c2, c3, c4, c5, c6) \<in> set ?log \<longrightarrow>
            Get_value s1 e = Inr (Some c1) \<and> Get_value s2 e = Inr (Some c2) \<and> Get_value s3 e = Inr (Some c3) \<and> Get_value s4 e = Inr (Some c4) \<and> Get_value s5 e = Inr (Some c5) \<and> Get_value s6 e = Inr (Some c6)"
    by (intro allI impI) (rule c)
  have a': "\<forall>e c1 c2 c3 c4 c5 c6 d1 d2 d3 d4 d5 d6.
              Get_value s1 e = Inr (Some c1) \<and> Get_value s2 e = Inr (Some c2) \<and> Get_value s3 e = Inr (Some c3) \<and> Get_value s4 e = Inr (Some c4) \<and> Get_value s5 e = Inr (Some c5) \<and> Get_value s6 e = Inr (Some c6) \<and>
              func e c1 c2 c3 c4 c5 c6 = (d1, d2, d3, d4, d5, d6) \<longrightarrow>
              Get_value s1' e = Inr (Some d1) \<and> Get_value s2' e = Inr (Some d2) \<and> Get_value s3' e = Inr (Some d3) \<and> Get_value s4' e = Inr (Some d4) \<and> Get_value s5' e = Inr (Some d5) \<and> Get_value s6' e = Inr (Some d6)"
    by (intro allI impI, elim conjE) (rule a)
  have b': "\<forall>e. \<not> (Has s1 e = Inr True \<and> Has s2 e = Inr True \<and> Has s3 e = Inr True \<and> Has s4 e = Inr True \<and> Has s5 e = Inr True \<and> Has s6 e = Inr True) \<longrightarrow>
              Get_value s1' e = Get_value s1 e \<and> Get_value s2' e = Get_value s2 e \<and> Get_value s3' e = Get_value s3 e \<and> Get_value s4' e = Get_value s4 e \<and> Get_value s5' e = Get_value s5 e \<and> Get_value s6' e = Get_value s6 e"
    by (intro allI impI) (rule b)
  have h': "\<forall>e. Has s1' e = Has s1 e \<and> Has s2' e = Has s2 e \<and> Has s3' e = Has s3 e \<and> Has s4' e = Has s4 e \<and> Has s5' e = Has s5 e \<and> Has s6' e = Has s6 e"
    by (intro allI) (rule h)
  show ?thesis
    unfolding Count_def
    by (intro exI[of _ s1'] exI[of _ s2'] exI[of _ s3'] exI[of _ s4'] exI[of _ s5'] exI[of _ s6'] exI[of _ ?log] conjI)
      (rule q p d m' c' a' b' h' v[folded f])+
qed

text \<open>
  Claim C4 as stated fails in one point: the probes do not short-circuit. Each round calls
  \<open>Get\<close> on every one of \<open>K2..Kn\<close> before the test \<open>comp2 && ... && compn\<close>; only that test
  stops at the first null pointer. Here entity 1 has a \<open>Transform\<close> and nothing else:
  \<open>Query<Transform, Player, Sprite>\<close> probes \<open>Player\<close>, gets \<open>nullptr\<close>, and probes \<open>Sprite\<close>
  all the same.
\<close>

theorem Query3_probes_counterexample:
  "Get (SparseSet_new :: Player SparseSet) 1 = Inr None \<and>
   Query3 copy_fields3
     \<lparr>sparse = (replicate 10000 INVALID_INDEX)[1 := 0], dense = (replicate 64 0)[0 := 1],
            data = (replicate 64 default)[0 := Transform (Vec2 1 1) 0 1],
            count = 1, capacity = 64\<rparr>
     SparseSet_new SparseSet_new =
     Inr (\<lparr>sparse = (replicate 10000 INVALID_INDEX)[1 := 0], dense = (replicate 64 0)[0 := 1],
            data = (replicate 64 default)[0 := Transform (Vec2 1 1) 0 1],
            count = 1, capacity = 64\<rparr>,
          SparseSet_new, SparseSet_new, [Probe 2 1, Probe 3 1])"
  by (simp add: Query3_def Query3_loop.simps SparseSet_new_eq eval_defs)

text \<open>
  Claim C4, amended. For storages satisfying the representation invariant (every storage
  reached from a new one does, \<open>SparseSet_run_inv\<close>) and any visitor, a query of arity \<open>n\<close> in
  3..6 returns. It iterates the dense array of \<open>K1\<close>, whatever the sizes of the other
  storages. For each entity of that array, in order, it probes every one of \<open>K2..Kn\<close> with
  \<open>Get\<close>, in declared order, also after a probe has failed, and then calls the visitor when
  all probes succeeded. No entity is visited twice, the entities visited are exactly those
  present in all \<open>n\<close> storages, and the visitor receives the \<open>n\<close> values the entity had before
  the query. The storages returned show the visitor's calls: an entity present in all \<open>n\<close>
  storages, with values \<open>c1..cn\<close> before the query, has afterwards the values that one call
  of the visitor on \<open>c1..cn\<close> leaves in its \<open>n\<close> references; every other value is as
  before, and the storages keep their members.
\<close>

theorem Query_3_to_6_join:
  assumes "SparseSet_inv s1" and "SparseSet_inv s2" and "SparseSet_inv s3"
    and "SparseSet_inv s4" and "SparseSet_inv s5" and "SparseSet_inv s6"
  shows "(\<exists>t1 t2 t3 log. Query3 func3 s1 s2 s3 = Inr (t1, t2, t3, log) \<and>
           probed log = concat (map (\<lambda>e. [(2, e), (3, e)])
                (take (nat (Count s1)) (dense s1))) \<and>
           visited log = filter (\<lambda>e. Has s2 e = Inr True \<and> Has s3 e = Inr True)
                (take (nat (Count s1)) (dense s1)) \<and>
           distinct (visited log) \<and>
           (\<forall>e. e \<in> set (visited log) \<longleftrightarrow>
              Has s1 e = Inr True \<and> Has s2 e = Inr True \<and> Has s3 e = Inr True) \<and>
           (\<forall>e c1 c2 c3. Visit e (c1, c2, c3) \<in> set log \<longrightarrow>
              Get_value s1 e = Inr (Some c1) \<and> Get_value s2 e = Inr (Some c2) \<and> Get_value s3 e = Inr (Some c3)) \<and>
           (\<forall>e c1 c2 c3 d1 d2 d3.
              Get_value s1 e = Inr (Some c1) \<and> Get_value s2 e = Inr (Some c2) \<and> Get_value s3 e = Inr (Some c3) \<and>
              func3 e c1 c2 c3 = (d1, d2, d3) \<longrightarrow>
              Get_value t1 e = Inr (Some d1) \<and> Get_value t2 e = Inr (Some d2) \<and> Get_value t3 e = Inr (Some d3)) \<and>
           (\<forall>e. \<not> (Has s1 e = Inr True \<and> Has s2 e = Inr True \<and> Has s3 e = Inr True) \<longrightarrow>
              Get_value t1 e = Get_value s1 e \<and> Get_value t2 e = Get_value s2 e \<and> Get_value t3 e = Get_value s3 e) \<and>
           (\<forall>e. Has t1 e = Has s1 e \<and> Has t2 e = Has s2 e \<and> Has t3 e = Has s3 e)) \<and>
         (\<exists>t1 t2 t3 t4 log. Query4 func4 s1 s2 s3 s4 = Inr (t1, t2, t3, t4, log) \<and>
           probed log = concat (map (\<lambda>e. [(2, e), (3, e), (4, e)])
                (take (nat (Count s1)) (dense s1))) \<and>
           visited log = filter (\<lambda>e. Has s2 e = Inr True \<and> Has s3 e = Inr True \<and> Has s4 e = Inr True)
                (take (nat (Count s1)) (dense s1)) \<and>
           distinct (visited log) \<and>
           (\<forall>e. e \<in> set (visited log) \<longleftrightarrow>
              Has s1 e = Inr True \<and> Has s2 e = Inr True \<and> Has s3 e = Inr True \<and> Has s4 e = Inr True) \<and>
           (\<forall>e c1 c2 c3 c4. Visit e (c1, c2, c3, c4) \<in> set log \<longrightarrow>
              Get_value s1 e = Inr (Some c1) \<and> Get_value s2 e = Inr (Some c2) \<and> Get_value s3 e = Inr (Some c3) \<and> Get_value s4 e = Inr (Some c4)) \<and>
           (\<forall>e c1 c2 c3 c4 d1 d2 d3 d4.
              Get_value s1 e = Inr (Some c1) \<and> Get_value s2 e = Inr (Some c2) \<and> Get_value s3 e = Inr (Some c3) \<and> Get_value s4 e = Inr (Some c4) \<and>
              func4 e c1 c2 c3 c4 = (d1, d2, d3, d4) \<longrightarrow>
              Get_value t1 e = Inr (Some d1) \<and> Get_value t2 e = Inr (Some d2) \<and> Get_value t3 e = Inr (Some d3) \<and> Get_value t4 e = Inr (Some d4)) \<and>
           (\<forall>e. \<not> (Has s1 e = Inr True \<and> Has s2 e = Inr True \<and> Has s3 e = Inr True \<and> Has s4 e = Inr True) \<longrightarrow>
              Get_value t1 e = Get_value s1 e \<and> Get_value t2 e = Get_value s2 e \<and> Get_value t3 e = Get_value s3 e \<and> Get_value t4 e = Get_value s4 e) \<and>
           (\<forall>e. Has t1 e = Has s1 e \<and> Has t2 e = Has s2 e \<and> Has t3 e = Has s3 e \<and> Has t4 e = Has s4 e)) \<and>
         (\<exists>t1 t2 t3 t4 t5 log. Query5 func5 s1 s2 s3 s4 s5 = Inr (t1, t2, t3, t4, t5, log) \<and>
           probed log = concat (map (\<lambda>e. [(2, e), (3, e), (4, e), (5, e)])
                (take (nat (Count s1)) (dense s1))) \<and>
           visited log = filter (\<lambda>e. Has s2 e = Inr True \<and> Has s3 e = Inr True \<and> Has s4 e = Inr True \<and> Has s5 e = Inr True)
                (take (nat (Count s1)) (dense s1)) \<and>
           distinct (visited log) \<and>
           (\<forall>e. e \<in> set (visited log) \<longleftrightarrow>
              Has s1 e = Inr True \<and> Has s2 e = Inr True \<and> Has s3 e = Inr True \<and> Has s4 e = Inr True \<and> Has s5 e = Inr True) \<and>
           (\<forall>e c1 c2 c3 c4 c5. Visit e (c1, c2, c3, c4, c5) \<in> set log \<longrightarrow>
              Get_value s1 e = Inr (Some c1) \<and> Get_value s2 e = Inr (Some c2) \<and> Get_value s3 e = Inr (Some c3) \<and> Get_value s4 e = Inr (Some c4) \<and> Get_value s5 e = Inr (Some c5)) \<and>
           (\<forall>e c1 c2 c3 c4 c5 d1 d2 d3 d4 d5.
              Get_value s1 e = Inr (Some c1) \<and> Get_value s2 e = Inr (Some c2) \<and> Get_value s3 e = Inr (Some c3) \<and> Get_value s4 e = Inr (Some c4) \<and> Get_value s5 e = Inr (Some c5) \<and>
              func5 e c1 c2 c3 c4 c5 = (d1, d2, d3, d4, d5) \<longrightarrow>
              Get_value t1 e = Inr (Some d1) \<and> Get_value t2 e = Inr (Some d2) \<and> Get_value t3 e = Inr (Some d3) \<and> Get_value t4 e = Inr (Some d4) \<and> Get_value t5 e = Inr (Some d5)) \<and>
           (\<forall>e. \<not> (Has s1 e = Inr True \<and> Has s2 e = Inr True \<and> Has s3 e = Inr True \<and> Has s4 e = Inr True \<and> Has s5 e = Inr True) \<longrightarrow>
              Get_value t1 e = Get_value s1 e \<and> Get_value t2 e = Get_value s2 e \<and> Get_value t3 e = Get_value s3 e \<and> Get_value t4 e = Get_value s4 e \<and> Get_value t5 e = Get_value s5 e) \<and>
           (\<forall>e. Has t1 e = Has s1 e \<and> Has t2 e = Has s2 e \<and> Has t3 e = Has s3 e \<and> Has t4 e = Has s4 e \<and> Has t5 e = Has s5 e)) \<and>
         (\<exists>t1 t2 t3 t4 t5 t6 log. Query6 func6 s1 s2 s3 s4 s5 s6 = Inr (t1, t2, t3, t4, t5, t6, log) \<and>
           probed log = concat (map (\<lambda>e. [(2, e), (3, e), (4, e), (5, e), (6, e)])
                (take (nat (Count s1)) (dense s1))) \<and>
           visited log = filter (\<lambda>e. Has s2 e = Inr True \<and> Has s3 e = Inr True \<and> Has s4 e = Inr True \<and> Has s5 e = Inr True \<and> Has s6 e = Inr True)
                (take (nat (Count s1)) (dense s1)) \<and>
           distinct (visited log) \<and>
           (\<forall>e. e \<in> set (visited log) \<longleftrightarrow>
              Has s1 e = Inr True \<and> Has s2 e = Inr True \<and> Has s3 e = Inr True \<and> Has s4 e = Inr True \<and> Has s5 e = Inr True \<and> Has s6 e = Inr True) \<and>
           (\<forall>e c1 c2 c3 c4 c5 c6. Visit e (c1, c2, c3, c4, c5, c6) \<in> set log \<longrightarrow>
              Get_value s1 e = Inr (Some c1) \<and> Get_value s2 e = Inr (Some c2) \<and> Get_value s3 e = Inr (Some c3) \<and> Get_value s4 e = Inr (Some c4) \<and> Get_value s5 e = Inr (Some c5) \<and> Get_value s6 e = Inr (Some c6)) \<and>
           (\<forall>e c1 c2 c3 c4 c5 c6 d1 d2 d3 d4 d5 d6.
              Get_value s1 e = Inr (Some c1) \<and> Get_value s2 e = Inr (Some c2) \<and> Get_value s3 e = Inr (Some c3) \<and> Get_value s4 e = Inr (Some c4) \<and> Get_value s5 e = Inr (Some c5) \<and> Get_value s6 e = Inr (Some c6) \<and>
              func6 e c1 c2 c3 c4 c5 c6 = (d1, d2, d3, d4, d5, d6) \<longrightarrow>
              Get_value t1 e = Inr (Some d1) \<and> Get_value t2 e = Inr (Some d2) \<and> Get_value t3 e = Inr (Some d3) \<and> Get_value t4 e = Inr (Some d4) \<and> Get_value t5 e = Inr (Some d5) \<and> Get_value t6 e = Inr (Some d6)) \<and>
           (\<forall>e. \<not> (Has s1 e = Inr True \<and> Has s2 e = Inr True \<and> Has s3 e = Inr True \<and> Has s4 e = Inr True \<and> Has s5 e = Inr True \<and> Has s6 e = Inr True) \<longrightarrow>
              Get_value t1 e = Get_value s1 e \<and> Get_value t2 e = Get_value s2 e \<and> Get_value t3 e = Get_value s3 e \<and> Get_value t4 e = Get_value s4 e \<and> Get_value t5 e = Get_value s5 e \<and> Get_value t6 e = Get_value s6 e) \<and>
           (\<forall>e. Has t1 e = Has s1 e \<and> Has t2 e = Has s2 e \<and> Has t3 e = Has s3 e \<and> Has t4 e = Has s4 e \<and> Has t5 e = Has s5 e \<and> Has t6 e = Has s6 e))"
  by (intro conjI Query3_join Query4_join Query5_join Query6_join assms)

lemma example_kind1:
  "SparseSet_run SparseSet_new
     [OpAdd 1 (Transform (Vec2 1 1) 0 1), OpAdd 2 (Transform (Vec2 2 2) 0 1),
        OpAdd 3 (Transform (Vec2 3 3) 0 1)] =
   Inr \<lparr>sparse = (replicate 10000 INVALID_INDEX)[1 := 0, 2 := 1, 3 := 2],
        dense = (replicate 64 0)[0 := 1, 1 := 2, 2 := 3],
        data = (replicate 64 default)[0 := Transform (Vec2 1 1) 0 1, 1 := Transform (Vec2 2 2) 0 1, 2 := Transform (Vec2 3 3) 0 1],
        count = 3, capacity = 64\<rparr>"
  by (simp add: SparseSet_new_eq eval_defs)

lemma example_kind2:
  "SparseSet_run SparseSet_new
     [OpAdd 2 (Player 20 2), OpAdd 3 (Player 30 3), OpAdd 4 (Player 40 4)] =
   Inr \<lparr>sparse = (replicate 10000 INVALID_INDEX)[2 := 0, 3 := 1, 4 := 2],
        dense = (replicate 64 0)[0 := 2, 1 := 3, 2 := 4],
        data = (replicate 64 default)[0 := Player 20 2, 1 := Player 30 3, 2 := Player 40 4],
        count = 3, capacity = 64\<rparr>"
  by (simp add: SparseSet_new_eq eval_defs)

lemma example_kind3:
  "SparseSet_run SparseSet_new
     [OpAdd 3 (Sprite 0 (SDL_Color 1 2 3 4) 8 9)] =
   Inr \<lparr>sparse = (replicate 10000 INVALID_INDEX)[3 := 0],
        dense = (replicate 64 0)[0 := 3],
        data = (replicate 64 default)[0 := Sprite 0 (SDL_Color 1 2 3 4) 8 9],
        count = 1, capacity = 64\<rparr>"
  by (simp add: SparseSet_new_eq eval_defs)

lemma example_kind4:
  "SparseSet_run SparseSet_new
     [OpAdd 3 (Physics (Vec2 0 0) (Vec2 0 1) 1 2 0 False)] =
   Inr \<lparr>sparse = (replicate 10000 INVALID_INDEX)[3 := 0],
        dense = (replicate 64 0)[0 := 3],
        data = (replicate 64 default)[0 := Physics (Vec2 0 0) (Vec2 0 1) 1 2 0 False],
        count = 1, capacity = 64\<rparr>"
  by (simp add: SparseSet_new_eq eval_defs)

lemma example_kind5:
  "SparseSet_run SparseSet_new
     [OpAdd 3 (Collider (Vec2 1 1) (Vec2 0 0) 1 1 False False)] =
   Inr \<lparr>sparse = (replicate 10000 INVALID_INDEX)[3 := 0],
        dense = (replicate 64 0)[0 := 3],
        data = (replicate 64 default)[0 := Collider (Vec2 1 1) (Vec2 0 0) 1 1 False False],
        count = 1, capacity = 64\<rparr>"
  by (simp add: SparseSet_new_eq eval_defs)

lemma example_kind6:
  "SparseSet_run SparseSet_new
     [OpAdd 3 (Animation 0 1 1 0 4 0 0 True True)] =
   Inr \<lparr>sparse = (replicate 10000 INVALID_INDEX)[3 := 0],
        dense = (replicate 64 0)[0 := 3],
        data = (replicate 64 default)[0 := Animation 0 1 1 0 4 0 0 True True],
        count = 1, capacity = 64\<rparr>"
  by (simp add: SparseSet_new_eq eval_defs)

lemma example_query3:
  "Query3 copy_fields3
      (\<lparr>sparse = (replicate 10000 INVALID_INDEX)[1 := 0, 2 := 1, 3 := 2],
        dense = (replicate 64 0)[0 := 1, 1 := 2, 2 := 3],
        data = (replicate 64 default)[0 := Transform (Vec2 1 1) 0 1, 1 := Transform (Vec2 2 2) 0 1, 2 := Transform (Vec2 3 3) 0 1],
        count = 3, capacity = 64\<rparr>)
      (\<lparr>sparse = (replicate 10000 INVALID_INDEX)[2 := 0, 3 := 1, 4 := 2],
        dense = (replicate 64 0)[0 := 2, 1 := 3, 2 := 4],
        data = (replicate 64 default)[0 := Player 20 2, 1 := Player 30 3, 2 := Player 40 4],
        count = 3, capacity = 64\<rparr>)
      (\<lparr>sparse = (replicate 10000 INVALID_INDEX)[3 := 0],
        dense = (replicate 64 0)[0 := 3],
        data = (replicate 64 default)[0 := Sprite 0 (SDL_Color 1 2 3 4) 8 9],
        count = 1, capacity = 64\<rparr>) =
   Inr (\<lparr>sparse = (replicate 10000 INVALID_INDEX)[1 := 0, 2 := 1, 3 := 2],
        dense = (replicate 64 0)[0 := 1, 1 := 2, 2 := 3],
        data = (replicate 64 default)[0 := Transform (Vec2 1 1) 0 1, 1 := Transform (Vec2 2 2) 0 1, 2 := Transform (Vec2 3 3) 30 1],
        count = 3, capacity = 64\<rparr>,
      \<lparr>sparse = (replicate 10000 INVALID_INDEX)[2 := 0, 3 := 1, 4 := 2],
        dense = (replicate 64 0)[0 := 2, 1 := 3, 2 := 4],
        data = (replicate 64 default)[0 := Player 20 2, 1 := Player 30 3, 2 := Player 40 4, 1 := Player 3 3],
        count = 3, capacity = 64\<rparr>,
      \<lparr>sparse = (replicate 10000 INVALID_INDEX)[3 := 0],
        dense = (replicate 64 0)[0 := 3],
        data = (replicate 64 default)[0 := Sprite 0 (SDL_Color 1 2 3 4) 9 9],
        count = 1, capacity = 64\<rparr>,
      [Probe 2 1, Probe 3 1, Probe 2 2, Probe 3 2, Probe 2 3, Probe 3 3, Visit 3 (Transform (Vec2 3 3) 0 1, Player 30 3, Sprite 0 (SDL_Color 1 2 3 4) 8 9)])"
  by (simp add: Query3_def Query3_loop.simps eval_defs SetData_def)

lemma example_query4:
  "Query4 (assign4 (Transform (Vec2 9 9) 9 1) (Player 9 9) (Sprite 0 (SDL_Color 9 9 9 9) 9 9) (Physics (Vec2 9 9) (Vec2 0 1) 1 2 0 False))
      (\<lparr>sparse = (replicate 10000 INVALID_INDEX)[1 := 0, 2 := 1, 3 := 2],
        dense = (replicate 64 0)[0 := 1, 1 := 2, 2 := 3],
        data = (replicate 64 default)[0 := Transform (Vec2 1 1) 0 1, 1 := Transform (Vec2 2 2) 0 1, 2 := Transform (Vec2 3 3) 0 1],
        count = 3, capacity = 64\<rparr>)
      (\<lparr>sparse = (replicate 10000 INVALID_INDEX)[2 := 0, 3 := 1, 4 := 2],
        dense = (replicate 64 0)[0 := 2, 1 := 3, 2 := 4],
        data = (replicate 64 default)[0 := Player 20 2, 1 := Player 30 3, 2 := Player 40 4],
        count = 3, capacity = 64\<rparr>)
      (\<lparr>sparse = (replicate 10000 INVALID_INDEX)[3 := 0],
        dense = (replicate 64 0)[0 := 3],
        data = (replicate 64 default)[0 := Sprite 0 (SDL_Color 1 2 3 4) 8 9],
        count = 1, capacity = 64\<rparr>)
      (\<lparr>sparse = (replicate 10000 INVALID_INDEX)[3 := 0],
        dense = (replicate 64 0)[0 := 3],
        data = (replicate 64 default)[0 := Physics (Vec2 0 0) (Vec2 0 1) 1 2 0 False],
        count = 1, capacity = 64\<rparr>) =
   Inr (\<lparr>sparse = (replicate 10000 INVALID_INDEX)[1 := 0, 2 := 1, 3 := 2],
        dense = (replicate 64 0)[0 := 1, 1 := 2, 2 := 3],
        data = (replicate 64 default)[0 := Transform (Vec2 1 1) 0 1, 1 := Transform (Vec2 2 2) 0 1, 2 := Transform (Vec2 9 9) 9 1],
        count = 3, capacity = 64\<rparr>,
      \<lparr>sparse = (replicate 10000 INVALID_INDEX)[2 := 0, 3 := 1, 4 := 2],
        dense = (replicate 64 0)[0 := 2, 1 := 3, 2 := 4],
        data = (replicate 64 default)[0 := Player 20 2, 1 := Player 30 3, 2 := Player 40 4, 1 := Player 9 9],
        count = 3, capacity = 64\<rparr>,
      \<lparr>sparse = (replicate 10000 INVALID_INDEX)[3 := 0],
        dense = (replicate 64 0)[0 := 3],
        data = (replicate 64 default)[0 := Sprite 0 (SDL_Color 9 9 9 9) 9 9],
        count = 1, capacity = 64\<rparr>,
      \<lparr>sparse = (replicate 10000 INVALID_INDEX)[3 := 0],
        dense = (replicate 64 0)[0 := 3],
        data = (replicate 64 default)[0 := Physics (Vec2 9 9) (Vec2 0 1) 1 2 0 False],
        count = 1, capacity = 64\<rparr>,
      [Probe 2 1, Probe 3 1, Probe 4 1, Probe 2 2, Probe 3 2, Probe 4 2, Probe 2 3, Probe 3 3, Probe 4 3, Visit 3 (Transform (Vec2 3 3) 0 1, Player 30 3, Sprite 0 (SDL_Color 1 2 3 4) 8 9, Physics (Vec2 0 0) (Vec2 0 1) 1 2 0 False)])"
  by (simp add: Query4_def Query4_loop.simps eval_defs SetData_def assign4_def)

lemma example_query5:
  "Query5 (assign5 (Transform (Vec2 9 9) 9 1) (Player 9 9) (Sprite 0 (SDL_Color 9 9 9 9) 9 9) (Physics (Vec2 9 9) (Vec2 0 1) 1 2 0 False) (Collider (Vec2 9 9) (Vec2 0 0) 1 1 False False))
      (\<lparr>sparse = (replicate 10000 INVALID_INDEX)[1 := 0, 2 := 1, 3 := 2],
        dense = (replicate 64 0)[0 := 1, 1 := 2, 2 := 3],
        data = (replicate 64 default)[0 := Transform (Vec2 1 1) 0 1, 1 := Transform (Vec2 2 2) 0 1, 2 := Transform (Vec2 3 3) 0 1],
        count = 3, capacity = 64\<rparr>)
      (\<lparr>sparse = (replicate 10000 INVALID_INDEX)[2 := 0, 3 := 1, 4 := 2],
        dense = (replicate 64 0)[0 := 2, 1 := 3, 2 := 4],
        data = (replicate 64 default)[0 := Player 20 2, 1 := Player 30 3, 2 := Player 40 4],
        count = 3, capacity = 64\<rparr>)
      (\<lparr>sparse = (replicate 10000 INVALID_INDEX)[3 := 0],
        dense = (replicate 64 0)[0 := 3],
        data = (replicate 64 default)[0 := Sprite 0 (SDL_Color 1 2 3 4) 8 9],
        count = 1, capacity = 64\<rparr>)
      (\<lparr>sparse = (replicate 10000 INVALID_INDEX)[3 := 0],
        dense = (replicate 64 0)[0 := 3],
        data = (replicate 64 default)[0 := Physics (Vec2 0 0) (Vec2 0 1) 1 2 0 False],
        count = 1, capacity = 64\<rparr>)
      (\<lparr>sparse = (replicate 10000 INVALID_INDEX)[3 := 0],
        dense = (replicate 64 0)[0 := 3],
        data = (replicate 64 default)[0 := Collider (Vec2 1 1) (Vec2 0 0) 1 1 False False],
        count = 1, capacity = 64\<rparr>) =
   Inr (\<lparr>sparse = (replicate 10000 INVALID_INDEX)[1 := 0, 2 := 1, 3 := 2],
        dense = (replicate 64 0)[0 := 1, 1 := 2, 2 := 3],
        data = (replicate 64 default)[0 := Transform (Vec2 1 1) 0 1, 1 := Transform (Vec2 2 2) 0 1, 2 := Transform (Vec2 9 9) 9 1],
        count = 3, capacity = 64\<rparr>,
      \<lparr>sparse = (replicate 10000 INVALID_INDEX)[2 := 0, 3 := 1, 4 := 2],
        dense = (replicate 64 0)[0 := 2, 1 := 3, 2 := 4],
        data = (replicate 64 default)[0 := Player 20 2, 1 := Player 30 3, 2 := Player 40 4, 1 := Player 9 9],
        count = 3, capacity = 64\<rparr>,
      \<lparr>sparse = (replicate 10000 INVALID_INDEX)[3 := 0],
        dense = (replicate 64 0)[0 := 3],
        data = (replicate 64 default)[0 := Sprite 0 (SDL_Color 9 9 9 9) 9 9],
        count = 1, capacity = 64\<rparr>,
      \<lparr>sparse = (replicate 10000 INVALID_INDEX)[3 := 0],
        dense = (replicate 64 0)[0 := 3],
        data = (replicate 64 default)[0 := Physics (Vec2 9 9) (Vec2 0 1) 1 2 0 False],
        count = 1, capacity = 64\<rparr>,
      \<lparr>sparse = (replicate 10000 INVALID_INDEX)[3 := 0],
        dense = (replicate 64 0)[0 := 3],
        data = (replicate 64 default)[0 := Collider (Vec2 9 9) (Vec2 0 0) 1 1 False False],
        count = 1, capacity = 64\<rparr>,
      [Probe 2 1, Probe 3 1, Probe 4 1, Probe 5 1, Probe 2 2, Probe 3 2, Probe 4 2, Probe 5 2, Probe 2 3, Probe 3 3, Probe 4 3, Probe 5 3, Visit 3 (Transform (Vec2 3 3) 0 1, Player 30 3, Sprite 0 (SDL_Color 1 2 3 4) 8 9, Physics (Vec2 0 0) (Vec2 0 1) 1 2 0 False, Collider (Vec2 1 1) (Vec2 0 0) 1 1 False False)])"
  by (simp add: Query5_def Query5_loop.simps eval_defs SetData_def assign5_def)

lemma example_query6:
  "Query6 (assign6 (Transform (Vec2 9 9) 9 1) (Player 9 9) (Sprite 0 (SDL_Color 9 9 9 9) 9 9) (Physics (Vec2 9 9) (Vec2 0 1) 1 2 0 False) (Collider (Vec2 9 9) (Vec2 0 0) 1 1 False False) (Animation 0 9 9 0 4 0 0 True True))
      (\<lparr>sparse = (replicate 10000 INVALID_INDEX)[1 := 0, 2 := 1, 3 := 2],
        dense = (replicate 64 0)[0 := 1, 1 := 2, 2 := 3],
        data = (replicate 64 default)[0 := Transform (Vec2 1 1) 0 1, 1 := Transform (Vec2 2 2) 0 1, 2 := Transform (Vec2 3 3) 0 1],
        count = 3, capacity = 64\<rparr>)
      (\<lparr>sparse = (replicate 10000 INVALID_INDEX)[2 := 0, 3 := 1, 4 := 2],
        dense = (replicate 64 0)[0 := 2, 1 := 3, 2 := 4],
        data = (replicate 64 default)[0 := Player 20 2, 1 := Player 30 3, 2 := Player 40 4],
        count = 3, capacity = 64\<rparr>)
      (\<lparr>sparse = (replicate 10000 INVALID_INDEX)[3 := 0],
        dense = (replicate 64 0)[0 := 3],
        data = (replicate 64 default)[0 := Sprite 0 (SDL_Color 1 2 3 4) 8 9],
        count = 1, capacity = 64\<rparr>)
      (\<lparr>sparse = (replicate 10000 INVALID_INDEX)[3 := 0],
        dense = (replicate 64 0)[0 := 3],
        data = (replicate 64 default)[0 := Physics (Vec2 0 0) (Vec2 0 1) 1 2 0 False],
        count = 1, capacity = 64\<rparr>)
      (\<lparr>sparse = (replicate 10000 INVALID_INDEX)[3 := 0],
        dense = (replicate 64 0)[0 := 3],
        data = (replicate 64 default)[0 := Collider (Vec2 1 1) (Vec2 0 0) 1 1 False False],
        count = 1, capacity = 64\<rparr>)
      (\<lparr>sparse = (replicate 10000 INVALID_INDEX)[3 := 0],
        dense = (replicate 64 0)[0 := 3],
        data = (replicate 64 default)[0 := Animation 0 1 1 0 4 0 0 True True],
        count = 1, capacity = 64\<rparr>) =
   Inr (\<lparr>sparse = (replicate 10000 INVALID_INDEX)[1 := 0, 2 := 1, 3 := 2],
        dense = (replicate 64 0)[0 := 1, 1 := 2, 2 := 3],
        data = (replicate 64 default)[0 := Transform (Vec2 1 1) 0 1, 1 := Transform (Vec2 2 2) 0 1, 2 := Transform (Vec2 9 9) 9 1],
        count = 3, capacity = 64\<rparr>,
      \<lparr>sparse = (replicate 10000 INVALID_INDEX)[2 := 0, 3 := 1, 4 := 2],
        dense = (replicate 64 0)[0 := 2, 1 := 3, 2 := 4],
        data = (replicate 64 default)[0 := Player 20 2, 1 := Player 30 3, 2 := Player 40 4, 1 := Player 9 9],
        count = 3, capacity = 64\<rparr>,
      \<lparr>sparse = (replicate 10000 INVALID_INDEX)[3 := 0],
        dense = (replicate 64 0)[0 := 3],
        data = (replicate 64 default)[0 := Sprite 0 (SDL_Color 9 9 9 9) 9 9],
        count = 1, capacity = 64\<rparr>,
      \<lparr>sparse = (replicate 10000 INVALID_INDEX)[3 := 0],
        dense = (replicate 64 0)[0 := 3],
        data = (replicate 64 default)[0 := Physics (Vec2 9 9) (Vec2 0 1) 1 2 0 False],
        count = 1, capacity = 64\<rparr>,
      \<lparr>sparse = (replicate 10000 INVALID_INDEX)[3 := 0],
        dense = (replicate 64 0)[0 := 3],
        data = (replicate 64 default)[0 := Collider (Vec2 9 9) (Vec2 0 0) 1 1 False False],
        count = 1, capacity = 64\<rparr>,
      \<lparr>sparse = (replicate 10000 INVALID_INDEX)[3 := 0],
        dense = (replicate 64 0)[0 := 3],
        data = (replicate 64 default)[0 := Animation 0 9 9 0 4 0 0 True True],
        count = 1, capacity = 64\<rparr>,
      [Probe 2 1, Probe 3 1, Probe 4 1, Probe 5 1, Probe 6 1, Probe 2 2, Probe 3 2, Probe 4 2, Probe 5 2, Probe 6 2, Probe 2 3, Probe 3 3, Probe 4 3, Probe 5 3, Probe 6 3, Visit 3 (Transform (Vec2 3 3) 0 1, Player 30 3, Sprite 0 (SDL_Color 1 2 3 4) 8 9, Physics (Vec2 0 0) (Vec2 0 1) 1 2 0 False, Collider (Vec2 1 1) (Vec2 0 0) 1 1 False False, Animation 0 1 1 0 4 0 0 True True)])"
  by (simp add: Query6_def Query6_loop.simps eval_defs SetData_def assign6_def)

theorem Query_3_to_6_join_witness:
  "\<exists>s1 s2 s3 s4 s5 s6 t1 t2 t3 log3.
     SparseSet_run SparseSet_new
       [OpAdd 1 (Transform (Vec2 1 1) 0 1), OpAdd 2 (Transform (Vec2 2 2) 0 1),
        OpAdd 3 (Transform (Vec2 3 3) 0 1)] = Inr s1 \<and>
     SparseSet_run SparseSet_new
       [OpAdd 2 (Player 20 2), OpAdd 3 (Player 30 3), OpAdd 4 (Player 40 4)] = Inr s2 \<and>
     SparseSet_run SparseSet_new
       [OpAdd 3 (Sprite 0 (SDL_Color 1 2 3 4) 8 9)] = Inr s3 \<and>
     SparseSet_run SparseSet_new
       [OpAdd 3 (Physics (Vec2 0 0) (Vec2 0 1) 1 2 0 False)] = Inr s4 \<and>
     SparseSet_run SparseSet_new
       [OpAdd 3 (Collider (Vec2 1 1) (Vec2 0 0) 1 1 False False)] = Inr s5 \<and>
     SparseSet_run SparseSet_new
       [OpAdd 3 (Animation 0 1 1 0 4 0 0 True True)] = Inr s6 \<and>
     SparseSet_inv s1 \<and> SparseSet_inv s2 \<and> SparseSet_inv s3 \<and> SparseSet_inv s4 \<and> SparseSet_inv s5 \<and> SparseSet_inv s6 \<and>
     Has s1 2 = Inr True \<and> Has s2 2 = Inr True \<and> Has s3 2 = Inr False \<and>
     Query3 copy_fields3 s1 s2 s3 = Inr (t1, t2, t3, log3) \<and>
     probed log3 = [(2, 1), (3, 1), (2, 2), (3, 2), (2, 3), (3, 3)] \<and>
     visited log3 = [3] \<and> distinct (visited log3) \<and> 2 \<notin> set (visited log3) \<and>
     Visit 3 (Transform (Vec2 3 3) 0 1, Player 30 3, Sprite 0 (SDL_Color 1 2 3 4) 8 9) \<in> set log3 \<and>
     Get_value s1 3 = Inr (Some (Transform (Vec2 3 3) 0 1)) \<and>
     Get_value s2 3 = Inr (Some (Player 30 3)) \<and>
     Get_value s3 3 = Inr (Some (Sprite 0 (SDL_Color 1 2 3 4) 8 9)) \<and>
     copy_fields3 3 (Transform (Vec2 3 3) 0 1) (Player 30 3)
         (Sprite 0 (SDL_Color 1 2 3 4) 8 9) =
       (Transform (Vec2 3 3) 30 1, Player 3 3,
        Sprite 0 (SDL_Color 1 2 3 4) 9 9) \<and>
     Get_value t1 3 = Inr (Some (Transform (Vec2 3 3) 30 1)) \<and>
     Get_value t2 3 = Inr (Some (Player 3 3)) \<and>
     Get_value t3 3 = Inr (Some (Sprite 0 (SDL_Color 1 2 3 4) 9 9)) \<and>
     Get_value t1 2 = Get_value s1 2 \<and> Get_value t2 2 = Get_value s2 2 \<and>
     Has t2 4 = Has s2 4 \<and>
     (\<exists>r1 r2 r3 r4 log. Query4 (assign4 (Transform (Vec2 9 9) 9 1) (Player 9 9) (Sprite 0 (SDL_Color 9 9 9 9) 9 9) (Physics (Vec2 9 9) (Vec2 0 1) 1 2 0 False)) s1 s2 s3 s4 = Inr (r1, r2, r3, r4, log) \<and>
        visited log = [3] \<and> distinct (visited log) \<and>
        Get_value r1 3 = Inr (Some (Transform (Vec2 9 9) 9 1)) \<and>
        Get_value r2 3 = Inr (Some (Player 9 9)) \<and>
        Get_value r3 3 = Inr (Some (Sprite 0 (SDL_Color 9 9 9 9) 9 9)) \<and>
        Get_value r4 3 = Inr (Some (Physics (Vec2 9 9) (Vec2 0 1) 1 2 0 False))) \<and>
     (\<exists>r1 r2 r3 r4 r5 log. Query5 (assign5 (Transform (Vec2 9 9) 9 1) (Player 9 9) (Sprite 0 (SDL_Color 9 9 9 9) 9 9) (Physics (Vec2 9 9) (Vec2 0 1) 1 2 0 False) (Collider (Vec2 9 9) (Vec2 0 0) 1 1 False False)) s1 s2 s3 s4 s5 = Inr (r1, r2, r3, r4, r5, log) \<and>
        visited log = [3] \<and> distinct (visited log) \<and>
        Get_value r1 3 = Inr (Some (Transform (Vec2 9 9) 9 1)) \<and>
        Get_value r2 3 = Inr (Some (Player 9 9)) \<and>
        Get_value r3 3 = Inr (Some (Sprite 0 (SDL_Color 9 9 9 9) 9 9)) \<and>
        Get_value r4 3 = Inr (Some (Physics (Vec2 9 9) (Vec2 0 1) 1 2 0 False)) \<and>
        Get_value r5 3 = Inr (Some (Collider (Vec2 9 9) (Vec2 0 0) 1 1 False False))) \<and>
     (\<exists>r1 r2 r3 r4 r5 r6 log. Query6 (assign6 (Transform (Vec2 9 9) 9 1) (Player 9 9) (Sprite 0 (SDL_Color 9 9 9 9) 9 9) (Physics (Vec2 9 9) (Vec2 0 1) 1 2 0 False) (Collider (Vec2 9 9) (Vec2 0 0) 1 1 False False) (Animation 0 9 9 0 4 0 0 True True)) s1 s2 s3 s4 s5 s6 = Inr (r1, r2, r3, r4, r5, r6, log) \<and>
        visited log = [3] \<and> distinct (visited log) \<and>
        Get_value r1 3 = Inr (Some (Transform (Vec2 9 9) 9 1)) \<and>
        Get_value r2 3 = Inr (Some (Player 9 9)) \<and>
        Get_value r3 3 = Inr (Some (Sprite 0 (SDL_Color 9 9 9 9) 9 9)) \<and>
        Get_value r4 3 = Inr (Some (Physics (Vec2 9 9) (Vec2 0 1) 1 2 0 False)) \<and>
        Get_value r5 3 = Inr (Some (Collider (Vec2 9 9) (Vec2 0 0) 1 1 False False)) \<and>
        Get_value r6 3 = Inr (Some (Animation 0 9 9 0 4 0 0 True True)))"
proof -
  let ?K1 = "[OpAdd 1 (Transform (Vec2 1 1) 0 1), OpAdd 2 (Transform (Vec2 2 2) 0 1),
        OpAdd 3 (Transform (Vec2 3 3) 0 1)]"
  let ?S1 = "\<lparr>sparse = (replicate 10000 INVALID_INDEX)[1 := 0, 2 := 1, 3 := 2],
        dense = (replicate 64 0)[0 := 1, 1 := 2, 2 := 3],
        data = (replicate 64 default)[0 := Transform (Vec2 1 1) 0 1, 1 := Transform (Vec2 2 2) 0 1, 2 := Transform (Vec2 3 3) 0 1],
        count = 3, capacity = 64\<rparr>"
  let ?K2 = "[OpAdd 2 (Player 20 2), OpAdd 3 (Player 30 3), OpAdd 4 (Player 40 4)]"
  let ?S2 = "\<lparr>sparse = (replicate 10000 INVALID_INDEX)[2 := 0, 3 := 1, 4 := 2],
        dense = (replicate 64 0)[0 := 2, 1 := 3, 2 := 4],
        data = (replicate 64 default)[0 := Player 20 2, 1 := Player 30 3, 2 := Player 40 4],
        count = 3, capacity = 64\<rparr>"
  let ?K3 = "[OpAdd 3 (Sprite 0 (SDL_Color 1 2 3 4) 8 9)]"
  let ?S3 = "\<lparr>sparse = (replicate 10000 INVALID_INDEX)[3 := 0],
        dense = (replicate 64 0)[0 := 3],
        data = (replicate 64 default)[0 := Sprite 0 (SDL_Color 1 2 3 4) 8 9],
        count = 1, capacity = 64\<rparr>"
  let ?K4 = "[OpAdd 3 (Physics (Vec2 0 0) (Vec2 0 1) 1 2 0 False)]"
  let ?S4 = "\<lparr>sparse = (replicate 10000 INVALID_INDEX)[3 := 0],
        dense = (replicate 64 0)[0 := 3],
        data = (replicate 64 default)[0 := Physics (Vec2 0 0) (Vec2 0 1) 1 2 0 False],
        count = 1, capacity = 64\<rparr>"
  let ?K5 = "[OpAdd 3 (Collider (Vec2 1 1) (Vec2 0 0) 1 1 False False)]"
  let ?S5 = "\<lparr>sparse = (replicate 10000 INVALID_INDEX)[3 := 0],
        dense = (replicate 64 0)[0 := 3],
        data = (replicate 64 default)[0 := Collider (Vec2 1 1) (Vec2 0 0) 1 1 False False],
        count = 1, capacity = 64\<rparr>"
  let ?K6 = "[OpAdd 3 (Animation 0 1 1 0 4 0 0 True True)]"
  let ?S6 = "\<lparr>sparse = (replicate 10000 INVALID_INDEX)[3 := 0],
        dense = (replicate 64 0)[0 := 3],
        data = (replicate 64 default)[0 := Animation 0 1 1 0 4 0 0 True True],
        count = 1, capacity = 64\<rparr>"
  let ?T1 = "\<lparr>sparse = (replicate 10000 INVALID_INDEX)[1 := 0, 2 := 1, 3 := 2],
        dense = (replicate 64 0)[0 := 1, 1 := 2, 2 := 3],
        data = (replicate 64 default)[0 := Transform (Vec2 1 1) 0 1, 1 := Transform (Vec2 2 2) 0 1, 2 := Transform (Vec2 3 3) 30 1],
        count = 3, capacity = 64\<rparr>"
  let ?T2 = "\<lparr>sparse = (replicate 10000 INVALID_INDEX)[2 := 0, 3 := 1, 4 := 2],
        dense = (replicate 64 0)[0 := 2, 1 := 3, 2 := 4],
        data = (replicate 64 default)[0 := Player 20 2, 1 := Player 30 3, 2 := Player 40 4, 1 := Player 3 3],
        count = 3, capacity = 64\<rparr>"
  let ?T3 = "\<lparr>sparse = (replicate 10000 INVALID_INDEX)[3 := 0],
        dense = (replicate 64 0)[0 := 3],
        data = (replicate 64 default)[0 := Sprite 0 (SDL_Color 1 2 3 4) 9 9],
        count = 1, capacity = 64\<rparr>"
  let ?log3 = "[Probe 2 1, Probe 3 1, Probe 2 2, Probe 3 2, Probe 2 3, Probe 3 3, Visit 3 (Transform (Vec2 3 3) 0 1, Player 30 3, Sprite 0 (SDL_Color 1 2 3 4) 8 9)]"
  have i1: "SparseSet_inv ?S1"
    using SparseSet_run_inv[OF SparseSet_inv_new, of ?K1] unfolding example_kind1 by simp
  have i2: "SparseSet_inv ?S2"
    using SparseSet_run_inv[OF SparseSet_inv_new, of ?K2] unfolding example_kind2 by simp
  have i3: "SparseSet_inv ?S3"
    using SparseSet_run_inv[OF SparseSet_inv_new, of ?K3] unfolding example_kind3 by simp
  have i4: "SparseSet_inv ?S4"
    using SparseSet_run_inv[OF SparseSet_inv_new, of ?K4] unfolding example_kind4 by simp
  have i5: "SparseSet_inv ?S5"
    using SparseSet_run_inv[OF SparseSet_inv_new, of ?K5] unfolding example_kind5 by simp
  have i6: "SparseSet_inv ?S6"
    using SparseSet_run_inv[OF SparseSet_inv_new, of ?K6] unfolding example_kind6 by simp
  note all = Query_3_to_6_join[OF i1 i2 i3 i4 i5 i6,
      where ?func3.0 = copy_fields3 and ?func4.0 = "assign4 (Transform (Vec2 9 9) 9 1) (Player 9 9) (Sprite 0 (SDL_Color 9 9 9 9) 9 9) (Physics (Vec2 9 9) (Vec2 0 1) 1 2 0 False)"
        and ?func5.0 = "assign5 (Transform (Vec2 9 9) 9 1) (Player 9 9) (Sprite 0 (SDL_Color 9 9 9 9) 9 9) (Physics (Vec2 9 9) (Vec2 0 1) 1 2 0 False) (Collider (Vec2 9 9) (Vec2 0 0) 1 1 False False)"
        and ?func6.0 = "assign6 (Transform (Vec2 9 9) 9 1) (Player 9 9) (Sprite 0 (SDL_Color 9 9 9 9) 9 9) (Physics (Vec2 9 9) (Vec2 0 1) 1 2 0 False) (Collider (Vec2 9 9) (Vec2 0 0) 1 1 False False) (Animation 0 9 9 0 4 0 0 True True)"]
  have g: "Get_value ?S1 3 = Inr (Some (Transform (Vec2 3 3) 0 1))"
    "Get_value ?S2 3 = Inr (Some (Player 30 3))"
    "Get_value ?S3 3 = Inr (Some (Sprite 0 (SDL_Color 1 2 3 4) 8 9))"
    by (simp_all add: eval_defs)
  have h: "Has ?S1 2 = Inr True" "Has ?S2 2 = Inr True" "Has ?S3 2 = Inr False"
    by (simp_all add: eval_defs)
  have cf: "copy_fields3 3 (Transform (Vec2 3 3) 0 1) (Player 30 3)
         (Sprite 0 (SDL_Color 1 2 3 4) 8 9) =
       (Transform (Vec2 3 3) 30 1, Player 3 3,
        Sprite 0 (SDL_Color 1 2 3 4) 9 9)"
    by simp
  obtain t1 t2 t3 log where q: "Query3 copy_fields3 ?S1 ?S2 ?S3 = Inr (t1, t2, t3, log)"
    and r: "distinct (visited log)"
      "\<forall>e c1 c2 c3. Visit e (c1, c2, c3) \<in> set log \<longrightarrow>
           Get_value ?S1 e = Inr (Some c1) \<and> Get_value ?S2 e = Inr (Some c2) \<and>
           Get_value ?S3 e = Inr (Some c3)"
      "\<forall>e c1 c2 c3 d1 d2 d3.
              Get_value ?S1 e = Inr (Some c1) \<and> Get_value ?S2 e = Inr (Some c2) \<and> Get_value ?S3 e = Inr (Some c3) \<and>
              copy_fields3 e c1 c2 c3 = (d1, d2, d3) \<longrightarrow>
              Get_value t1 e = Inr (Some d1) \<and> Get_value t2 e = Inr (Some d2) \<and> Get_value t3 e = Inr (Some d3)"
      "\<forall>e. \<not> (Has ?S1 e = Inr True \<and> Has ?S2 e = Inr True \<and> Has ?S3 e = Inr True) \<longrightarrow>
              Get_value t1 e = Get_value ?S1 e \<and> Get_value t2 e = Get_value ?S2 e \<and> Get_value t3 e = Get_value ?S3 e"
      "\<forall>e. Has t1 e = Has ?S1 e \<and> Has t2 e = Has ?S2 e \<and> Has t3 e = Has ?S3 e"
    using all[THEN conjunct1] by blast
  have eq: "t1 = ?T1" "t2 = ?T2" "t3 = ?T3" "log = ?log3"
    using q unfolding example_query3 by simp_all
  have n2: "\<not> (Has ?S1 2 = Inr True \<and> Has ?S2 2 = Inr True \<and> Has ?S3 2 = Inr True)"
    using h by simp
  have a: "distinct (visited ?log3)"
    "Get_value ?T1 3 = Inr (Some (Transform (Vec2 3 3) 30 1))"
    "Get_value ?T2 3 = Inr (Some (Player 3 3))"
    "Get_value ?T3 3 = Inr (Some (Sprite 0 (SDL_Color 1 2 3 4) 9 9))"
    "Get_value ?T1 2 = Get_value ?S1 2" "Get_value ?T2 2 = Get_value ?S2 2"
    "Has ?T2 4 = Has ?S2 4"
    using r(1) r(3)[rule_format, OF conjI[OF g(1) conjI[OF g(2) conjI[OF g(3) cf]]]]
      r(4)[rule_format, OF n2] r(5)
    unfolding eq by simp_all
  have l: "probed ?log3 = [(2, 1), (3, 1), (2, 2), (3, 2), (2, 3), (3, 3)]"
    "visited ?log3 = [3]" "2 \<notin> set (visited ?log3)"
    "Visit 3 (Transform (Vec2 3 3) 0 1, Player 30 3, Sprite 0 (SDL_Color 1 2 3 4) 8 9) \<in> set ?log3"
    by simp_all
  have x4: "\<exists>r1 r2 r3 r4 log. Query4 (assign4 (Transform (Vec2 9 9) 9 1) (Player 9 9) (Sprite 0 (SDL_Color 9 9 9 9) 9 9) (Physics (Vec2 9 9) (Vec2 0 1) 1 2 0 False)) ?S1 ?S2 ?S3 ?S4 = Inr (r1, r2, r3, r4, log) \<and>
        visited log = [3] \<and> distinct (visited log) \<and>
        Get_value r1 3 = Inr (Some (Transform (Vec2 9 9) 9 1)) \<and>
        Get_value r2 3 = Inr (Some (Player 9 9)) \<and>
        Get_value r3 3 = Inr (Some (Sprite 0 (SDL_Color 9 9 9 9) 9 9)) \<and>
        Get_value r4 3 = Inr (Some (Physics (Vec2 9 9) (Vec2 0 1) 1 2 0 False))"
    unfolding example_query4
    by (rule exI[of _ "\<lparr>sparse = (replicate 10000 INVALID_INDEX)[1 := 0, 2 := 1, 3 := 2],
        dense = (replicate 64 0)[0 := 1, 1 := 2, 2 := 3],
        data = (replicate 64 default)[0 := Transform (Vec2 1 1) 0 1, 1 := Transform (Vec2 2 2) 0 1, 2 := Transform (Vec2 9 9) 9 1],
        count = 3, capacity = 64\<rparr>"],
        rule exI[of _ "\<lparr>sparse = (replicate 10000 INVALID_INDEX)[2 := 0, 3 := 1, 4 := 2],
        dense = (replicate 64 0)[0 := 2, 1 := 3, 2 := 4],
        data = (replicate 64 default)[0 := Player 20 2, 1 := Player 30 3, 2 := Player 40 4, 1 := Player 9 9],
        count = 3, capacity = 64\<rparr>"],
        rule exI[of _ "\<lparr>sparse = (replicate 10000 INVALID_INDEX)[3 := 0],
        dense = (replicate 64 0)[0 := 3],
        data = (replicate 64 default)[0 := Sprite 0 (SDL_Color 9 9 9 9) 9 9],
        count = 1, capacity = 64\<rparr>"],
        rule exI[of _ "\<lparr>sparse = (replicate 10000 INVALID_INDEX)[3 := 0],
        dense = (replicate 64 0)[0 := 3],
        data = (replicate 64 default)[0 := Physics (Vec2 9 9) (Vec2 0 1) 1 2 0 False],
        count = 1, capacity = 64\<rparr>"],
        rule exI[of _ "[Probe 2 1, Probe 3 1, Probe 4 1, Probe 2 2, Probe 3 2, Probe 4 2, Probe 2 3, Probe 3 3, Probe 4 3, Visit 3 (Transform (Vec2 3 3) 0 1, Player 30 3, Sprite 0 (SDL_Color 1 2 3 4) 8 9, Physics (Vec2 0 0) (Vec2 0 1) 1 2 0 False)]"], intro conjI)
      (simp_all add: eval_defs)
  have x5: "\<exists>r1 r2 r3 r4 r5 log. Query5 (assign5 (Transform (Vec2 9 9) 9 1) (Player 9 9) (Sprite 0 (SDL_Color 9 9 9 9) 9 9) (Physics (Vec2 9 9) (Vec2 0 1) 1 2 0 False) (Collider (Vec2 9 9) (Vec2 0 0) 1 1 False False)) ?S1 ?S2 ?S3 ?S4 ?S5 = Inr (r1, r2, r3, r4, r5, log) \<and>
        visited log = [3] \<and> distinct (visited log) \<and>
        Get_value r1 3 = Inr (Some (Transform (Vec2 9 9) 9 1)) \<and>
        Get_value r2 3 = Inr (Some (Player 9 9)) \<and>
        Get_value r3 3 = Inr (Some (Sprite 0 (SDL_Color 9 9 9 9) 9 9)) \<and>
        Get_value r4 3 = Inr (Some (Physics (Vec2 9 9) (Vec2 0 1) 1 2 0 False)) \<and>
        Get_value r5 3 = Inr (Some (Collider (Vec2 9 9) (Vec2 0 0) 1 1 False False))"
    unfolding example_query5
    by (rule exI[of _ "\<lparr>sparse = (replicate 10000 INVALID_INDEX)[1 := 0, 2 := 1, 3 := 2],
        dense = (replicate 64 0)[0 := 1, 1 := 2, 2 := 3],
        data = (replicate 64 default)[0 := Transform (Vec2 1 1) 0 1, 1 := Transform (Vec2 2 2) 0 1, 2 := Transform (Vec2 9 9) 9 1],
        count = 3, capacity = 64\<rparr>"],
        rule exI[of _ "\<lparr>sparse = (replicate 10000 INVALID_INDEX)[2 := 0, 3 := 1, 4 := 2],
        dense = (replicate 64 0)[0 := 2, 1 := 3, 2 := 4],
        data = (replicate 64 default)[0 := Player 20 2, 1 := Player 30 3, 2 := Player 40 4, 1 := Player 9 9],
        count = 3, capacity = 64\<rparr>"],
        rule exI[of _ "\<lparr>sparse = (replicate 10000 INVALID_INDEX)[3 := 0],
        dense = (replicate 64 0)[0 := 3],
        data = (replicate 64 default)[0 := Sprite 0 (SDL_Color 9 9 9 9) 9 9],
        count = 1, capacity = 64\<rparr>"],
        rule exI[of _ "\<lparr>sparse = (replicate 10000 INVALID_INDEX)[3 := 0],
        dense = (replicate 64 0)[0 := 3],
        data = (replicate 64 default)[0 := Physics (Vec2 9 9) (Vec2 0 1) 1 2 0 False],
        count = 1, capacity = 64\<rparr>"],
        rule exI[of _ "\<lparr>sparse = (replicate 10000 INVALID_INDEX)[3 := 0],
        dense = (replicate 64 0)[0 := 3],
        data = (replicate 64 default)[0 := Collider (Vec2 9 9) (Vec2 0 0) 1 1 False False],
        count = 1, capacity = 64\<rparr>"],
        rule exI[of _ "[Probe 2 1, Probe 3 1, Probe 4 1, Probe 5 1, Probe 2 2, Probe 3 2, Probe 4 2, Probe 5 2, Probe 2 3, Probe 3 3, Probe 4 3, Probe 5 3, Visit 3 (Transform (Vec2 3 3) 0 1, Player 30 3, Sprite 0 (SDL_Color 1 2 3 4) 8 9, Physics (Vec2 0 0) (Vec2 0 1) 1 2 0 False, Collider (Vec2 1 1) (Vec2 0 0) 1 1 False False)]"], intro conjI)
      (simp_all add: eval_defs)
  have x6: "\<exists>r1 r2 r3 r4 r5 r6 log. Query6 (assign6 (Transform (Vec2 9 9) 9 1) (Player 9 9) (Sprite 0 (SDL_Color 9 9 9 9) 9 9) (Physics (Vec2 9 9) (Vec2 0 1) 1 2 0 False) (Collider (Vec2 9 9) (Vec2 0 0) 1 1 False False) (Animation 0 9 9 0 4 0 0 True True)) ?S1 ?S2 ?S3 ?S4 ?S5 ?S6 = Inr (r1, r2, r3, r4, r5, r6, log) \<and>
        visited log = [3] \<and> distinct (visited log) \<and>
        Get_value r1 3 = Inr (Some (Transform (Vec2 9 9) 9 1)) \<and>
        Get_value r2 3 = Inr (Some (Player 9 9)) \<and>
        Get_value r3 3 = Inr (Some (Sprite 0 (SDL_Color 9 9 9 9) 9 9)) \<and>
        Get_value r4 3 = Inr (Some (Physics (Vec2 9 9) (Vec2 0 1) 1 2 0 False)) \<and>
        Get_value r5 3 = Inr (Some (Collider (Vec2 9 9) (Vec2 0 0) 1 1 False False)) \<and>
        Get_value r6 3 = Inr (Some (Animation 0 9 9 0 4 0 0 True True))"
    unfolding example_query6
    by (rule exI[of _ "\<lparr>sparse = (replicate 10000 INVALID_INDEX)[1 := 0, 2 := 1, 3 := 2],
        dense = (replicate 64 0)[0 := 1, 1 := 2, 2 := 3],
        data = (replicate 64 default)[0 := Transform (Vec2 1 1) 0 1, 1 := Transform (Vec2 2 2) 0 1, 2 := Transform (Vec2 9 9) 9 1],
        count = 3, capacity = 64\<rparr>"],
        rule exI[of _ "\<lparr>sparse = (replicate 10000 INVALID_INDEX)[2 := 0, 3 := 1, 4 := 2],
        dense = (replicate 64 0)[0 := 2, 1 := 3, 2 := 4],
        data = (replicate 64 default)[0 := Player 20 2, 1 := Player 30 3, 2 := Player 40 4, 1 := Player 9 9],
        count = 3, capacity = 64\<rparr>"],
        rule exI[of _ "\<lparr>sparse = (replicate 10000 INVALID_INDEX)[3 := 0],
        dense = (replicate 64 0)[0 := 3],
        data = (replicate 64 default)[0 := Sprite 0 (SDL_Color 9 9 9 9) 9 9],
        count = 1, capacity = 64\<rparr>"],
        rule exI[of _ "\<lparr>sparse = (replicate 10000 INVALID_INDEX)[3 := 0],
        dense = (replicate 64 0)[0 := 3],
        data = (replicate 64 default)[0 := Physics (Vec2 9 9) (Vec2 0 1) 1 2 0 False],
        count = 1, capacity = 64\<rparr>"],
        rule exI[of _ "\<lparr>sparse = (replicate 10000 INVALID_INDEX)[3 := 0],
        dense = (replicate 64 0)[0 := 3],
        data = (replicate 64 default)[0 := Collider (Vec2 9 9) (Vec2 0 0) 1 1 False False],
        count = 1, capacity = 64\<rparr>"],
        rule exI[of _ "\<lparr>sparse = (replicate 10000 INVALID_INDEX)[3 := 0],
        dense = (replicate 64 0)[0 := 3],
        data = (replicate 64 default)[0 := Animation 0 9 9 0 4 0 0 True True],
        count = 1, capacity = 64\<rparr>"],
        rule exI[of _ "[Probe 2 1, Probe 3 1, Probe 4 1, Probe 5 1, Probe 6 1, Probe 2 2, Probe 3 2, Probe 4 2, Probe 5 2, Probe 6 2, Probe 2 3, Probe 3 3, Probe 4 3, Probe 5 3, Probe 6 3, Visit 3 (Transform (Vec2 3 3) 0 1, Player 30 3, Sprite 0 (SDL_Color 1 2 3 4) 8 9, Physics (Vec2 0 0) (Vec2 0 1) 1 2 0 False, Collider (Vec2 1 1) (Vec2 0 0) 1 1 False False, Animation 0 1 1 0 4 0 0 True True)]"], intro conjI)
      (simp_all add: eval_defs)
  show ?thesis
    by (rule exI[of _ ?S1], rule exI[of _ ?S2], rule exI[of _ ?S3], rule exI[of _ ?S4],
        rule exI[of _ ?S5], rule exI[of _ ?S6], rule exI[of _ ?T1], rule exI[of _ ?T2],
        rule exI[of _ ?T3], rule exI[of _ ?log3], intro conjI)
      (rule example_kind1 example_kind2 example_kind3 example_kind4 example_kind5
        example_kind6 i1 i2 i3 i4 i5 i6 h g cf a l example_query3 x4 x5 x6)+
qed

section \<open>The entity allocator\<close>

lemma unat_of_nat32: "n < 4294967296 \<Longrightarrow> unat (of_nat n :: 32 word) = n"
  by (simp add: unat_of_nat)

lemma CreateEntity_times_run:
  "nextEntity w = of_nat k \<Longrightarrow> k + n \<le> 10000 \<Longrightarrow>
   CreateEntity_times n w = (map of_nat [k ..< k + n], w\<lparr>nextEntity := of_nat (k + n)\<rparr>)"
proof (induction n arbitrary: w k)
  case 0
  then show ?case by simp
next
  case (Suc n)
  have lt: "k < 10000" using Suc.prems by simp
  have "unat (of_nat k :: 32 word) = k" using lt by (simp add: unat_of_nat32)
  then have nfull: "\<not> (word_of_int MAX_ENTITIES \<le> (of_nat k :: 32 word))"
    using lt by (simp add: MAX_ENTITIES_def word_le_nat_alt)
  have step: "CreateEntity w = (of_nat k, w\<lparr>nextEntity := of_nat (Suc k)\<rparr>)"
    using nfull Suc.prems(1) by (simp add: CreateEntity_def)
  have "CreateEntity_times n (w\<lparr>nextEntity := of_nat (Suc k)\<rparr>) =
        (map of_nat [Suc k ..< Suc k + n], w\<lparr>nextEntity := of_nat (Suc k), nextEntity := of_nat (Suc k + n)\<rparr>)"
    using Suc.prems by (intro Suc.IH) simp_all
  then show ?case using step by (simp add: upt_rec[of k])
qed

lemma CreateEntity_times_full:
  "nextEntity w = word_of_int MAX_ENTITIES \<Longrightarrow> CreateEntity_times n w = (replicate n NULL_ENTITY, w)"
  by (induction n) (simp_all add: CreateEntity_def)

lemma CreateEntity_times_add:
  "CreateEntity_times (m + n) w =
     (fst (CreateEntity_times m w) @ fst (CreateEntity_times n (snd (CreateEntity_times m w))),
      snd (CreateEntity_times n (snd (CreateEntity_times m w))))"
  by (induction m arbitrary: w) (simp_all split: prod.splits)

lemma first_batch: "CreateEntity_times 9999 World_new = (map of_nat [1 ..< 10000], World_new\<lparr>nextEntity := 10000\<rparr>)"
  using CreateEntity_times_run[of World_new 1 9999] by (simp add: World_new_def)

lemma distinct_batch: "distinct (map (of_nat :: nat \<Rightarrow> 32 word) [1 ..< 10000])"
proof -
  have "inj_on (of_nat :: nat \<Rightarrow> 32 word) {1 ..< 10000}"
  proof (rule inj_onI)
    fix i j :: nat assume a: "i \<in> {1 ..< 10000}" "j \<in> {1 ..< 10000}"
      "(of_nat i :: 32 word) = of_nat j"
    have "unat (of_nat i :: 32 word) = i" "unat (of_nat j :: 32 word) = j"
      using a(1,2) by (simp_all add: unat_of_nat32)
    then show "i = j" using a(3) by metis
  qed
  then show ?thesis by (simp add: distinct_map)
qed

lemma null_notin_batch: "NULL_ENTITY \<notin> set (map (of_nat :: nat \<Rightarrow> 32 word) [1 ..< 10000])"
proof
  assume "NULL_ENTITY \<in> set (map (of_nat :: nat \<Rightarrow> 32 word) [1 ..< 10000])"
  then obtain k where k: "1 \<le> k" "k < 10000" "(of_nat k :: 32 word) = 0"
    by (auto simp: NULL_ENTITY_def)
  have "unat (of_nat k :: 32 word) = k" using k(2) by (simp add: unat_of_nat32)
  moreover have "unat (of_nat k :: 32 word) = 0" by (simp only: k(3) unat_0)
  ultimately show False using k by simp
qed

text \<open>
  Claim C6. The counter starts at 1. \<open>CreateEntity\<close> returns the counter and increments
  it, unless the counter has reached \<open>MAX_ENTITIES\<close>: then it returns the null entity and
  leaves the registry as it is. So \<open>MAX_ENTITIES - 1\<close> calls on a new registry return
  1, 2, ..., 9999, which are pairwise distinct and not null, and after these and any number
  \<open>n\<close> of further calls the next call returns the null entity and changes nothing.
\<close>

theorem CreateEntity_overflow_boundary:
  "nextEntity World_new = 1 \<and>
   CreateEntity w =
     (if word_of_int MAX_ENTITIES \<le> nextEntity w then (NULL_ENTITY, w)
      else (nextEntity w, w\<lparr>nextEntity := nextEntity w + 1\<rparr>)) \<and>
   fst (CreateEntity_times (nat (MAX_ENTITIES - 1)) World_new) =
     map of_nat [1 ..< nat MAX_ENTITIES] \<and>
   distinct (fst (CreateEntity_times (nat (MAX_ENTITIES - 1)) World_new)) \<and>
   NULL_ENTITY \<notin> set (fst (CreateEntity_times (nat (MAX_ENTITIES - 1)) World_new)) \<and>
   CreateEntity (snd (CreateEntity_times (nat (MAX_ENTITIES - 1) + n) World_new)) =
     (NULL_ENTITY, snd (CreateEntity_times (nat (MAX_ENTITIES - 1) + n) World_new))"
proof -
  have n1: "nat (MAX_ENTITIES - 1) = 9999" and n2: "nat MAX_ENTITIES = 10000"
    by (simp_all add: MAX_ENTITIES_def)
  have full: "nextEntity (World_new\<lparr>nextEntity := 10000\<rparr>) = word_of_int MAX_ENTITIES"
    by (simp add: MAX_ENTITIES_def)
  have later: "snd (CreateEntity_times (9999 + n) World_new) = World_new\<lparr>nextEntity := 10000\<rparr>"
    by (simp add: CreateEntity_times_add first_batch CreateEntity_times_full[OF full])
  have c1: "nextEntity World_new = 1" by (simp add: World_new_def)
  have c2: "CreateEntity w =
     (if word_of_int MAX_ENTITIES \<le> nextEntity w then (NULL_ENTITY, w)
      else (nextEntity w, w\<lparr>nextEntity := nextEntity w + 1\<rparr>))"
    by (simp add: CreateEntity_def)
  have c7: "CreateEntity (World_new\<lparr>nextEntity := 10000\<rparr>) = (NULL_ENTITY, World_new\<lparr>nextEntity := 10000\<rparr>)"
    by (simp add: CreateEntity_def MAX_ENTITIES_def)
  show ?thesis
    unfolding n1 n2 later first_batch fst_conv
    using c1 c2 c7 distinct_batch null_notin_batch by simp
qed

end
